(* ===== verification/Prelude.thy ===== *)
theory Prelude
  imports Main "HOL-Library.Word" "HOL-Library.Sublist"
begin

unbundle bit_operations_syntax

text \<open>
  Shared foundations: the outcome type of a fallible Rust function with its combinators, Rust's
  checked integer operations, slices with Rust's bounds behaviour, and the list facts the component
  theories use.

  A Rust function returning \<open>Result<T, E>\<close> becomes a HOL function into \<open>'e fault + 'a\<close>:
  \<open>Inl (Err e)\<close> is a returned error, \<open>Inl Panic\<close> a panic (an out-of-range index or subslice, an
  arithmetic overflow of a checked build, a failed \<open>expect\<close>), \<open>Inr x\<close> a result.  The \<open>?\<close> operator
  is \<open>and_then\<close>.
\<close>

section \<open>Collections of rules\<close>

named_theorems exec_simps "equations that evaluate the model on concrete input"
named_theorems outcome_simps "inversion of outcomes: which step of a function failed or succeeded"

section \<open>Outcomes\<close>

datatype 'e fault = Err 'e | Panic

abbreviation bail :: "'e \<Rightarrow> 'e fault + 'a" where
  "bail e \<equiv> Inl (Err e)"

abbreviation panic :: "'e fault + 'a" where
  "panic \<equiv> Inl Panic"

definition and_then :: "'f + 'a \<Rightarrow> ('a \<Rightarrow> 'f + 'b) \<Rightarrow> 'f + 'b" where
  "and_then r f = (case r of Inl e \<Rightarrow> Inl e | Inr x \<Rightarrow> f x)"

definition ensure :: "bool \<Rightarrow> 'f \<Rightarrow> 'f + unit" where
  "ensure b e = (if b then Inr () else Inl e)"

definition ok_or :: "'f \<Rightarrow> 'a option \<Rightarrow> 'f + 'a" where
  "ok_or e x = (case x of None \<Rightarrow> Inl e | Some y \<Rightarrow> Inr y)"

lemma and_then_simps [simp, exec_simps]:
  "and_then (Inl e) f = Inl e"
  "and_then (Inr x) f = f x"
  by (simp_all add: and_then_def)

lemma and_then_eq_Inr [simp, outcome_simps]:
  "and_then r f = Inr y \<longleftrightarrow> (\<exists>x. r = Inr x \<and> f x = Inr y)"
  by (cases r) auto

lemma and_then_eq_Inl [outcome_simps]:
  "and_then r f = Inl e \<longleftrightarrow> r = Inl e \<or> (\<exists>x. r = Inr x \<and> f x = Inl e)"
  by (cases r) auto

lemma and_then_assoc [simp]:
  "and_then (and_then r f) g = and_then r (\<lambda>x. and_then (f x) g)"
  by (cases r) auto

lemma and_then_cong [fundef_cong]:
  assumes "r = r'" and "\<And>x. r' = Inr x \<Longrightarrow> f x = g x"
  shows "and_then r f = and_then r' g"
  using assms by (cases r') auto

lemma ensure_simps [simp, exec_simps]:
  "ensure True e = Inr ()"
  "ensure False e = Inl e"
  by (simp_all add: ensure_def)

lemma ensure_eq [simp, outcome_simps]:
  "ensure b e = Inr u \<longleftrightarrow> b"
  "ensure b e = Inl e' \<longleftrightarrow> \<not> b \<and> e' = e"
  by (auto simp: ensure_def)

lemma ok_or_simps [simp, exec_simps]:
  "ok_or e None = Inl e"
  "ok_or e (Some x) = Inr x"
  by (simp_all add: ok_or_def)

lemma ok_or_eq [simp, outcome_simps]:
  "ok_or e x = Inr y \<longleftrightarrow> x = Some y"
  "ok_or e x = Inl e' \<longleftrightarrow> x = None \<and> e' = e"
  by (auto simp: ok_or_def split: option.splits)

text \<open>\<open>.context(..)\<close> and \<open>.map_err(f)\<close> rename the error and leave results and panics alone.\<close>

definition map_err :: "('e \<Rightarrow> 'f) \<Rightarrow> 'e fault + 'a \<Rightarrow> 'f fault + 'a" where
  "map_err f r = (case r of Inl (Err e) \<Rightarrow> bail (f e) | Inl Panic \<Rightarrow> panic | Inr x \<Rightarrow> Inr x)"

lemma map_err_simps [simp, exec_simps]:
  "map_err f (Inl (Err e)) = bail (f e)"
  "map_err f (Inl Panic) = panic"
  "map_err f (Inr x) = Inr x"
  by (simp_all add: map_err_def)

lemma map_err_eq [simp, outcome_simps]:
  "map_err f r = Inr x \<longleftrightarrow> r = Inr x"
  "map_err f r = panic \<longleftrightarrow> r = panic"
  "map_err f r = bail e \<longleftrightarrow> (\<exists>e'. r = bail e' \<and> e = f e')"
  by (auto simp: map_err_def split: sum.splits fault.splits)

text \<open>\<open>iter().map(f).collect::<Result<Vec<_>>>()\<close>: the first error wins.\<close>

fun collect_results :: "('a \<Rightarrow> 'f + 'b) \<Rightarrow> 'a list \<Rightarrow> 'f + 'b list" where
  "collect_results f [] = Inr []"
| "collect_results f (x # xs) =
     and_then (f x) (\<lambda>y. and_then (collect_results f xs) (\<lambda>ys. Inr (y # ys)))"

lemma collect_results_Inr_iff [simp]:
  "collect_results f xs = Inr ys \<longleftrightarrow> list_all2 (\<lambda>x y. f x = Inr y) xs ys"
  by (induction xs arbitrary: ys) (auto simp: list_all2_Cons1)

lemma collect_results_panic:
  "collect_results f xs = panic \<Longrightarrow> \<exists>x \<in> set xs. f x = panic"
  by (induction xs) (auto simp: and_then_eq_Inl)

lemma collect_results_cong [fundef_cong]:
  assumes "xs = xs'" and "\<And>x. x \<in> set xs' \<Longrightarrow> f x = g x"
  shows "collect_results f xs = collect_results g xs'"
proof -
  have "collect_results f zs = collect_results g zs" if "set zs \<subseteq> set xs'" for zs
    using that by (induction zs) (auto simp: assms(2))
  then show ?thesis using assms(1) by simp
qed

section \<open>Checked arithmetic\<close>

text \<open>
  \<open>usize\<close> and \<open>u64\<close> are 64 bits wide on the targets of the program.  Quantities are \<open>nat\<close>; where a sum
  or a product can leave the range, the model says what the source does there: \<open>checked_add\<close> returns
  \<open>None\<close>, the plain operator panics (both crates' tests run with overflow checks, and
  \<open>tdx-measure\<close> keeps them in its release profile).
\<close>

definition u64_limit :: nat where "u64_limit = 2 ^ 64"

definition checked_add :: "nat \<Rightarrow> nat \<Rightarrow> nat option" where
  "checked_add a b = (if a + b < u64_limit then Some (a + b) else None)"

definition checked_mul :: "nat \<Rightarrow> nat \<Rightarrow> nat option" where
  "checked_mul a b = (if a * b < u64_limit then Some (a * b) else None)"

definition add_u64 :: "nat \<Rightarrow> nat \<Rightarrow> 'e fault + nat" where
  "add_u64 a b = ok_or Panic (checked_add a b)"

definition mul_u64 :: "nat \<Rightarrow> nat \<Rightarrow> 'e fault + nat" where
  "mul_u64 a b = ok_or Panic (checked_mul a b)"

definition sub_u64 :: "nat \<Rightarrow> nat \<Rightarrow> 'e fault + nat" where
  "sub_u64 a b = (if b \<le> a then Inr (a - b) else panic)"

lemma checked_add_eq [simp]:
  "checked_add a b = Some c \<longleftrightarrow> c = a + b \<and> a + b < u64_limit"
  "checked_add a b = None \<longleftrightarrow> u64_limit \<le> a + b"
  by (auto simp: checked_add_def)

lemma checked_mul_eq [simp]:
  "checked_mul a b = Some c \<longleftrightarrow> c = a * b \<and> a * b < u64_limit"
  "checked_mul a b = None \<longleftrightarrow> u64_limit \<le> a * b"
  by (auto simp: checked_mul_def)

lemma add_u64_eq [simp, outcome_simps]:
  "add_u64 a b = Inr c \<longleftrightarrow> c = a + b \<and> a + b < u64_limit"
  "add_u64 a b = Inl e \<longleftrightarrow> u64_limit \<le> a + b \<and> e = Panic"
  by (auto simp: add_u64_def)

lemma mul_u64_eq [simp, outcome_simps]:
  "mul_u64 a b = Inr c \<longleftrightarrow> c = a * b \<and> a * b < u64_limit"
  "mul_u64 a b = Inl e \<longleftrightarrow> u64_limit \<le> a * b \<and> e = Panic"
  by (auto simp: mul_u64_def)

lemma sub_u64_eq [simp, outcome_simps]:
  "sub_u64 a b = Inr c \<longleftrightarrow> b \<le> a \<and> c = a - b"
  "sub_u64 a b = Inl e \<longleftrightarrow> a < b \<and> e = Panic"
  by (auto simp: sub_u64_def)

lemma checked_arith_exec [exec_simps]:
  "checked_add a b = (if a + b < u64_limit then Some (a + b) else None)"
  "checked_mul a b = (if a * b < u64_limit then Some (a * b) else None)"
  "add_u64 a b = (if a + b < u64_limit then Inr (a + b) else panic)"
  "mul_u64 a b = (if a * b < u64_limit then Inr (a * b) else panic)"
  "sub_u64 a b = (if b \<le> a then Inr (a - b) else panic)"
  "u64_limit = 18446744073709551616"
  by (auto simp: checked_add_def checked_mul_def add_u64_def mul_u64_def sub_u64_def u64_limit_def
      ok_or_def)

section \<open>Slices\<close>

text \<open>
  \<open>subslice d a b\<close> is \<open>&d[a..b]\<close> for bounds the source has already checked; \<open>subslice_or_panic\<close> is the same
  expression where it has not: Rust panics when \<open>a > b\<close> or \<open>b > d.len()\<close>.
\<close>

definition subslice :: "'a list \<Rightarrow> nat \<Rightarrow> nat \<Rightarrow> 'a list" where
  "subslice d a b = take (b - a) (drop a d)"

definition subslice_or_panic :: "'a list \<Rightarrow> nat \<Rightarrow> nat \<Rightarrow> 'e fault + 'a list" where
  "subslice_or_panic d a b = (if a \<le> b \<and> b \<le> length d then Inr (subslice d a b) else panic)"

lemma length_subslice [simp]: "b \<le> length d \<Longrightarrow> length (subslice d a b) = b - a"
  by (auto simp: subslice_def)

lemma length_subslice_le: "length (subslice d a b) \<le> b - a"
  by (simp add: subslice_def)

lemma subslice_all: "b = length d \<Longrightarrow> subslice d 0 b = d"
  by (simp add: subslice_def)

lemma subslice_to_end: "b = length d \<Longrightarrow> subslice d a b = drop a d"
  by (simp add: subslice_def)

lemma take_eq_subslice: "take n d = subslice d 0 n"
  by (simp add: subslice_def)

lemma subslice_empty [simp]: "subslice d a a = []"
  by (simp add: subslice_def)

lemma subslice_append:
  "a \<le> b \<Longrightarrow> b \<le> c \<Longrightarrow> subslice d a b @ subslice d b c = subslice d a c"
proof -
  assume "a \<le> b" and "b \<le> c"
  then have "subslice d a c = take ((b - a) + (c - b)) (drop a d)"
    by (simp add: subslice_def)
  also have "\<dots> = take (b - a) (drop a d) @ take (c - b) (drop (b - a) (drop a d))"
    by (simp add: take_add)
  finally show ?thesis using \<open>a \<le> b\<close> by (simp add: subslice_def)
qed

lemma subslice_or_panic_eq [simp, outcome_simps]:
  "subslice_or_panic d a b = Inr s \<longleftrightarrow> a \<le> b \<and> b \<le> length d \<and> s = subslice d a b"
  "subslice_or_panic d a b = Inl e \<longleftrightarrow> \<not> (a \<le> b \<and> b \<le> length d) \<and> e = Panic"
  by (auto simp: subslice_or_panic_def)

lemma nth_subslice: "i < b - a \<Longrightarrow> b \<le> length d \<Longrightarrow> subslice d a b ! i = d ! (a + i)"
  by (simp add: subslice_def)

text \<open>\<open>d[p..p + f.len()].copy_from_slice(f)\<close> for a range the source knows to be inside \<open>d\<close>.\<close>

definition overwrite :: "'a list \<Rightarrow> nat \<Rightarrow> 'a list \<Rightarrow> 'a list" where
  "overwrite d p f = take p d @ f @ drop (p + length f) d"

lemma length_overwrite [simp]: "p + length f \<le> length d \<Longrightarrow> length (overwrite d p f) = length d"
  by (simp add: overwrite_def)

lemma nth_overwrite:
  "p + length f \<le> length d \<Longrightarrow> i < length d \<Longrightarrow>
     overwrite d p f ! i = (if p \<le> i \<and> i < p + length f then f ! (i - p) else d ! i)"
  by (auto simp: overwrite_def nth_append min_def)

lemma subslice_overwrite:
  assumes "p + length f \<le> length d" and "b \<le> p \<or> p + length f \<le> a"
  shows "subslice (overwrite d p f) a b = subslice d a b"
  using assms
  by (intro nth_equalityI) (auto simp: subslice_def nth_overwrite)

lemma subslice_overwritten:
  "p + length f \<le> length d \<Longrightarrow> subslice (overwrite d p f) p (p + length f) = f"
  by (simp add: overwrite_def subslice_def)

lemma take_overwrite: "a \<le> p \<Longrightarrow> p \<le> length d \<Longrightarrow> take a (overwrite d p f) = take a d"
  by (simp add: overwrite_def min_def)

lemma drop_overwrite:
  "p + length f \<le> a \<Longrightarrow> p + length f \<le> length d \<Longrightarrow> drop a (overwrite d p f) = drop a d"
  by (intro nth_equalityI) (auto simp: nth_overwrite)

text \<open>The source's \<open>first entry that satisfies p\<close>, \<open>iter().find\<close>, is \<open>List.find\<close>.\<close>

text \<open>Two concatenations of blocks that agree in length block by block agree block by block.\<close>

lemma concat_map_inject:
  "(\<And>x. x \<in> set xs \<Longrightarrow> length (f x) = length (g x)) \<Longrightarrow>
     concat (map f xs) = concat (map g xs) \<Longrightarrow> x \<in> set xs \<Longrightarrow> f x = g x"
  by (induction xs) auto

lemma length_concat_map_cong:
  "(\<And>x. x \<in> set xs \<Longrightarrow> length (f x) = length (g x)) \<Longrightarrow>
     length (concat (map f xs)) = length (concat (map g xs))"
  by (induction xs) auto

text \<open>Equal blocks of a fixed size make equal slices.\<close>

lemma subslice_blocks:
  assumes "0 < b" and "\<And>k. k < n \<Longrightarrow> subslice d (a + k * b) (a + k * b + b) = subslice e (a + k * b) (a + k * b + b)"
    and "a + n * b \<le> length d" and "a + n * b \<le> length e"
  shows "subslice d a (a + n * b) = subslice e a (a + n * b)"
proof (rule nth_equalityI)
  fix i assume "i < length (subslice d a (a + n * b))"
  then have i: "i < n * b" using assms(3) by simp
  let ?k = "i div b" and ?r = "i mod b"
  have k: "?k < n" using i by (simp add: less_mult_imp_div_less)
  have r: "?r < b" and ik: "i = ?k * b + ?r" using assms(1) by simp_all
  have "?k * b + b \<le> n * b" using k by (metis Suc_leI mult_Suc mult_le_mono1 add.commute)
  then have len: "a + ?k * b + b \<le> length d" "a + ?k * b + b \<le> length e" using assms(3,4) by simp_all
  have "subslice d (a + ?k * b) (a + ?k * b + b) ! ?r = subslice e (a + ?k * b) (a + ?k * b + b) ! ?r"
    using assms(2) [OF k] by simp
  then have "d ! (a + ?k * b + ?r) = e ! (a + ?k * b + ?r)"
    using r len by (simp add: nth_subslice)
  moreover have "a + ?k * b + ?r = a + i" using ik by simp
  ultimately have "d ! (a + i) = e ! (a + i)" by (simp only:)
  then show "subslice d a (a + n * b) ! i = subslice e a (a + n * b) ! i"
    using i assms(3,4) by (simp add: nth_subslice)
qed (use assms(3,4) in simp)

section \<open>Padding and paging\<close>

text \<open>\<open>(n - len % n) % n\<close>: how many bytes bring a length to the next multiple of \<open>n\<close>.\<close>

definition pad_len :: "nat \<Rightarrow> nat \<Rightarrow> nat" where
  "pad_len n len = (n - len mod n) mod n"

lemma pad_len_dvd: "0 < n \<Longrightarrow> n dvd len + pad_len n len"
proof -
  assume n: "0 < n"
  then have lt: "len mod n < n" by simp
  show ?thesis
  proof (cases "len mod n = 0")
    case True
    then show ?thesis by (simp add: pad_len_def mod_eq_0_iff_dvd)
  next
    case False
    with lt have "pad_len n len = n - len mod n"
      by (simp add: pad_len_def)
    moreover have "len mod n + (n - len mod n) = n" using lt by simp
    ultimately have "len + pad_len n len = n * (len div n) + n"
      using mult_div_mod_eq [of n len] by linarith
    then show ?thesis by simp
  qed
qed

lemma pad_len_less: "0 < n \<Longrightarrow> pad_len n len < n"
  by (simp add: pad_len_def)

text \<open>\<open>usize::div_ceil\<close>.\<close>

definition div_ceil :: "nat \<Rightarrow> nat \<Rightarrow> nat" where
  "div_ceil a n = (a + n - 1) div n"

lemma div_ceil_0 [simp]: "0 < n \<Longrightarrow> div_ceil 0 n = 0"
  by (simp add: div_ceil_def)

lemma div_ceil_less_iff: "0 < n \<Longrightarrow> k < div_ceil a n \<longleftrightarrow> k * n < a"
proof -
  assume n: "0 < n"
  have "k < (a + n - 1) div n \<longleftrightarrow> Suc k * n \<le> a + n - 1"
    using n by (simp add: Suc_le_eq [symmetric] less_eq_div_iff_mult_less_eq del: Suc_le_eq)
  also have "\<dots> \<longleftrightarrow> k * n < a" using n by auto
  finally show ?thesis by (simp add: div_ceil_def)
qed

lemma div_ceil_eq_0_iff: "0 < n \<Longrightarrow> div_ceil a n = 0 \<longleftrightarrow> a = 0"
  using div_ceil_less_iff [of n 0 a] by auto

end
