(* ===== verification/Bytes.thy ===== *)
theory Bytes
  imports Prelude
begin

text \<open>
  Byte strings and the little-endian fields every binary format of the program is made of.

  \<open>u8\<close> values are \<open>8 word\<close>.  A wider unsigned field that the code only compares, adds or uses as an
  offset is read as the \<open>nat\<close> it denotes (\<open>le_nat\<close>); \<open>le_nat_less\<close> gives its width back.  The digest
  of a SHA-384 computation is a \<open>384 word\<close>, its bytes are \<open>digest_bytes\<close>.
\<close>

section \<open>Bytes\<close>

type_synonym byte = "8 word"
type_synonym bytes = "byte list"
type_synonym digest = "384 word"

text \<open>\<open>b"..."\<close> and \<open>str::as_bytes\<close>: a HOL \<open>string\<close> holds the UTF-8 bytes of a Rust \<open>str\<close>.\<close>

definition as_bytes :: "string \<Rightarrow> bytes" where
  "as_bytes s = map of_char s"

definition zeros :: "nat \<Rightarrow> bytes" where
  "zeros n = replicate n 0"

lemma length_as_bytes [simp]: "length (as_bytes s) = length s"
  by (simp add: as_bytes_def)

lemma length_zeros [simp]: "length (zeros n) = n"
  by (simp add: zeros_def)

lemma take_zeros [simp]: "take n (zeros k) = zeros (min n k)"
  by (simp add: zeros_def)

lemma drop_zeros [simp]: "drop n (zeros k) = zeros (k - n)"
  by (simp add: zeros_def)

lemma as_bytes_append [simp]: "as_bytes (s @ t) = as_bytes s @ as_bytes t"
  by (simp add: as_bytes_def)

lemma unat_of_char_byte: "unat (of_char c :: byte) = of_char c"
proof -
  have "(of_char c :: nat) < 256" by simp
  moreover have "(of_char c :: byte) = word_of_nat (of_char c)"
    by (simp only: of_nat_of_char)
  ultimately show ?thesis by (simp only: unat_of_nat) simp
qed

lemma of_char_byte_eq_iff: "(of_char c :: byte) = of_char d \<longleftrightarrow> c = d"
  by (metis of_char_eq_iff unat_of_char_byte)

lemma as_bytes_eq_iff [simp]: "as_bytes s = as_bytes t \<longleftrightarrow> s = t"
  by (auto simp: as_bytes_def of_char_byte_eq_iff intro!: inj_onI dest!: map_inj_on)

section \<open>Little-endian fields\<close>

fun le_nat :: "bytes \<Rightarrow> nat" where
  "le_nat [] = 0"
| "le_nat (b # bs) = unat b + 256 * le_nat bs"

fun le_bytes :: "nat \<Rightarrow> nat \<Rightarrow> bytes" where
  "le_bytes 0 x = []"
| "le_bytes (Suc n) x = word_of_nat (x mod 256) # le_bytes n (x div 256)"

lemma length_le_bytes [simp]: "length (le_bytes n x) = n"
  by (induction n arbitrary: x) auto

lemma unat_byte_less [simp]: "unat (b :: byte) < 256"
proof -
  have "unat b < 2 ^ LENGTH(8)" by (rule unsigned_less)
  then show ?thesis by simp
qed

lemma le_nat_le_bytes: "le_nat (le_bytes n x) = x mod 256 ^ n"
proof (induction n arbitrary: x)
  case (Suc n)
  have "unat (word_of_nat (x mod 256) :: byte) = x mod 256"
    by (simp add: unat_of_nat)
  then show ?case using Suc.IH [of "x div 256"] by (simp add: mod_mult2_eq)
qed simp

lemma le_bytes_le_nat: "length bs = n \<Longrightarrow> le_bytes n (le_nat bs) = bs"
proof (induction bs arbitrary: n)
  case (Cons b bs)
  then show ?case by auto
qed simp

lemma le_nat_less: "le_nat bs < 256 ^ length bs"
proof (induction bs)
  case (Cons b bs)
  have "unat b + 256 * le_nat bs < 256 + 256 * le_nat bs" by simp
  also have "\<dots> \<le> 256 * 256 ^ length bs" using Cons by simp
  finally show ?case by simp
qed simp

lemma le_nat_zeros [simp]: "le_nat (replicate n 0) = 0"
  by (induction n) auto

lemma le_bytes_inject:
  "x < 256 ^ n \<Longrightarrow> y < 256 ^ n \<Longrightarrow> le_bytes n x = le_bytes n y \<longleftrightarrow> x = y"
  by (metis le_nat_le_bytes mod_less)

text \<open>\<open>from_le_bytes(d[o..o + n])\<close> for an offset the source has checked.\<close>

definition u16_at :: "bytes \<Rightarrow> nat \<Rightarrow> nat" where
  "u16_at d p = le_nat (subslice d p (p + 2))"

definition u32_at :: "bytes \<Rightarrow> nat \<Rightarrow> nat" where
  "u32_at d p = le_nat (subslice d p (p + 4))"

definition u64_at :: "bytes \<Rightarrow> nat \<Rightarrow> nat" where
  "u64_at d p = le_nat (subslice d p (p + 8))"

lemma le_nat_subslice_less: "le_nat (subslice d p (p + n)) < 256 ^ n"
proof -
  have "le_nat (subslice d p (p + n)) < 256 ^ length (subslice d p (p + n))"
    by (rule le_nat_less)
  also have "\<dots> \<le> 256 ^ n"
    by (rule power_increasing) (use length_subslice_le [of d p "p + n"] in simp_all)
  finally show ?thesis .
qed

lemma u16_at_less: "u16_at d p < 2 ^ 16"
  using le_nat_subslice_less [of d p 2] by (simp add: u16_at_def)

lemma u32_at_less: "u32_at d p < 2 ^ 32"
  using le_nat_subslice_less [of d p 4] by (simp add: u32_at_def)

lemma u64_at_less: "u64_at d p < u64_limit"
  using le_nat_subslice_less [of d p 8] by (simp add: u64_at_def u64_limit_def)

subsection \<open>A field and its encoding\<close>

text \<open>
  What a reader and a writer of one fixed-width field promise each other.  The binary formats of the
  program (TDVF metadata, PE headers, GPT entries, event logs, HOBs, PAGE_INFO) rest on these laws.
\<close>

locale le_field =
  fixes encode :: "'v \<Rightarrow> bytes"
    and decode :: "bytes \<Rightarrow> 'v"
    and width :: nat
    and fits :: "'v \<Rightarrow> bool"
  assumes width_encode: "length (encode v) = width"
    and decode_encode: "fits v \<Longrightarrow> decode (encode v) = v"
    and encode_decode: "length bs = width \<Longrightarrow> encode (decode bs) = bs"
    and fits_decode: "length bs = width \<Longrightarrow> fits (decode bs)"
begin

lemma read_written:
  assumes "fits v"
  shows "decode (subslice (pre @ encode v @ post) (length pre) (length pre + width)) = v"
  using assms by (simp add: subslice_def width_encode decode_encode)

lemma encode_inject: "fits v \<Longrightarrow> fits w \<Longrightarrow> encode v = encode w \<longleftrightarrow> v = w"
  by (metis decode_encode)

lemma encode_append_inject:
  assumes "fits v" and "fits w"
  shows "encode v @ xs = encode w @ ys \<longleftrightarrow> v = w \<and> xs = ys"
  using assms by (auto simp: width_encode encode_inject)

lemma decode_inject:
  "length bs = width \<Longrightarrow> length cs = width \<Longrightarrow> decode bs = decode cs \<longleftrightarrow> bs = cs"
  by (metis encode_decode)

end

interpretation le16: le_field "le_bytes 2" le_nat 2 "\<lambda>x. x < 2 ^ 16"
  by unfold_locales
    (auto simp: le_nat_le_bytes le_bytes_le_nat intro: less_le_trans [OF le_nat_less])

interpretation le32: le_field "le_bytes 4" le_nat 4 "\<lambda>x. x < 2 ^ 32"
  by unfold_locales
    (auto simp: le_nat_le_bytes le_bytes_le_nat intro: less_le_trans [OF le_nat_less])

interpretation le64: le_field "le_bytes 8" le_nat 8 "\<lambda>x. x < u64_limit"
  by unfold_locales
    (auto simp: le_nat_le_bytes le_bytes_le_nat u64_limit_def intro: less_le_trans [OF le_nat_less])

lemma u16_at_written:
  "x < 2 ^ 16 \<Longrightarrow> p = length pre \<Longrightarrow> u16_at (pre @ le_bytes 2 x @ post) p = x"
  using le16.read_written [of x pre post] by (simp add: u16_at_def)

lemma subslice_take: "b \<le> m \<Longrightarrow> subslice (take m d) a b = subslice d a b"
  by (simp add: subslice_def drop_take min_def)

lemma field_at_take:
  "p + 2 \<le> m \<Longrightarrow> u16_at (take m d) p = u16_at d p"
  "p + 4 \<le> m \<Longrightarrow> u32_at (take m d) p = u32_at d p"
  "p + 8 \<le> m \<Longrightarrow> u64_at (take m d) p = u64_at d p"
  by (simp_all add: u16_at_def u32_at_def u64_at_def subslice_take)

lemma u32_at_written:
  "x < 2 ^ 32 \<Longrightarrow> p = length pre \<Longrightarrow> u32_at (pre @ le_bytes 4 x @ post) p = x"
  using le32.read_written [of x pre post] by (simp add: u32_at_def)

lemma u64_at_written:
  "x < u64_limit \<Longrightarrow> p = length pre \<Longrightarrow> u64_at (pre @ le_bytes 8 x @ post) p = x"
  using le64.read_written [of x pre post] by (simp add: u64_at_def)

section \<open>Digests\<close>

definition digest_bytes :: "digest \<Rightarrow> bytes" where
  "digest_bytes w = le_bytes 48 (unat w)"

lemma length_digest_bytes [simp]: "length (digest_bytes w) = 48"
  by (simp add: digest_bytes_def)

lemma digest_bytes_inject [simp]: "digest_bytes v = digest_bytes w \<longleftrightarrow> v = w"
proof -
  have small: "unat x < 256 ^ 48" for x :: digest
  proof -
    have "unat x < 2 ^ LENGTH(384)" by (rule unsigned_less)
    then show ?thesis by simp
  qed
  have "le_bytes 48 (unat v) = le_bytes 48 (unat w) \<longleftrightarrow> unat v = unat w"
    by (intro le_bytes_inject small)
  then show ?thesis by (simp add: digest_bytes_def word_unat_eq_iff)
qed

lemma digest_bytes_0 [simp]: "digest_bytes 0 = zeros 48"
proof -
  have "le_bytes n 0 = zeros n" for n
    by (induction n) (auto simp: zeros_def)
  then show ?thesis by (simp add: digest_bytes_def)
qed

section \<open>Evaluation\<close>

lemma le_bytes_numeral [exec_simps]:
  "le_bytes (numeral k) x = word_of_nat (x mod 256) # le_bytes (pred_numeral k) (x div 256)"
  by (simp only: numeral_eq_Suc [of k] le_bytes.simps)

lemma zeros_0 [simp]: "zeros 0 = []"
  by (simp add: zeros_def)

lemma zeros_exec [exec_simps]:
  "zeros (Suc n) = 0 # zeros n"
  "zeros (numeral k) = 0 # zeros (pred_numeral k)"
  by (simp add: zeros_def) (simp only: zeros_def numeral_eq_Suc [of k] replicate.simps)

declare as_bytes_def [exec_simps] subslice_def [exec_simps]
  u16_at_def [exec_simps] u32_at_def [exec_simps] u64_at_def [exec_simps]

end
