(* ===== verification/RustStr.thy ===== *)
theory RustStr
  imports Bytes
begin

text \<open>
  What the program uses of Rust's \<open>str\<close>, \<open>char\<close> and formatting: a \<open>str\<close> is the HOL \<open>string\<close> of its
  UTF-8 bytes, so \<open>len\<close> is \<open>length\<close> and the ASCII operations act byte by byte, as they do in Rust.
  Decoding to code points is only needed where the source asks for UTF-16 or for a validity check.
\<close>

section \<open>Prefixes and separators\<close>

definition strip_prefix :: "string \<Rightarrow> string \<Rightarrow> string option" where
  "strip_prefix p s = (if prefix p s then Some (drop (length p) s) else None)"

definition strip_suffix :: "string \<Rightarrow> string \<Rightarrow> string option" where
  "strip_suffix p s = (if suffix p s then Some (take (length s - length p) s) else None)"

text \<open>\<open>str::split_once\<close> at the first occurrence of an ASCII character.\<close>

fun split_once :: "char \<Rightarrow> string \<Rightarrow> (string \<times> string) option" where
  "split_once c [] = None"
| "split_once c (d # s) =
     (if d = c then Some ([], s)
      else case split_once c s of None \<Rightarrow> None | Some (a, b) \<Rightarrow> Some (d # a, b))"

text \<open>\<open>s.split('/').filter(|c| !c.is_empty()).collect()\<close> for an ASCII separator.\<close>

fun split_char :: "char \<Rightarrow> string \<Rightarrow> string list" where
  "split_char c [] = [[]]"
| "split_char c (d # s) =
     (if d = c then [] # split_char c s
      else case split_char c s of [] \<Rightarrow> [[d]] | a # as \<Rightarrow> (d # a) # as)"

definition path_components :: "string \<Rightarrow> string list" where
  "path_components p = filter (\<lambda>c. c \<noteq> []) (split_char CHR ''/'' p)"

lemma strip_prefix_eq [simp]:
  "strip_prefix p s = Some t \<longleftrightarrow> s = p @ t"
  "strip_prefix p s = None \<longleftrightarrow> \<not> prefix p s"
  by (auto simp: strip_prefix_def prefix_def)

lemma strip_suffix_eq [simp]:
  "strip_suffix p s = Some t \<longleftrightarrow> s = t @ p"
  "strip_suffix p s = None \<longleftrightarrow> \<not> suffix p s"
  by (auto simp: strip_suffix_def suffix_def)

lemma split_once_Some:
  "split_once c s = Some (a, b) \<longleftrightarrow> s = a @ c # b \<and> c \<notin> set a"
proof (induction s arbitrary: a)
  case (Cons d s)
  show ?case
  proof (cases "d = c")
    case True
    then show ?thesis by (cases a) auto
  next
    case False
    then show ?thesis
      by (cases a; cases "split_once c s") (use Cons.IH in \<open>auto split: prod.splits\<close>)
  qed
qed simp

lemma split_once_None: "split_once c s = None \<longleftrightarrow> c \<notin> set s"
  by (induction s) (auto split: option.splits)

section \<open>ASCII\<close>

definition ascii_lower :: "char \<Rightarrow> char" where
  "ascii_lower c =
     (if 65 \<le> (of_char c :: nat) \<and> (of_char c :: nat) \<le> 90 then char_of ((of_char c :: nat) + 32) else c)"

definition is_ascii_digit :: "char \<Rightarrow> bool" where
  "is_ascii_digit c \<longleftrightarrow> 48 \<le> (of_char c :: nat) \<and> (of_char c :: nat) \<le> 57"

definition is_ascii_hexdigit :: "char \<Rightarrow> bool" where
  "is_ascii_hexdigit c \<longleftrightarrow> is_ascii_digit c
     \<or> 97 \<le> (of_char c :: nat) \<and> (of_char c :: nat) \<le> 102
     \<or> 65 \<le> (of_char c :: nat) \<and> (of_char c :: nat) \<le> 70"

definition is_ascii_alphanumeric :: "char \<Rightarrow> bool" where
  "is_ascii_alphanumeric c \<longleftrightarrow> is_ascii_digit c
     \<or> 97 \<le> (of_char c :: nat) \<and> (of_char c :: nat) \<le> 122
     \<or> 65 \<le> (of_char c :: nat) \<and> (of_char c :: nat) \<le> 90"

definition to_ascii_lowercase :: "string \<Rightarrow> string" where
  "to_ascii_lowercase s = map ascii_lower s"

lemma of_char_ascii_lower:
  "(of_char (ascii_lower c) :: nat) =
     (if 65 \<le> (of_char c :: nat) \<and> (of_char c :: nat) \<le> 90 then of_char c + 32 else of_char c)"
  by (simp add: ascii_lower_def of_char_of)

lemma ascii_lower_idem [simp]: "ascii_lower (ascii_lower c) = ascii_lower c"
  by (rule iffD1 [OF of_char_eq_iff [where 'a = nat]]) (simp only: of_char_ascii_lower, auto)

lemma is_ascii_hexdigit_lower [simp]: "is_ascii_hexdigit (ascii_lower c) = is_ascii_hexdigit c"
  by (auto simp: is_ascii_hexdigit_def is_ascii_digit_def of_char_ascii_lower)

lemma length_to_ascii_lowercase [simp]: "length (to_ascii_lowercase s) = length s"
  by (simp add: to_ascii_lowercase_def)

lemma to_ascii_lowercase_idem [simp]:
  "to_ascii_lowercase (to_ascii_lowercase s) = to_ascii_lowercase s"
  by (simp add: to_ascii_lowercase_def comp_def)

section \<open>White space and lines\<close>

text \<open>
  \<open>char::is_whitespace\<close> is the Unicode property White_Space; on the UTF-8 bytes of a \<open>str\<close> its characters
  are one to three bytes long.  \<open>strip_ws\<close> removes one such character from the front, \<open>strip_ws_rev\<close>
  from the front of the reversed string.
\<close>

definition byte_of :: "char \<Rightarrow> nat" where "byte_of c = of_char c"

definition ws1 :: "nat \<Rightarrow> bool" where "ws1 a \<longleftrightarrow> 9 \<le> a \<and> a \<le> 13 \<or> a = 32"

definition ws2 :: "nat \<Rightarrow> nat \<Rightarrow> bool" where "ws2 a b \<longleftrightarrow> a = 0xC2 \<and> (b = 0x85 \<or> b = 0xA0)"

definition ws3 :: "nat \<Rightarrow> nat \<Rightarrow> nat \<Rightarrow> bool" where
  "ws3 a b c \<longleftrightarrow> a = 0xE1 \<and> b = 0x9A \<and> c = 0x80
     \<or> a = 0xE2 \<and> b = 0x80 \<and> (0x80 \<le> c \<and> c \<le> 0x8A \<or> c = 0xA8 \<or> c = 0xA9 \<or> c = 0xAF)
     \<or> a = 0xE2 \<and> b = 0x81 \<and> c = 0x9F
     \<or> a = 0xE3 \<and> b = 0x80 \<and> c = 0x80"

definition strip_ws :: "string \<Rightarrow> string option" where
  "strip_ws s =
     (case s of
        a # t \<Rightarrow>
          if ws1 (byte_of a) then Some t
          else (case t of
            b # u \<Rightarrow>
              if ws2 (byte_of a) (byte_of b) then Some u
              else (case u of
                c # v \<Rightarrow> if ws3 (byte_of a) (byte_of b) (byte_of c) then Some v else None
              | [] \<Rightarrow> None)
          | [] \<Rightarrow> None)
      | [] \<Rightarrow> None)"

definition strip_ws_rev :: "string \<Rightarrow> string option" where
  "strip_ws_rev s =
     (case s of
        a # t \<Rightarrow>
          if ws1 (byte_of a) then Some t
          else (case t of
            b # u \<Rightarrow>
              if ws2 (byte_of b) (byte_of a) then Some u
              else (case u of
                c # v \<Rightarrow> if ws3 (byte_of c) (byte_of b) (byte_of a) then Some v else None
              | [] \<Rightarrow> None)
          | [] \<Rightarrow> None)
      | [] \<Rightarrow> None)"

lemma strip_ws_shorter: "strip_ws s = Some t \<Longrightarrow> length t < length s"
  by (auto simp: strip_ws_def split: list.splits if_splits)

lemma strip_ws_rev_shorter: "strip_ws_rev s = Some t \<Longrightarrow> length t < length s"
  by (auto simp: strip_ws_rev_def split: list.splits if_splits)

function trim_start :: "string \<Rightarrow> string" where
  "trim_start s = (case strip_ws s of None \<Rightarrow> s | Some t \<Rightarrow> trim_start t)"
  by pat_completeness auto
termination by (relation "measure length") (auto dest: strip_ws_shorter)

function trim_end_rev :: "string \<Rightarrow> string" where
  "trim_end_rev s = (case strip_ws_rev s of None \<Rightarrow> s | Some t \<Rightarrow> trim_end_rev t)"
  by pat_completeness auto
termination by (relation "measure length") (auto dest: strip_ws_rev_shorter)

declare trim_start.simps [simp del] trim_end_rev.simps [simp del]

definition trim :: "string \<Rightarrow> string" where
  "trim s = rev (trim_end_rev (rev (trim_start s)))"

text \<open>\<open>str::lines\<close>: no empty last line, and the \<open>\r\<close> of a terminated line is dropped.\<close>

definition strip_cr :: "string \<Rightarrow> string" where
  "strip_cr s = (case strip_suffix [CHR 0x0D] s of None \<Rightarrow> s | Some t \<Rightarrow> t)"

definition str_lines :: "string \<Rightarrow> string list" where
  "str_lines s =
     (let ps = split_char (CHR 0x0A) s in
      map strip_cr (butlast ps) @ (if last ps = [] then [] else [last ps]))"

lemma split_char_append:
  "c \<notin> set a \<Longrightarrow> split_char c (a @ c # s) = a # split_char c s"
  by (induction a) auto

lemma split_char_none: "c \<notin> set a \<Longrightarrow> split_char c a = [a]"
  by (induction a) auto

lemma split_char_not_Nil [simp]: "split_char c s \<noteq> []"
  by (induction s) (auto split: list.splits)

lemma str_lines_Cons:
  "CHR 0x0A \<notin> set a \<Longrightarrow> CHR 0x0D \<notin> set a \<Longrightarrow> str_lines (a @ CHR 0x0A # s) = a # str_lines s"
  by (auto simp: str_lines_def split_char_append strip_cr_def strip_suffix_def suffix_def Let_def)

lemma str_lines_Nil [simp]: "str_lines [] = []"
  by (simp add: str_lines_def)

text \<open>Text of printable ASCII characters without blanks is not changed by \<open>trim\<close>.\<close>

definition graphic :: "string \<Rightarrow> bool" where
  "graphic s \<longleftrightarrow> (\<forall>c \<in> set s. 32 < byte_of c \<and> byte_of c < 128)"

lemma graphic_no_ws:
  "32 < a \<Longrightarrow> a < 128 \<Longrightarrow> \<not> ws1 a \<and> \<not> ws2 a b \<and> \<not> ws2 b a \<and> \<not> ws3 a b c \<and> \<not> ws3 c b a"
  by (auto simp: ws1_def ws2_def ws3_def)

lemma strip_graphic:
  assumes "graphic s"
  shows "strip_ws s = None" and "strip_ws_rev s = None"
proof -
  have ch: "\<not> ws1 (byte_of a) \<and> \<not> ws2 (byte_of a) b \<and> \<not> ws2 b (byte_of a)
      \<and> \<not> ws3 (byte_of a) b c \<and> \<not> ws3 c b (byte_of a)" if "a \<in> set s" for a b c
    using that assms graphic_no_ws by (auto simp: graphic_def)
  show "strip_ws s = None"
    using ch by (cases s) (auto simp: strip_ws_def split: list.splits)
  show "strip_ws_rev s = None"
    using ch by (cases s) (auto simp: strip_ws_rev_def split: list.splits)
qed

lemma trim_graphic: "graphic s \<Longrightarrow> trim s = s"
proof -
  assume "graphic s"
  then have "graphic s" "graphic (rev s)" by (simp_all add: graphic_def)
  then have "trim_start s = s" "trim_end_rev (rev s) = rev s"
    by (simp_all add: trim_start.simps trim_end_rev.simps strip_graphic)
  then show ?thesis by (simp add: trim_def)
qed

section \<open>Numbers as text\<close>

fun nat_digits :: "nat \<Rightarrow> nat \<Rightarrow> string" where
  "nat_digits b n =
     (if b < 2 \<or> n < b then [''0123456789abcdef'' ! (n mod 16)]
      else nat_digits b (n div b) @ [''0123456789abcdef'' ! (n mod b)])"

declare nat_digits.simps [simp del]

text \<open>\<open>{:0wx}\<close>: at least \<open>w\<close> lower-case hexadecimal digits, more when the value needs them.\<close>

definition hex_padded :: "nat \<Rightarrow> nat \<Rightarrow> string" where
  "hex_padded w n = (let ds = nat_digits 16 n in replicate (w - length ds) CHR ''0'' @ ds)"

lemma length_nat_digits:
  "2 \<le> b \<Longrightarrow> n < b ^ k \<Longrightarrow> 0 < k \<Longrightarrow> length (nat_digits b n) \<le> k"
proof (induction k arbitrary: n)
  case (Suc k)
  show ?case
  proof (cases "n < b")
    case True
    then show ?thesis by (subst nat_digits.simps) simp
  next
    case False
    then have "n div b < b ^ k" using Suc.prems by (simp add: less_mult_imp_div_less mult.commute)
    moreover have "0 < k" using False Suc.prems by (cases k) auto
    ultimately have "length (nat_digits b (n div b)) \<le> k" using Suc by simp
    then show ?thesis using False Suc.prems by (subst nat_digits.simps) simp
  qed
qed simp

lemma length_hex_padded: "n < 16 ^ w \<Longrightarrow> 0 < w \<Longrightarrow> length (hex_padded w n) = w"
  using length_nat_digits [of 16 n w] by (simp add: hex_padded_def Let_def)

text \<open>The \<open>hex\<close> crate: two lower-case digits per byte; decoding takes both cases.\<close>

definition hex_digit :: "nat \<Rightarrow> char" where
  "hex_digit n = ''0123456789abcdef'' ! n"

definition hex_val :: "char \<Rightarrow> nat option" where
  "hex_val c = (let n = (of_char c :: nat) in
     if 48 \<le> n \<and> n \<le> 57 then Some (n - 48)
     else if 97 \<le> n \<and> n \<le> 102 then Some (n - 87)
     else if 65 \<le> n \<and> n \<le> 70 then Some (n - 55) else None)"

definition hex_encode :: "bytes \<Rightarrow> string" where
  "hex_encode bs = concat (map (\<lambda>b. [hex_digit (unat b div 16), hex_digit (unat b mod 16)]) bs)"

fun hex_decode :: "string \<Rightarrow> bytes option" where
  "hex_decode [] = Some []"
| "hex_decode [c] = None"
| "hex_decode (c # d # s) =
     (case (hex_val c, hex_val d, hex_decode s) of
        (Some h, Some l, Some bs) \<Rightarrow> Some (word_of_nat (16 * h + l) # bs)
      | _ \<Rightarrow> None)"

lemma hex_val_hex_digit: "n < 16 \<Longrightarrow> hex_val (hex_digit n) = Some n"
proof -
  assume "n < 16"
  then have "n \<in> set [0..<16]" by simp
  moreover have "\<forall>n \<in> set [0..<16]. hex_val (hex_digit n) = Some n"
    by (simp add: upt_rec hex_val_def hex_digit_def nth_Cons')
  ultimately show ?thesis by blast
qed

lemma hex_decode_encode [simp]: "hex_decode (hex_encode bs) = Some bs"
proof (induction bs)
  case (Cons b bs)
  have "unat b div 16 < 16" using unat_byte_less [of b] by linarith
  then show ?case using Cons
    by (simp add: hex_encode_def hex_val_hex_digit)
qed (simp add: hex_encode_def)

lemma hex_encode_inject [simp]: "hex_encode a = hex_encode b \<longleftrightarrow> a = b"
  by (metis hex_decode_encode option.inject)

lemma graphic_hex_encode: "graphic (hex_encode bs)"
proof -
  have digit: "n < 16 \<Longrightarrow> 32 < byte_of (hex_digit n) \<and> byte_of (hex_digit n) < 128" for n
  proof -
    assume "n < 16"
    then have "n \<in> set [0..<16]" by simp
    moreover have "\<forall>n \<in> set [0..<16]. 32 < byte_of (hex_digit n) \<and> byte_of (hex_digit n) < 128"
      by (simp add: upt_rec hex_digit_def nth_Cons' byte_of_def)
    ultimately show ?thesis by blast
  qed
  have "unat (b :: byte) div 16 < 16" for b using unat_byte_less [of b] by linarith
  then show ?thesis by (auto simp: graphic_def hex_encode_def digit)
qed

lemma length_hex_encode [simp]: "length (hex_encode bs) = 2 * length bs"
  by (induction bs) (auto simp: hex_encode_def)

text \<open>\<open>str::parse::<u64>\<close>: an optional \<open>+\<close>, at least one digit, and no overflow.\<close>

definition digits_value :: "string \<Rightarrow> nat" where
  "digits_value s = foldl (\<lambda>n c. 10 * n + ((of_char c :: nat) - 48)) 0 s"

definition parse_u64 :: "string \<Rightarrow> nat option" where
  "parse_u64 s =
     (let ds = (case s of [] \<Rightarrow> [] | c # t \<Rightarrow> if c = CHR ''+'' then t else s) in
      if ds \<noteq> [] \<and> list_all is_ascii_digit ds \<and> digits_value ds < u64_limit
      then Some (digits_value ds) else None)"

text \<open>The decimal text of a number reads back.\<close>

lemma digit_is_digit:
  assumes "k < 10"
  shows "is_ascii_digit (''0123456789abcdef'' ! k) \<and> of_char (''0123456789abcdef'' ! k) = 48 + k"
proof -
  have "k \<in> {0, 1, 2, 3, 4, 5, 6, 7, 8, 9}" using assms by auto
  then show ?thesis by (auto simp: is_ascii_digit_def)
qed

lemma decimal_digits:
  "nat_digits 10 n \<noteq> [] \<and> list_all is_ascii_digit (nat_digits 10 n) \<and> digits_value (nat_digits 10 n) = n"
proof (induction n rule: less_induct)
  case (less n)
  show ?case
  proof (cases "n < 10")
    case True
    then show ?thesis
      using digit_is_digit [OF True] by (subst (1 2 3) nat_digits.simps) (simp add: digits_value_def)
  next
    case False
    then have "n div 10 < n" by simp
    then show ?thesis
      using False less [of "n div 10"] digit_is_digit [of "n mod 10"]
      by (subst (1 2 3) nat_digits.simps) (simp add: digits_value_def)
  qed
qed

lemma digit_not_plus: "is_ascii_digit c \<Longrightarrow> c \<noteq> CHR ''+''"
  by (auto simp: is_ascii_digit_def)

lemma parse_u64_decimal: "parse_u64 (nat_digits 10 n) = (if n < u64_limit then Some n else None)"
  using decimal_digits [of n] digit_not_plus
  by (cases "nat_digits 10 n") (auto simp: parse_u64_def Let_def)

section \<open>Searching and replacing\<close>

text \<open>\<open>str::split_once\<close> at the first occurrence of a string.\<close>

fun split_once_str :: "string \<Rightarrow> string \<Rightarrow> (string \<times> string) option" where
  "split_once_str pat [] = (if pat = [] then Some ([], []) else None)"
| "split_once_str pat (c # s) =
     (if prefix pat (c # s) then Some ([], drop (length pat) (c # s))
      else case split_once_str pat s of None \<Rightarrow> None | Some (a, b) \<Rightarrow> Some (c # a, b))"

text \<open>\<open>str::contains\<close>\<close>

fun contains_str :: "string \<Rightarrow> string \<Rightarrow> bool" where
  "contains_str pat [] \<longleftrightarrow> pat = []"
| "contains_str pat (c # s) \<longleftrightarrow> prefix pat (c # s) \<or> contains_str pat s"

text \<open>\<open>str::replace\<close> for a non-empty pattern, from left to right; \<open>skip\<close> characters belong to a match.\<close>

fun replace_from :: "string \<Rightarrow> string \<Rightarrow> nat \<Rightarrow> string \<Rightarrow> string" where
  "replace_from pat by skip [] = []"
| "replace_from pat by (Suc n) (c # s) = replace_from pat by n s"
| "replace_from pat by 0 (c # s) =
     (if prefix pat (c # s) then by @ replace_from pat by (length pat - 1) s
      else c # replace_from pat by 0 s)"

definition replace_str :: "string \<Rightarrow> string \<Rightarrow> string \<Rightarrow> string" where
  "replace_str pat by s = replace_from pat by 0 s"

text \<open>\<open>[..].join(sep)\<close>\<close>

fun join_str :: "string \<Rightarrow> string list \<Rightarrow> string" where
  "join_str sep [] = []"
| "join_str sep [s] = s"
| "join_str sep (s # t # ts) = s @ sep @ join_str sep (t # ts)"

section \<open>UTF-8 and UTF-16\<close>

text \<open>
  \<open>str::from_utf8\<close>: the well-formed byte sequences of the Unicode standard (table 3-7): no overlong
  form, no surrogate, nothing above 10FFFF.  The result is the list of code points.
\<close>

definition is_cont :: "byte \<Rightarrow> bool" where
  "is_cont b \<longleftrightarrow> 128 \<le> unat b \<and> unat b < 192"

fun utf8_decode :: "bytes \<Rightarrow> nat list option" where
  "utf8_decode [] = Some []"
| "utf8_decode (b # bs) =
     (let x = unat b in
      if x < 128 then map_option (Cons x) (utf8_decode bs)
      else if 194 \<le> x \<and> x < 224 then
        (case bs of
           c # rest \<Rightarrow>
             if is_cont c
             then map_option (Cons ((x - 192) * 64 + (unat c - 128))) (utf8_decode rest) else None
         | _ \<Rightarrow> None)
      else if 224 \<le> x \<and> x < 240 then
        (case bs of
           c # d # rest \<Rightarrow>
             let n = (x - 224) * 4096 + (unat c - 128) * 64 + (unat d - 128) in
             if is_cont c \<and> is_cont d \<and> 2048 \<le> n \<and> \<not> (55296 \<le> n \<and> n < 57344)
             then map_option (Cons n) (utf8_decode rest) else None
         | _ \<Rightarrow> None)
      else if 240 \<le> x \<and> x < 245 then
        (case bs of
           c # d # e # rest \<Rightarrow>
             let n = (x - 240) * 262144 + (unat c - 128) * 4096 + (unat d - 128) * 64
                       + (unat e - 128) in
             if is_cont c \<and> is_cont d \<and> is_cont e \<and> 65536 \<le> n \<and> n < 1114112
             then map_option (Cons n) (utf8_decode rest) else None
         | _ \<Rightarrow> None)
      else None)"

text \<open>\<open>str::encode_utf16\<close>: one unit per code point of the basic plane, a surrogate pair above it.\<close>

definition utf16_units :: "nat \<Rightarrow> nat list" where
  "utf16_units n =
     (if n < 65536 then [n]
      else [55296 + (n - 65536) div 1024, 56320 + (n - 65536) mod 1024])"

definition utf16le :: "nat list \<Rightarrow> bytes" where
  "utf16le cps = concat (map (le_bytes 2) (concat (map utf16_units cps)))"

text \<open>The UTF-8 bytes of a list of code points, as a \<open>String\<close> collected from \<open>char\<close>s has them.\<close>

definition utf8_char :: "nat \<Rightarrow> nat list" where
  "utf8_char n =
     (if n < 128 then [n]
      else if n < 2048 then [192 + n div 64, 128 + n mod 64]
      else if n < 65536 then [224 + n div 4096, 128 + n div 64 mod 64, 128 + n mod 64]
      else [240 + n div 262144, 128 + n div 4096 mod 64, 128 + n div 64 mod 64, 128 + n mod 64])"

definition utf8_string :: "nat list \<Rightarrow> string" where
  "utf8_string cps = map char_of (concat (map utf8_char cps))"

text \<open>\<open>Path::join\<close>: an absolute second path replaces the first.\<close>

definition path_join :: "string \<Rightarrow> string \<Rightarrow> string" where
  "path_join dir name =
     (if prefix ''/'' name then name
      else if dir = [] \<or> suffix ''/'' dir then dir @ name else dir @ ''/'' @ name)"

text \<open>The code points of a \<open>str\<close>; a Rust \<open>str\<close> is valid UTF-8 by its type.\<close>

definition valid_str :: "string \<Rightarrow> bool" where
  "valid_str s \<longleftrightarrow> utf8_decode (as_bytes s) \<noteq> None"

definition code_points :: "string \<Rightarrow> nat list" where
  "code_points s = (case utf8_decode (as_bytes s) of None \<Rightarrow> [] | Some cps \<Rightarrow> cps)"

lemma utf8_decode_ascii:
  "\<forall>c \<in> set s. (of_char c :: nat) < 128 \<Longrightarrow> utf8_decode (as_bytes s) = Some (map of_char s)"
  by (induction s) (simp_all add: as_bytes_def unat_of_char_byte)

declare strip_prefix_def [exec_simps] strip_suffix_def [exec_simps]
  is_ascii_hexdigit_def [exec_simps] is_ascii_digit_def [exec_simps]
  is_ascii_alphanumeric_def [exec_simps] to_ascii_lowercase_def [exec_simps]
  ascii_lower_def [exec_simps] parse_u64_def [exec_simps] digits_value_def [exec_simps]
  hex_encode_def [exec_simps] hex_digit_def [exec_simps] hex_val_def [exec_simps]
  utf16le_def [exec_simps] utf16_units_def [exec_simps]

end
