(* ===== verification/HashChain.thy ===== *)
theory HashChain
  imports Bytes
begin

text \<open>
  Measurement registers: a register starts from a fixed value and absorbs one event after the other,
  each time hashing a message that contains the old value and the event.  Both measurement schemes
  of the program have this shape, the TDX runtime registers (\<open>rtmr_extend\<close>) and the SNP launch digest
  (\<open>update_page_info\<close>); the locale states what their message layouts promise and proves once what a
  verifier gets from it.

  The hash functions are parameters of the model (the \<open>sha2\<close> crate is not part of the repository).
  Nothing is assumed about them: instead of assuming that they have no collision, the lemmas produce
  the collision, or the preimage of the initial value, that a second event log with the same register
  value would contain.
\<close>

section \<open>SHA-384\<close>

definition sha384 :: "(bytes \<Rightarrow> digest) \<Rightarrow> bytes \<Rightarrow> bytes" where
  "sha384 sha data = digest_bytes (sha data)"

lemma length_sha384 [simp]: "length (sha384 sha data) = 48"
  by (simp add: sha384_def)

lemma sha384_eq_iff [simp]: "sha384 sha a = sha384 sha b \<longleftrightarrow> sha a = sha b"
  by (simp add: sha384_def)

text \<open>A collision of a hash function among given messages.\<close>

definition collision_in :: "(bytes \<Rightarrow> 'd) \<Rightarrow> bytes list \<Rightarrow> bool" where
  "collision_in h ms \<longleftrightarrow> (\<exists>a b. a \<in> set ms \<and> b \<in> set ms \<and> a \<noteq> b \<and> h a = h b)"

definition preimage_in :: "(bytes \<Rightarrow> 'd) \<Rightarrow> 'd \<Rightarrow> bytes list \<Rightarrow> bool" where
  "preimage_in h d ms \<longleftrightarrow> (\<exists>a. a \<in> set ms \<and> h a = d)"

lemma collision_in_mono: "collision_in h ms \<Longrightarrow> set ms \<subseteq> set ns \<Longrightarrow> collision_in h ns"
  by (auto simp: collision_in_def)

lemma preimage_in_mono: "preimage_in h d ms \<Longrightarrow> set ms \<subseteq> set ns \<Longrightarrow> preimage_in h d ns"
  by (auto simp: preimage_in_def)

lemma collision_sha384: "collision_in (sha384 sha) ms \<longleftrightarrow> collision_in sha ms"
  by (simp add: collision_in_def)

section \<open>Chains\<close>

definition chain :: "('d \<Rightarrow> 'e \<Rightarrow> bytes) \<Rightarrow> (bytes \<Rightarrow> 'd) \<Rightarrow> 'd \<Rightarrow> 'e list \<Rightarrow> 'd" where
  "chain msg h d es = foldl (\<lambda>d e. h (msg d e)) d es"

fun chain_messages :: "('d \<Rightarrow> 'e \<Rightarrow> bytes) \<Rightarrow> (bytes \<Rightarrow> 'd) \<Rightarrow> 'd \<Rightarrow> 'e list \<Rightarrow> bytes list" where
  "chain_messages msg h d [] = []"
| "chain_messages msg h d (e # es) = msg d e # chain_messages msg h (h (msg d e)) es"

lemma chain_simps [simp]:
  "chain msg h d [] = d"
  "chain msg h d (e # es) = chain msg h (h (msg d e)) es"
  "chain msg h d (es @ fs) = chain msg h (chain msg h d es) fs"
  by (simp_all add: chain_def)

lemma chain_messages_append [simp]:
  "chain_messages msg h d (es @ fs) =
     chain_messages msg h d es @ chain_messages msg h (chain msg h d es) fs"
  by (induction es arbitrary: d) auto

locale digest_chain =
  fixes msg :: "'d \<Rightarrow> 'e \<Rightarrow> bytes"
    and h :: "bytes \<Rightarrow> 'd"
    and register :: "'d \<Rightarrow> bool"
    and event :: "'e \<Rightarrow> bool"
  assumes register_h: "register (h m)"
    and msg_inject: "\<lbrakk>register d; register d'; event e; event e'; msg d e = msg d' e'\<rbrakk>
      \<Longrightarrow> d = d' \<and> e = e'"
begin

lemma register_chain: "register d \<Longrightarrow> register (chain msg h d es)"
  by (induction es arbitrary: d) (auto simp: register_h)

text \<open>Two chains that end in the same value are equal, or they expose a collision or a preimage.\<close>

lemma chain_binds:
  assumes "register d" and "list_all event es" and "list_all event fs"
    and "chain msg h d es = chain msg h d fs"
  shows "es = fs \<or> collision_in h (chain_messages msg h d es @ chain_messages msg h d fs)
    \<or> preimage_in h d (chain_messages msg h d es @ chain_messages msg h d fs)"
  using assms(2-)
proof (induction es arbitrary: fs rule: rev_induct)
  case Nil
  then show ?case
    by (cases fs rule: rev_cases) (auto simp: preimage_in_def)
next
  case (snoc e es)
  note IH = snoc.IH and prems = snoc.prems
  show ?case
  proof (cases fs rule: rev_cases)
    case Nil
    then show ?thesis using snoc.prems by (auto simp: preimage_in_def)
  next
    case (snoc gs f)
    let ?c = "chain msg h d"
    have eq: "h (msg (?c es) e) = h (msg (?c gs) f)" using snoc prems by simp
    show ?thesis
    proof (cases "msg (?c es) e = msg (?c gs) f")
      case True
      then have same: "?c es = ?c gs" "e = f"
        using msg_inject [of "?c es" "?c gs" e f] register_chain assms(1) snoc prems by auto
      then have "es = gs
          \<or> collision_in h (chain_messages msg h d es @ chain_messages msg h d gs)
          \<or> preimage_in h d (chain_messages msg h d es @ chain_messages msg h d gs)"
        using IH [of gs] prems same snoc by simp
      moreover have "set (chain_messages msg h d es @ chain_messages msg h d gs)
          \<subseteq> set (chain_messages msg h d (es @ [e]) @ chain_messages msg h d fs)"
        using snoc by auto
      ultimately show ?thesis
        using same snoc by (auto simp: collision_in_def preimage_in_def)
    next
      case False
      then show ?thesis using eq snoc by (auto simp: collision_in_def)
    qed
  qed
qed

lemma chain_binds_same_length:
  assumes "register d" "register d'" and "list_all event es" and "list_all event fs"
    and "length es = length fs" and "es \<noteq> []"
    and "chain msg h d es = chain msg h d' fs"
  shows "d = d' \<and> es = fs
    \<or> collision_in h (chain_messages msg h d es @ chain_messages msg h d' fs)"
  using assms
proof (induction es arbitrary: d d' fs)
  case (Cons e es)
  then obtain f gs where fs: "fs = f # gs" by (cases fs) auto
  let ?ms = "chain_messages msg h d (e # es) @ chain_messages msg h d' fs"
  have step: "d = d' \<and> e = f \<or> collision_in h ?ms" if "h (msg d e) = h (msg d' f)"
    using that msg_inject [of d d' e f] Cons.prems fs by (auto simp: collision_in_def)
  show ?case
  proof (cases "es = []")
    case True
    then show ?thesis using step Cons.prems fs by auto
  next
    case False
    have "h (msg d e) = h (msg d' f) \<and> es = gs
      \<or> collision_in h (chain_messages msg h (h (msg d e)) es @ chain_messages msg h (h (msg d' f)) gs)"
      using Cons.IH [of "h (msg d e)" "h (msg d' f)" gs] Cons.prems False fs register_h by auto
    then show ?thesis
      using step fs collision_in_mono [of h _ ?ms] by fastforce
  qed
qed simp

end

end
