(* ===== verification/Pe.thy ===== *)
theory Pe
  imports RustStr HashChain
begin

text \<open>
  \<open>crates/tdx-measure/src/pe.rs\<close>: reading PE/COFF headers, the Authenticode hash of an image and its
  section list.

  \<open>authenticode_input\<close> is the byte string the code feeds to its hasher, \<open>authenticode_sha384\<close> hashes
  it.  Header offsets are sums of 16- and 32-bit fields and small constants, which stay below \<open>2 ^ 34\<close>,
  so the plain additions of the source cannot overflow; only \<open>read_le\<close> checks.
\<close>

section \<open>Errors and field reads\<close>

datatype pe_error =
    OffsetOverflow
  | OutOfBounds nat
  | InvalidPeSignature
  | CertDirBeyondFile
  | HeadersBeyondFile
  | HeadersTooSmall
  | SectionBeyondFile

definition read_le :: "nat \<Rightarrow> bytes \<Rightarrow> nat \<Rightarrow> pe_error fault + nat" where
  "read_le n data offset =
     and_then (ok_or (Err OffsetOverflow) (checked_add offset n)) (\<lambda>stop.
     and_then (ensure (stop \<le> length data) (Err (OutOfBounds offset))) (\<lambda>_.
     Inr (le_nat (subslice data offset stop))))"

lemma read_le_Inr [simp]:
  "read_le n data p = Inr v \<longleftrightarrow>
     p + n < u64_limit \<and> p + n \<le> length data \<and> v = le_nat (subslice data p (p + n))"
  by (auto simp: read_le_def)

lemma read_le_no_panic [simp]: "read_le n data p \<noteq> panic"
  by (auto simp: read_le_def and_then_eq_Inl)

lemma read_le_less: "read_le n data p = Inr v \<Longrightarrow> v < 256 ^ n"
  using le_nat_subslice_less by auto

section \<open>Headers\<close>

record pe_layout =
  coff_offset :: nat
  opt_hdr_offset :: nat
  opt_hdr_size :: nat
  checksum_offset :: nat
  cert_dir_offset :: nat
  size_of_headers :: nat

text \<open>Lines 52--102: locate the fields and validate the header offsets.\<close>

definition pe_headers :: "bytes \<Rightarrow> pe_error fault + pe_layout" where
  "pe_headers data =
     and_then (read_le 4 data 0x3C) (\<lambda>pe_sig_offset.
     and_then (read_le 4 data pe_sig_offset) (\<lambda>pe_sig.
     and_then (ensure (pe_sig = 0x4550) (Err InvalidPeSignature)) (\<lambda>_.
     let coff = pe_sig_offset + 4 in
     and_then (read_le 2 data (coff + 16)) (\<lambda>opt_size.
     let opt = coff + 20 in
     and_then (read_le 2 data opt) (\<lambda>magic.
     let data_dir = opt + (if magic = 0x20b then 112 else 96);
         cert_dir = data_dir + 4 * 8 in
     and_then (read_le 4 data (opt + 60)) (\<lambda>headers.
     and_then (ensure (cert_dir + 8 \<le> length data) (Err CertDirBeyondFile)) (\<lambda>_.
     and_then (ensure (headers \<le> length data) (Err HeadersBeyondFile)) (\<lambda>_.
     and_then (ensure (cert_dir + 8 \<le> headers) (Err HeadersTooSmall)) (\<lambda>_.
     Inr \<lparr> coff_offset = coff, opt_hdr_offset = opt, opt_hdr_size = opt_size,
           checksum_offset = opt + 64, cert_dir_offset = cert_dir,
           size_of_headers = headers \<rparr>)))))))))"

text \<open>Lines 107--109: the headers without the checksum field and the certificate directory entry.\<close>

definition header_input :: "bytes \<Rightarrow> pe_layout \<Rightarrow> bytes" where
  "header_input data L =
     take (checksum_offset L) data
       @ subslice data (checksum_offset L + 4) (cert_dir_offset L)
       @ subslice data (cert_dir_offset L + 8) (size_of_headers L)"

section \<open>Sections\<close>

text \<open>One entry of the section table: \<open>PointerToRawData\<close> and \<open>SizeOfRawData\<close>.\<close>

definition raw_section :: "bytes \<Rightarrow> nat \<Rightarrow> nat \<Rightarrow> pe_error fault + nat \<times> nat" where
  "raw_section data table i =
     (let sec = table + i * 40 in
      and_then (read_le 4 data (sec + 20)) (\<lambda>ptr.
      and_then (read_le 4 data (sec + 16)) (\<lambda>size. Inr (ptr, size))))"

text \<open>Lines 113--133: the non-empty sections in file order (the sort is stable).\<close>

definition sorted_sections :: "bytes \<Rightarrow> pe_layout \<Rightarrow> pe_error fault + (nat \<times> nat) list" where
  "sorted_sections data L =
     and_then (read_le 2 data (coff_offset L + 2)) (\<lambda>num.
     and_then (collect_results (raw_section data (opt_hdr_offset L + opt_hdr_size L)) [0..<num])
       (\<lambda>raw. Inr (sort_key fst (filter (\<lambda>(ptr, size). 0 < size) raw))))"

text \<open>Lines 136--150: the raw data of each section.\<close>

definition section_data :: "bytes \<Rightarrow> nat \<times> nat \<Rightarrow> pe_error fault + bytes" where
  "section_data data s =
     and_then (ensure (fst s + snd s \<le> length data) (Err SectionBeyondFile))
       (\<lambda>_. Inr (subslice data (fst s) (fst s + snd s)))"

section \<open>Trailing data and padding\<close>

text \<open>
  Lines 152--178: what follows the hashed part, without the certificate table.  The slice that ends at
  the certificate table is not checked against the file length.
\<close>

definition trailing_input :: "bytes \<Rightarrow> nat \<Rightarrow> nat \<Rightarrow> pe_error fault + bytes" where
  "trailing_input data cert_dir hashed =
     and_then (read_le 4 data cert_dir) (\<lambda>addr.
     and_then (read_le 4 data (cert_dir + 4)) (\<lambda>size.
     if hashed < length data then
       if 0 < addr \<and> 0 < size then
         and_then (if hashed < addr then subslice_or_panic data hashed addr else Inr []) (\<lambda>before.
         Inr (before @ (if addr + size < length data then drop (addr + size) data else [])))
       else Inr (drop hashed data)
     else Inr []))"

definition tail_padding :: "nat \<Rightarrow> bytes" where
  "tail_padding len = (if len mod 8 \<noteq> 0 then zeros (8 - len mod 8) else [])"

section \<open>Authenticode\<close>

definition authenticode_input :: "bytes \<Rightarrow> pe_error fault + bytes" where
  "authenticode_input data =
     and_then (pe_headers data) (\<lambda>L.
     and_then (sorted_sections data L) (\<lambda>secs.
     and_then (collect_results (section_data data) secs) (\<lambda>chunks.
     and_then (trailing_input data (cert_dir_offset L)
         (size_of_headers L + sum_list (map snd secs))) (\<lambda>trail.
     Inr (header_input data L @ concat chunks @ trail @ tail_padding (length data))))))"

definition authenticode_sha384 :: "(bytes \<Rightarrow> digest) \<Rightarrow> bytes \<Rightarrow> pe_error fault + bytes" where
  "authenticode_sha384 sha data =
     and_then (authenticode_input data) (\<lambda>input. Inr (sha384 sha input))"

section \<open>Section list\<close>

text \<open>The name of a section: up to the first NUL of its eight bytes, empty when not UTF-8.\<close>

definition section_name :: "bytes \<Rightarrow> string" where
  "section_name bs =
     (let n = takeWhile (\<lambda>b. b \<noteq> 0) bs in
      if utf8_decode n = None then [] else map (\<lambda>b. char_of (unat b)) n)"

function parse_section_table ::
  "bytes \<Rightarrow> nat \<Rightarrow> nat \<Rightarrow> nat \<Rightarrow> pe_error fault + (string \<times> bytes) list" where
  "parse_section_table data table num i =
     (if num \<le> i then Inr []
      else
        let off = table + i * 40 in
        if length data < off + 40 then Inr []
        else
          and_then (read_le 4 data (off + 8)) (\<lambda>vsize.
          and_then (read_le 4 data (off + 20)) (\<lambda>start.
          and_then (ensure (start + vsize \<le> length data) (Err SectionBeyondFile)) (\<lambda>_.
          and_then (parse_section_table data table num (i + 1)) (\<lambda>rest.
          Inr ((section_name (subslice data off (off + 8)), subslice data start (start + vsize))
                # rest))))))"
  by pat_completeness auto
termination by (relation "measure (\<lambda>(data, table, num, i). num - i)") auto

declare parse_section_table.simps [simp del]

definition parse_sections :: "bytes \<Rightarrow> pe_error fault + (string \<times> bytes) list" where
  "parse_sections data =
     and_then (read_le 4 data 0x3C) (\<lambda>pe_offset.
     and_then (ensure (pe_offset + 4 \<le> length data
         \<and> subslice data pe_offset (pe_offset + 4) = [0x50, 0x45, 0, 0])
       (Err InvalidPeSignature)) (\<lambda>_.
     let coff = pe_offset + 4 in
     and_then (read_le 2 data (coff + 2)) (\<lambda>num.
     and_then (read_le 2 data (coff + 16)) (\<lambda>opt_size.
     parse_section_table data (coff + 20 + opt_size) num 0))))"

section \<open>Facts about the parser\<close>

lemma pe_headers_Inr:
  assumes "pe_headers data = Inr L"
  shows "checksum_offset L = opt_hdr_offset L + 64"
    and "checksum_offset L + 36 \<le> cert_dir_offset L"
    and "cert_dir_offset L + 8 \<le> size_of_headers L"
    and "size_of_headers L \<le> length data"
    and "coff_offset L + 20 = opt_hdr_offset L"
    and "coff_offset L = le_nat (subslice data 60 64) + 4"
    and "cert_dir_offset L =
      opt_hdr_offset L + (if le_nat (subslice data (opt_hdr_offset L) (opt_hdr_offset L + 2)) = 0x20b
        then 144 else 128)"
  using assms by (auto simp: pe_headers_def Let_def)

lemma pe_headers_no_panic [simp]: "pe_headers data \<noteq> panic"
  by (auto simp: pe_headers_def Let_def and_then_eq_Inl)

lemma sorted_sections_no_panic [simp]: "sorted_sections data L \<noteq> panic"
  by (auto simp: sorted_sections_def raw_section_def Let_def and_then_eq_Inl
      dest!: collect_results_panic)

lemma section_data_no_panic: "collect_results (section_data data) secs \<noteq> panic"
  by (auto simp: section_data_def and_then_eq_Inl dest!: collect_results_panic)

lemma trailing_input_panic:
  "trailing_input data cd hashed = panic \<longleftrightarrow>
     hashed < length data \<and>
     (\<exists>addr size. read_le 4 data cd = Inr addr \<and> read_le 4 data (cd + 4) = Inr size
        \<and> 0 < size \<and> length data < addr)"
  by (auto simp: trailing_input_def and_then_eq_Inl)

lemma section_chunks:
  "collect_results (section_data data) secs = Inr chunks \<longleftrightarrow>
     (\<forall>s \<in> set secs. fst s + snd s \<le> length data)
     \<and> chunks = map (\<lambda>s. subslice data (fst s) (fst s + snd s)) secs"
  by (induction secs arbitrary: chunks)
    (auto simp: section_data_def list_all2_Cons1)

text \<open>Overwriting bytes that a read does not touch does not change the read.\<close>

lemma read_le_overwrite:
  "p + length f \<le> length data \<Longrightarrow> q + n \<le> p \<or> p + length f \<le> q \<Longrightarrow>
     read_le n (overwrite data p f) q = read_le n data q"
  by (simp add: read_le_def checked_add_def subslice_overwrite)

lemma raw_section_overwrite:
  "p + length f \<le> length data \<Longrightarrow> p + length f \<le> table \<Longrightarrow>
     raw_section (overwrite data p f) table i = raw_section data table i"
  by (simp add: raw_section_def read_le_overwrite Let_def)

lemma pe_headers_overwrite_checksum:
  assumes "pe_headers data = Inr L" and "length f = 4"
  shows "pe_headers (overwrite data (checksum_offset L) f) = Inr L"
  using assms pe_headers_Inr [OF assms(1)]
  by (auto simp: pe_headers_def Let_def subslice_overwrite split: if_splits)

section \<open>Properties\<close>

text \<open>
  Excluding the checksum: in an image whose section table, raw data and certificate table lie behind
  the checksum field, writing any other value into that field leaves the Authenticode hash unchanged.
\<close>

theorem authenticode_ignores_checksum:
  assumes "pe_headers data = Inr L" and "sorted_sections data L = Inr secs"
    and "checksum_offset L + 4 \<le> opt_hdr_offset L + opt_hdr_size L"
    and "\<forall>s \<in> set secs. checksum_offset L + 4 \<le> fst s"
    and cert: "u32_at data (cert_dir_offset L) = 0
      \<or> checksum_offset L + 4 \<le> u32_at data (cert_dir_offset L)"
    and "length f = 4"
  shows "authenticode_sha384 sha (overwrite data (checksum_offset L) f) = authenticode_sha384 sha data"
proof -
  let ?cs = "checksum_offset L" and ?d = "overwrite data (checksum_offset L) f"
  note H = pe_headers_Inr [OF assms(1)]
  have room: "?cs + length f \<le> length data" using H assms(6) by simp
  have "sorted_sections ?d L = Inr secs"
    using assms H room
    by (simp add: sorted_sections_def read_le_overwrite raw_section_overwrite del: read_le_Inr)
  moreover have "section_data ?d s = section_data data s" if "s \<in> set secs" for s
    using that assms room by (simp add: section_data_def subslice_overwrite)
  then have "collect_results (section_data ?d) secs = collect_results (section_data data) secs"
    by (intro collect_results_cong) auto
  moreover have "header_input ?d L = header_input data L"
    using H room assms(6) by (simp add: header_input_def take_overwrite subslice_overwrite)
  moreover have "trailing_input ?d (cert_dir_offset L) n = trailing_input data (cert_dir_offset L) n"
    if n: "size_of_headers L \<le> n" for n
  proof -
    have same: "read_le 4 ?d (cert_dir_offset L) = read_le 4 data (cert_dir_offset L)"
      "read_le 4 ?d (cert_dir_offset L + 4) = read_le 4 data (cert_dir_offset L + 4)"
      using H(2) room assms(6) by (simp_all add: read_le_overwrite del: read_le_Inr)
    have "(if n < addr then subslice_or_panic ?d n addr else Inr [])
        = (if n < addr then subslice_or_panic data n addr else Inr [] :: pe_error fault + bytes)"
      for addr
      using H(2,3) n room assms(6) by (simp add: subslice_or_panic_def subslice_overwrite)
    moreover have "drop n ?d = drop n data"
      using H(2,3) n room assms(6) by (simp add: drop_overwrite)
    moreover have "drop (addr + size) ?d = drop (addr + size) data"
      if "read_le 4 data (cert_dir_offset L) = Inr addr" "0 < addr" for addr size
      using that cert room assms(6) by (intro drop_overwrite) (auto simp: u32_at_def)
    ultimately show ?thesis
      using room same by (auto simp: trailing_input_def simp del: read_le_Inr intro!: and_then_cong)
  qed
  ultimately show ?thesis
    using pe_headers_overwrite_checksum [OF assms(1,6)] assms(1,2) room
    by (simp add: authenticode_sha384_def authenticode_input_def)
qed

text \<open>
  C24. The only way the Authenticode computation panics: the image parses, its hashed part ends before the
  file does, and the certificate directory names a non-empty table that starts beyond the end of the
  file (\<open>&data[sum_of_bytes_hashed..ct_addr]\<close> is not checked).
\<close>

theorem authenticode_panics_iff:
  "authenticode_sha384 sha data = panic \<longleftrightarrow>
     (\<exists>L secs chunks addr n.
        pe_headers data = Inr L \<and> sorted_sections data L = Inr secs
        \<and> collect_results (section_data data) secs = Inr chunks
        \<and> size_of_headers L + sum_list (map snd secs) < length data
        \<and> read_le 4 data (cert_dir_offset L) = Inr addr
        \<and> read_le 4 data (cert_dir_offset L + 4) = Inr n
        \<and> 0 < n \<and> length data < addr)"
  by (simp add: authenticode_sha384_def authenticode_input_def and_then_eq_Inl
      section_data_no_panic trailing_input_panic del: collect_results_Inr_iff read_le_Inr)

text \<open>The sections of a well-formed image follow each other from the end of the headers.\<close>

fun tiles :: "nat \<Rightarrow> (nat \<times> nat) list \<Rightarrow> nat \<Rightarrow> bool" where
  "tiles a [] b \<longleftrightarrow> a = b"
| "tiles a ((ptr, n) # secs) b \<longleftrightarrow> ptr = a \<and> tiles (a + n) secs b"

lemma tiles_cover:
  "tiles a secs b \<Longrightarrow> b \<le> length data \<Longrightarrow>
     a + sum_list (map snd secs) = b \<and> a \<le> b
     \<and> (\<forall>s \<in> set secs. fst s + snd s \<le> length data)
     \<and> concat (map (\<lambda>s. subslice data (fst s) (fst s + snd s)) secs) = subslice data a b"
proof (induction a secs b rule: tiles.induct)
  case (2 a ptr n secs b)
  then show ?case using subslice_append [of a "a + n" b data] by auto
qed simp

lemma authenticode_tiled:
  assumes "pe_headers data = Inr L" and "sorted_sections data L = Inr secs"
    and "tiles (size_of_headers L) secs b" and "b \<le> length data"
    and "u32_at data (cert_dir_offset L) = 0" and "length data < u64_limit"
  shows "authenticode_input data =
    Inr (take (checksum_offset L) data @ subslice data (checksum_offset L + 4) (cert_dir_offset L)
      @ drop (cert_dir_offset L + 8) data @ tail_padding (length data))"
proof -
  note H = pe_headers_Inr [OF assms(1)] and T = tiles_cover [OF assms(3,4)]
  have "trailing_input data (cert_dir_offset L) b = Inr (drop b data)"
    using H(3,4) assms(4-6) by (simp add: trailing_input_def u32_at_def read_le_def checked_add_def)
  moreover have "subslice data (cert_dir_offset L + 8) (size_of_headers L)
      @ subslice data (size_of_headers L) b @ drop b data = drop (cert_dir_offset L + 8) data"
    using H(3,4) T assms(4)
    by (simp add: append_assoc [symmetric] subslice_append subslice_to_end [symmetric]
        del: append_assoc)
  moreover have "collect_results (section_data data) secs
      = Inr (map (\<lambda>s. subslice data (fst s) (fst s + snd s)) secs)"
    using T by (simp only: section_chunks) simp
  ultimately show ?thesis
    using assms(1,2) T
    by (simp add: authenticode_input_def header_input_def del: collect_results_Inr_iff)
qed


text \<open>The reference for the section list: entry \<open>j\<close> of the table, and whether its data is in the file.\<close>

definition section_entry :: "bytes \<Rightarrow> nat \<Rightarrow> nat \<Rightarrow> string \<times> bytes" where
  "section_entry data table j =
     (let off = table + j * 40; start = u32_at data (off + 20) in
      (section_name (subslice data off (off + 8)),
       subslice data start (start + u32_at data (off + 8))))"

definition section_fits :: "bytes \<Rightarrow> nat \<Rightarrow> nat \<Rightarrow> bool" where
  "section_fits data table j \<longleftrightarrow>
     u32_at data (table + j * 40 + 20) + u32_at data (table + j * 40 + 8) \<le> length data"

definition present_entries :: "bytes \<Rightarrow> nat \<Rightarrow> nat \<Rightarrow> nat \<Rightarrow> nat list" where
  "present_entries data table num i = filter (\<lambda>j. table + j * 40 + 40 \<le> length data) [i..<num]"

lemma present_entries_rec:
  "present_entries data table num i =
     (if num \<le> i \<or> length data < table + i * 40 + 40 then []
      else i # present_entries data table num (i + 1))"
  by (auto simp: present_entries_def upt_conv_Cons filter_empty_conv)

lemma read_le_in_bounds:
  "p + 4 \<le> length data \<Longrightarrow> length data < u64_limit \<Longrightarrow> read_le 4 data p = Inr (u32_at data p)"
  by (simp add: u32_at_def)

lemma parse_section_table_eq:
  "length data < u64_limit \<Longrightarrow>
     parse_section_table data table num i =
       (let js = present_entries data table num i in
        if list_all (section_fits data table) js then Inr (map (section_entry data table) js)
        else bail SectionBeyondFile)"
proof (induction "num - i" arbitrary: i)
  case 0
  then show ?case by (simp add: parse_section_table.simps present_entries_rec)
next
  case (Suc n)
  show ?case
  proof (cases "length data < table + i * 40 + 40")
    case True
    then show ?thesis by (simp add: parse_section_table.simps present_entries_rec Let_def)
  next
    case False
    have IH: "parse_section_table data table num (i + 1) =
       (let js = present_entries data table num (i + 1) in
        if list_all (section_fits data table) js then Inr (map (section_entry data table) js)
        else bail SectionBeyondFile)"
      by (rule Suc.hyps) (use Suc in auto)
    have "read_le 4 data (table + i * 40 + 8) = Inr (u32_at data (table + i * 40 + 8))"
      "read_le 4 data (table + i * 40 + 20) = Inr (u32_at data (table + i * 40 + 20))"
      using False Suc.prems by (simp_all only: read_le_in_bounds)
    then show ?thesis
      using False Suc.hyps(2) IH
      by (subst parse_section_table.simps, subst present_entries_rec)
        (simp add: Let_def section_entry_def section_fits_def ensure_def del: read_le_Inr)
  qed
qed

text \<open>
  The section list of a UKI is the table of its PE header: \<open>parse_sections\<close> returns, for the entries that
  lie inside the file, the name and the first \<open>VirtualSize\<close> bytes from \<open>PointerToRawData\<close> on, or an
  error as soon as one of them reaches beyond the file; it never panics.
\<close>

theorem parse_sections_reads_table:
  assumes "length data < u64_limit"
    and "pe_offset = u32_at data 60" and "pe_offset + 24 \<le> length data" and "64 \<le> length data"
    and "subslice data pe_offset (pe_offset + 4) = [0x50, 0x45, 0, 0]"
    and "table = pe_offset + 24 + u16_at data (pe_offset + 20)"
    and "js = present_entries data table (u16_at data (pe_offset + 6)) 0"
  shows "parse_sections data =
    (if list_all (section_fits data table) js then Inr (map (section_entry data table) js)
     else bail SectionBeyondFile)"
proof -
  have "read_le 4 data 60 = Inr pe_offset"
    "read_le 2 data (pe_offset + 4 + 2) = Inr (u16_at data (pe_offset + 6))"
    "read_le 2 data (pe_offset + 4 + 16) = Inr (u16_at data (pe_offset + 20))"
    using assms(1-4) by (auto simp: u32_at_def u16_at_def add.commute)
  then show ?thesis
    using assms
    by (simp add: parse_sections_def parse_section_table_eq Let_def add.assoc del: read_le_Inr)
qed

section \<open>A sample image\<close>

text \<open>
  A PE32+ image with 240 bytes of headers (PE header at 64, one section-table entry behind the optional
  header), eight bytes of section data at 280, and a certificate directory \<open>(ct_addr, ct_size)\<close>.
\<close>

definition sample_pe :: "nat \<Rightarrow> nat \<Rightarrow> nat \<Rightarrow> bytes \<Rightarrow> bytes" where
  "sample_pe checksum addr len tail =
     zeros 60 @ [64, 0, 0, 0, 0x50, 0x45, 0, 0, 0, 0, 1, 0] @ zeros 12 @ [152, 0, 0, 0, 0x0b, 2]
       @ zeros 58 @ [24, 1, 0, 0] @ le_bytes 4 checksum @ zeros 76 @ le_bytes 4 addr @ le_bytes 4 len
       @ [0x2e, 0x74, 0, 0, 0, 0, 0, 0, 3, 0, 0, 0, 0, 0, 0, 0, 8, 0, 0, 0, 24, 1, 0, 0] @ zeros 16
       @ [1, 2, 3, 4, 5, 6, 7, 8] @ tail"

definition sample_layout :: pe_layout where
  "sample_layout = \<lparr> coff_offset = 68, opt_hdr_offset = 88, opt_hdr_size = 152,
     checksum_offset = 152, cert_dir_offset = 232, size_of_headers = 280 \<rparr>"

lemma read_le_exec [exec_simps]:
  "read_le n data p = (if p + n < u64_limit then
     if p + n \<le> length data then Inr (le_nat (subslice data p (p + n))) else bail (OutOfBounds p)
     else bail OffsetOverflow)"
  by (simp add: read_le_def checked_add_def ensure_def)

lemma sample_headers: "pe_headers (sample_pe c a n t) = Inr sample_layout"
  by (simp add: pe_headers_def sample_layout_def sample_pe_def exec_simps Let_def
      del: read_le_Inr)

lemma sample_sections:
  "sorted_sections (sample_pe c a n t) sample_layout = Inr [(280, 8)]"
  by (simp add: sorted_sections_def raw_section_def sample_layout_def sample_pe_def exec_simps
      Let_def upt_rec del: read_le_Inr collect_results_Inr_iff)

text \<open>A certificate directory that points beyond the file makes the computation panic.\<close>

lemma authenticode_panics_on_sample: "authenticode_sha384 sha (sample_pe 9 1000 1 [0]) = panic"
proof -
  have "trailing_input (sample_pe 9 1000 1 [0]) 232 288 = panic"
    by (simp add: trailing_input_def sample_pe_def exec_simps subslice_or_panic_def
        del: read_le_Inr)
  moreover have "section_data (sample_pe 9 1000 1 [0]) (280, 8) = Inr [1, 2, 3, 4, 5, 6, 7, 8]"
    by (simp add: section_data_def sample_pe_def exec_simps)
  ultimately show ?thesis
    by (simp add: authenticode_sha384_def authenticode_input_def sample_headers sample_sections
        del: collect_results_Inr_iff) (simp add: sample_layout_def)
qed

lemma sample_cert_dir: "u32_at (sample_pe c a n t) 232 = a mod 2 ^ 32"
  by (simp add: u32_at_def sample_pe_def subslice_def le_nat_le_bytes)

lemma authenticode_ignores_checksum_witness:
  "\<forall>sha. authenticode_sha384 sha (overwrite (sample_pe 9 0 0 []) 152 [7, 7, 7, 7])
     = authenticode_sha384 sha (sample_pe 9 0 0 [])"
proof (rule allI)
  fix sha
  have "checksum_offset sample_layout = 152" by (simp add: sample_layout_def)
  then show "authenticode_sha384 sha (overwrite (sample_pe 9 0 0 []) 152 [7, 7, 7, 7])
     = authenticode_sha384 sha (sample_pe 9 0 0 [])"
    using authenticode_ignores_checksum
      [OF sample_headers sample_sections, where f = "[7, 7, 7, 7]" and sha = sha
        and c1 = 9 and a1 = 0 and n1 = 0 and t1 = "[]"]
    by (simp add: sample_layout_def sample_cert_dir)
qed

lemma sample_tiled: "tiles (size_of_headers sample_layout) [(280, 8)] 288"
  by (simp add: sample_layout_def)

lemma sample_length: "length (sample_pe c a n []) = 288"
  by (simp add: sample_pe_def)

lemma sample_no_cert: "u32_at (sample_pe c 0 n t) (cert_dir_offset sample_layout) = 0"
  by (simp add: sample_layout_def sample_cert_dir)

lemma sample_input: "authenticode_input (sample_pe c 0 n []) = Inr (take 152 (sample_pe c 0 n [])
    @ subslice (sample_pe c 0 n []) 156 232 @ drop 240 (sample_pe c 0 n []))"
  using authenticode_tiled [OF sample_headers sample_sections sample_tiled _ sample_no_cert]
  by (simp add: sample_length sample_layout_def u64_limit_def tail_padding_def)


lemma parse_sections_reads_table_witness:
  "parse_sections (sample_pe 9 0 0 []) = Inr [(''.t'', [1, 2, 3])]"
proof -
  let ?d = "sample_pe 9 0 0 []"
  have "length ?d < u64_limit" "64 = u32_at ?d 60" "64 + 24 \<le> length ?d" "64 \<le> length ?d"
    "subslice ?d 64 (64 + 4) = [0x50, 0x45, 0, 0]" "240 = 64 + 24 + u16_at ?d (64 + 20)"
    "[0] = present_entries ?d 240 (u16_at ?d (64 + 6)) 0"
    by (simp_all add: sample_pe_def exec_simps present_entries_def upt_rec)
  from parse_sections_reads_table [OF this] show ?thesis
    by (simp add: section_fits_def section_entry_def section_name_def sample_pe_def exec_simps
        Let_def char_of_eq_iff take_bit_eq_mod)
qed

end
