(* ===== verification/Esp.thy ===== *)
theory Esp
  imports RustStr
begin

text \<open>
  \<open>crates/tdx-measure/src/esp.rs\<close>: finding the EFI System Partition in a raw GPT disk image and reading a
  file out of it.  The FAT implementation (the \<open>fatfs\<close> crate) is a parameter: a record of the four
  calls the code makes, each of which may fail.  Arithmetic on LBAs is the plain \<open>u64\<close> arithmetic of
  the source, which panics on overflow in the crate's release profile.
\<close>

datatype esp_error =
    DiskTooSmall
  | NoGptSignature
  | EntrySizeBelowMinimum nat
  | NoEspPartition
  | EspBeyondDisk
  | OpenFat
  | EmptyPath
  | OpenDir string
  | OpenFile
  | ReadFile

record ('dir, 'file) fat_driver =
  fat_root :: "bytes \<Rightarrow> 'dir option"
  fat_open_dir :: "'dir \<Rightarrow> string \<Rightarrow> 'dir option"
  fat_open_file :: "'dir \<Rightarrow> string \<Rightarrow> 'file option"
  fat_read_to_end :: "'file \<Rightarrow> bytes option"

definition FALLBACK_BOOTLOADER_PATH :: string where
  "FALLBACK_BOOTLOADER_PATH = ''EFI/BOOT/BOOTX64.EFI''"

text \<open>Lines 68--72: the GUID of an ESP, little-endian as on disk.\<close>

definition ESP_GUID :: bytes where
  "ESP_GUID = [0x28, 0x73, 0x2a, 0xc1, 0x1f, 0xf8, 0xd2, 0x11, 0xba, 0x4b, 0x00, 0xa0, 0xc9, 0x3e,
     0xc9, 0x3b]"

section \<open>The GPT header\<close>

text \<open>The 92 bytes at LBA 1 and the three fields both readers of the program take from it.\<close>

definition gpt_header :: "bytes \<Rightarrow> bytes" where
  "gpt_header disk = subslice disk 512 (512 + 92)"

definition gpt_signature_ok :: "bytes \<Rightarrow> bool" where
  "gpt_signature_ok disk \<longleftrightarrow> subslice (gpt_header disk) 0 8 = as_bytes ''EFI PART''"

definition gpt_entry_lba :: "bytes \<Rightarrow> nat" where
  "gpt_entry_lba disk = u64_at (gpt_header disk) 72"

definition gpt_num_entries :: "bytes \<Rightarrow> nat" where
  "gpt_num_entries disk = u32_at (gpt_header disk) 80"

definition gpt_entry_size :: "bytes \<Rightarrow> nat" where
  "gpt_entry_size disk = u32_at (gpt_header disk) 84"

section \<open>Looking for the ESP\<close>

text \<open>
  Lines 74--98: the entries in order, up to the first one with the ESP type GUID; the search ends at the
  first entry that does not fit into the image.  The result holds first and last LBA.
\<close>

function find_esp :: "bytes \<Rightarrow> nat \<Rightarrow> nat \<Rightarrow> nat \<Rightarrow> nat \<Rightarrow> esp_error fault + (nat \<times> nat) option" where
  "find_esp disk entries_off entry_size num i =
     (if num \<le> i then Inr None
      else
        and_then (add_u64 entries_off (i * entry_size)) (\<lambda>off.
        and_then (add_u64 off entry_size) (\<lambda>entry_end.
        if length disk < entry_end then Inr None
        else
          let entry = subslice disk off entry_end in
          if subslice entry 0 16 \<noteq> ESP_GUID
          then find_esp disk entries_off entry_size num (i + 1)
          else Inr (Some (u64_at entry 32, u64_at entry 40)))))"
  by pat_completeness auto
termination by (relation "measure (\<lambda>(disk, off, sz, num, i). num - i)") auto

declare find_esp.simps [simp del]

text \<open>Lines 34--113: the byte range of the partition.\<close>

definition esp_slice :: "bytes \<Rightarrow> esp_error fault + bytes" where
  "esp_slice disk =
     and_then (ensure (1024 \<le> length disk) (Err DiskTooSmall)) (\<lambda>_.
     and_then (ensure (gpt_signature_ok disk) (Err NoGptSignature)) (\<lambda>_.
     and_then (ensure (128 \<le> gpt_entry_size disk)
       (Err (EntrySizeBelowMinimum (gpt_entry_size disk)))) (\<lambda>_.
     and_then (mul_u64 (gpt_entry_lba disk) 512) (\<lambda>entries_off.
     and_then (find_esp disk entries_off (gpt_entry_size disk) (gpt_num_entries disk) 0) (\<lambda>found.
     and_then (ok_or (Err NoEspPartition) found) (\<lambda>(first_lba, last_lba).
     and_then (mul_u64 first_lba 512) (\<lambda>start.
     and_then (add_u64 last_lba 1) (\<lambda>last1.
     and_then (mul_u64 last1 512) (\<lambda>stop.
     and_then (ensure (stop \<le> length disk) (Err EspBeyondDisk)) (\<lambda>_.
     subslice_or_panic disk start stop))))))))))"

section \<open>Reading the file\<close>

fun walk_dirs :: "('dir, 'file) fat_driver \<Rightarrow> 'dir \<Rightarrow> string list \<Rightarrow> esp_error fault + 'dir" where
  "walk_dirs fat d [] = Inr d"
| "walk_dirs fat d (c # cs) =
     and_then (ok_or (Err (OpenDir c)) (fat_open_dir fat d c)) (\<lambda>d'. walk_dirs fat d' cs)"

text \<open>Lines 115--142: the walk through the FAT volume, one component at a time.\<close>

definition read_fat_file ::
  "('dir, 'file) fat_driver \<Rightarrow> bytes \<Rightarrow> string \<Rightarrow> esp_error fault + bytes" where
  "read_fat_file fat esp path =
     and_then (ok_or (Err OpenFat) (fat_root fat esp)) (\<lambda>root.
     let components = path_components path in
     and_then (ensure (components \<noteq> []) (Err EmptyPath)) (\<lambda>_.
     and_then (walk_dirs fat root (butlast components)) (\<lambda>dir.
     and_then (ok_or (Err OpenFile) (fat_open_file fat dir (last components))) (\<lambda>file.
     ok_or (Err ReadFile) (fat_read_to_end fat file)))))"

definition read_esp_file ::
  "('dir, 'file) fat_driver \<Rightarrow> bytes \<Rightarrow> string \<Rightarrow> esp_error fault + bytes" where
  "read_esp_file fat disk path = and_then (esp_slice disk) (\<lambda>esp. read_fat_file fat esp path)"

section \<open>Facts\<close>

text \<open>The search as a specification: the first ESP entry among those that fit into the image.\<close>

definition gpt_entry :: "bytes \<Rightarrow> nat \<Rightarrow> nat \<Rightarrow> nat \<Rightarrow> bytes" where
  "gpt_entry disk off sz k = subslice disk (off + k * sz) (off + k * sz + sz)"

definition entries_present :: "bytes \<Rightarrow> nat \<Rightarrow> nat \<Rightarrow> nat \<Rightarrow> nat \<Rightarrow> nat list" where
  "entries_present disk off sz num i =
     filter (\<lambda>k. off + k * sz + sz \<le> length disk) [i..<num]"

lemma entries_present_rec:
  "entries_present disk off sz num i =
     (if num \<le> i \<or> length disk < off + i * sz + sz then []
      else i # entries_present disk off sz num (i + 1))"
proof (cases "length disk < off + i * sz + sz")
  case True
  have "\<not> off + k * sz + sz \<le> length disk" if "i \<le> k" for k
  proof -
    have "i * sz \<le> k * sz" using that by simp
    then show ?thesis using True by linarith
  qed
  then show ?thesis using True by (simp add: entries_present_def filter_empty_conv)
qed (auto simp: entries_present_def upt_conv_Cons)

definition esp_lbas :: "bytes \<Rightarrow> nat \<Rightarrow> nat \<Rightarrow> nat \<Rightarrow> (nat \<times> nat) option" where
  "esp_lbas disk off sz num =
     map_option (\<lambda>k. (u64_at (gpt_entry disk off sz k) 32, u64_at (gpt_entry disk off sz k) 40))
       (find (\<lambda>k. subslice (gpt_entry disk off sz k) 0 16 = ESP_GUID)
         (entries_present disk off sz num 0))"

lemma find_esp_eq:
  assumes "length disk + sz < u64_limit"
  shows "off + i * sz + sz < u64_limit \<Longrightarrow> find_esp disk off sz num i =
    Inr (map_option
      (\<lambda>k. (u64_at (gpt_entry disk off sz k) 32, u64_at (gpt_entry disk off sz k) 40))
      (find (\<lambda>k. subslice (gpt_entry disk off sz k) 0 16 = ESP_GUID)
        (entries_present disk off sz num i)))"
proof (induction "num - i" arbitrary: i)
  case 0
  then show ?case by (simp add: find_esp.simps entries_present_rec)
next
  case (Suc n)
  have IH: "find_esp disk off sz num (i + 1) =
    Inr (map_option
      (\<lambda>k. (u64_at (gpt_entry disk off sz k) 32, u64_at (gpt_entry disk off sz k) 40))
      (find (\<lambda>k. subslice (gpt_entry disk off sz k) 0 16 = ESP_GUID)
        (entries_present disk off sz num (i + 1))))"
    if "off + i * sz + sz \<le> length disk"
    by (rule Suc.hyps) (use Suc that assms in auto)
  have bounds: "add_u64 off (i * sz) = Inr (off + i * sz)"
    "add_u64 (off + i * sz) sz = Inr (off + i * sz + sz)"
    using Suc.prems by (simp_all add: checked_arith_exec(3) del: add_u64_eq)
  show ?case
    using Suc.hyps(2) IH bounds
    by (subst find_esp.simps, subst entries_present_rec)
      (auto simp: Let_def gpt_entry_def simp del: add_u64_eq)
qed

lemma find_esp_panic:
  "num \<noteq> 0 \<Longrightarrow> u64_limit \<le> off + sz \<Longrightarrow> find_esp disk off sz num 0 = panic"
  by (subst find_esp.simps) (simp add: checked_arith_exec(3) del: add_u64_eq)

lemma read_fat_file_no_panic: "read_fat_file fat esp path \<noteq> panic"
proof -
  have "walk_dirs fat d cs \<noteq> panic" for d cs
    by (induction cs arbitrary: d) (auto simp: and_then_eq_Inl)
  then show ?thesis by (auto simp: read_fat_file_def Let_def and_then_eq_Inl)
qed

section \<open>Properties\<close>


text \<open>A disk whose only entry is an ESP from LBA \<open>a\<close> to LBA \<open>b\<close>.\<close>

definition sample_disk :: "nat \<Rightarrow> nat \<Rightarrow> bytes" where
  "sample_disk a b =
     zeros 512 @ as_bytes ''EFI PART'' @ zeros 64 @ le_bytes 8 2 @ le_bytes 4 1 @ le_bytes 4 128
       @ zeros 424 @ ESP_GUID @ zeros 16 @ le_bytes 8 a @ le_bytes 8 b @ zeros 80"

lemma sample_disk_facts:
  "length (sample_disk a b) = 1152" "gpt_signature_ok (sample_disk a b)"
  "gpt_entry_size (sample_disk a b) = 128" "gpt_num_entries (sample_disk a b) = 1"
  "gpt_entry_lba (sample_disk a b) = 2"
  by (simp_all add: sample_disk_def ESP_GUID_def gpt_signature_ok_def gpt_entry_size_def
      gpt_num_entries_def gpt_entry_lba_def gpt_header_def u32_at_def u64_at_def subslice_def
      le_nat_le_bytes)

lemma sample_disk_lbas:
  "a < u64_limit \<Longrightarrow> b < u64_limit \<Longrightarrow> esp_lbas (sample_disk a b) 1024 128 1 = Some (a, b)"
proof -
  assume "a < u64_limit" "b < u64_limit"
  moreover have "entries_present (sample_disk a b) 1024 128 1 0 = [0]"
    by (simp add: entries_present_def sample_disk_facts)
  moreover have "gpt_entry (sample_disk a b) 1024 128 0
      = ESP_GUID @ zeros 16 @ le_bytes 8 a @ le_bytes 8 b @ zeros 80"
    by (simp add: gpt_entry_def sample_disk_def subslice_def ESP_GUID_def)
  ultimately show ?thesis
    by (simp add: esp_lbas_def u64_at_def subslice_def ESP_GUID_def le_nat_le_bytes u64_limit_def)
qed

lemma sample_disk_found:
  "a < u64_limit \<Longrightarrow> b < u64_limit \<Longrightarrow>
     find_esp (sample_disk a b) 1024 128 (Suc 0) 0 = Inr (Some (a, b))"
  using find_esp_eq [of "sample_disk a b" 128 1024 0 1] sample_disk_lbas [of a b]
  by (simp add: sample_disk_facts esp_lbas_def u64_limit_def)


end
