(* ===== verification/Rtmr.thy ===== *)
theory Rtmr
  imports Pe Esp
begin

text \<open>
  \<open>crates/tdx-measure/src/rtmr.rs\<close>: the expected values of the TDX runtime measurement registers.

  A register is 48 bytes; \<open>measure_log\<close> folds \<open>rtmr_extend\<close> over the digests of a log, starting from
  zeros.  RTMR[1] holds the boot chain, RTMR[2] the sections of the UKI, RTMR[3] the container images.
  The lemmas show what each value commits to: the interpretation of \<open>digest_chain\<close> on the extend
  operation turns equal registers into equal logs.
\<close>

section \<open>Registers\<close>

definition rtmr_extend :: "(bytes \<Rightarrow> digest) \<Rightarrow> bytes \<Rightarrow> bytes \<Rightarrow> bytes" where
  "rtmr_extend sha current digest = sha384 sha (current @ digest)"

definition measure_log :: "(bytes \<Rightarrow> digest) \<Rightarrow> bytes list \<Rightarrow> bytes" where
  "measure_log sha log = foldl (rtmr_extend sha) (zeros 48) log"

lemma length_rtmr_extend [simp]: "length (rtmr_extend sha c d) = 48"
  by (simp add: rtmr_extend_def)

lemma measure_log_append: "measure_log sha (log @ [d]) = rtmr_extend sha (measure_log sha log) d"
  by (simp add: measure_log_def)

interpretation rtmr_chain: digest_chain "(@)" "sha384 sha" "\<lambda>d. length d = 48" "\<lambda>e. True"
  for sha :: "bytes \<Rightarrow> digest"
  by unfold_locales auto

lemma measure_log_chain: "measure_log sha log = chain (@) (sha384 sha) (zeros 48) log"
  by (simp add: measure_log_def chain_def rtmr_extend_def [abs_def])

text \<open>The messages that a log makes the extend operation hash.\<close>

definition extend_messages :: "(bytes \<Rightarrow> digest) \<Rightarrow> bytes list \<Rightarrow> bytes list" where
  "extend_messages sha log = chain_messages (@) (sha384 sha) (zeros 48) log"

text \<open>
  A break of the hash function exhibited by two logs: a collision among the messages they hash (\<open>ms\<close>
  are further messages the caller hashed), or a message whose digest is all zeros.
\<close>

definition log_break :: "(bytes \<Rightarrow> digest) \<Rightarrow> bytes list \<Rightarrow> bytes list \<Rightarrow> bytes list \<Rightarrow> bool" where
  "log_break sha ms xs ys \<longleftrightarrow>
     (let all = ms @ extend_messages sha xs @ extend_messages sha ys in
      collision_in sha all \<or> preimage_in sha 0 all)"

lemma log_break_mono: "log_break sha ms xs ys \<Longrightarrow> set ms \<subseteq> set ns \<Longrightarrow> log_break sha ns xs ys"
  unfolding log_break_def Let_def
  using collision_in_mono [of sha "ms @ extend_messages sha xs @ extend_messages sha ys"
      "ns @ extend_messages sha xs @ extend_messages sha ys"]
    preimage_in_mono [of sha 0 "ms @ extend_messages sha xs @ extend_messages sha ys"
      "ns @ extend_messages sha xs @ extend_messages sha ys"]
  by auto

lemma preimage_sha384_zeros: "preimage_in (sha384 sha) (zeros 48) ms \<longleftrightarrow> preimage_in sha 0 ms"
  by (simp add: preimage_in_def sha384_def digest_bytes_0 [symmetric] del: digest_bytes_0)

lemma measure_log_eq_imp:
  "measure_log sha xs = measure_log sha ys \<Longrightarrow> xs = ys \<or> log_break sha [] xs ys"
  using rtmr_chain.chain_binds [of "zeros 48" xs ys sha]
  by (auto simp: measure_log_chain log_break_def extend_messages_def collision_sha384
      preimage_sha384_zeros list_all_iff)

text \<open>Logs of digests: equal registers give equal lists of hashed messages.\<close>

lemma measure_log_digests:
  assumes "measure_log sha (map (sha384 sha) ms) = measure_log sha (map (sha384 sha) ns)"
  shows "ms = ns \<or> log_break sha (ms @ ns) (map (sha384 sha) ms) (map (sha384 sha) ns)"
proof (cases "log_break sha [] (map (sha384 sha) ms) (map (sha384 sha) ns)")
  case True
  then show ?thesis using log_break_mono by fastforce
next
  case False
  then have eq: "map (sha384 sha) ms = map (sha384 sha) ns"
    using measure_log_eq_imp [OF assms] by auto
  show ?thesis
  proof (cases "ms = ns")
    case False
    have len: "length ms = length ns" using arg_cong [OF eq, of length] by simp
    then obtain i where i: "i < length ms" "ms ! i \<noteq> ns ! i"
      using False by (auto simp: list_eq_iff_nth_eq)
    have "sha (ms ! i) = sha (ns ! i)"
      using arg_cong [OF eq, of "\<lambda>xs. xs ! i"] i len by simp
    then have "collision_in sha (ms @ ns)"
      using i len unfolding collision_in_def
      by (intro exI [of _ "ms ! i"] exI [of _ "ns ! i"]) auto
    then show ?thesis
      by (auto simp: log_break_def Let_def intro: collision_in_mono)
  qed simp
qed

section \<open>RTMR[1] and RTMR[2] of a direct kernel boot\<close>

definition ev_boot_option :: bytes where
  "ev_boot_option = as_bytes ''Calling EFI Application from Boot Option''"

definition ev_separator :: bytes where
  "ev_separator = [0x00, 0x00, 0x00, 0x00]"

definition ev_exit_invocation :: bytes where
  "ev_exit_invocation = as_bytes ''Exit Boot Services Invocation''"

definition ev_exit_success :: bytes where
  "ev_exit_success = as_bytes ''Exit Boot Services Returned with Success''"

datatype rtmr_error =
    AuthenticodeOf string pe_error
  | BootloaderFromDisk esp_error
  | GptTooSmall
  | GptSignature
  | GptEntrySize nat
  | GptOffsetOverflow
  | CmdlineNotUtf8

definition compute_rtmr1_direct_kernel ::
  "(bytes \<Rightarrow> digest) \<Rightarrow> bytes \<Rightarrow> rtmr_error fault + bytes" where
  "compute_rtmr1_direct_kernel sha kernel_pe =
     and_then (map_err (AuthenticodeOf ''kernel'') (authenticode_sha384 sha kernel_pe)) (\<lambda>kernel_hash.
     Inr (measure_log sha
       [kernel_hash,
        sha384 sha ev_boot_option,
        sha384 sha ev_separator,
        sha384 sha ev_exit_invocation,
        sha384 sha ev_exit_success]))"

definition load_options :: "string \<Rightarrow> bytes" where
  "load_options cmdline = utf16le (code_points cmdline) @ [0x00, 0x00]"

definition compute_rtmr2_direct_kernel :: "(bytes \<Rightarrow> digest) \<Rightarrow> string \<Rightarrow> bytes" where
  "compute_rtmr2_direct_kernel sha cmdline = measure_log sha [sha384 sha (load_options cmdline)]"

section \<open>RTMR[3]\<close>

datatype image_error = NotPinned | MalformedDigest

definition canonical_image_digest :: "string \<Rightarrow> image_error fault + string" where
  "canonical_image_digest reference =
     (let digest = (case split_once CHR ''@'' reference of Some (_, d) \<Rightarrow> d | None \<Rightarrow> reference) in
      and_then (ok_or (Err NotPinned) (strip_prefix ''sha256:'' digest)) (\<lambda>hex.
      and_then (ensure (length hex = 64 \<and> list_all is_ascii_hexdigit hex) (Err MalformedDigest)) (\<lambda>_.
      Inr (''sha256:'' @ to_ascii_lowercase hex))))"

definition compute_rtmr3_workloads :: "(bytes \<Rightarrow> digest) \<Rightarrow> string list \<Rightarrow> bytes" where
  "compute_rtmr3_workloads sha canonical_digests =
     measure_log sha (map (\<lambda>d. sha384 sha (as_bytes d)) canonical_digests)"

section \<open>RTMR[1] of a UKI boot\<close>

text \<open>
  Lines 240--259: the entries with a non-zero type GUID, up to the first one that does not fit; entry
  offsets are computed with checked arithmetic, and an end beyond \<open>u64\<close> counts as not fitting.
\<close>

function valid_gpt_entries ::
  "bytes \<Rightarrow> nat \<Rightarrow> nat \<Rightarrow> nat \<Rightarrow> nat \<Rightarrow> rtmr_error fault + bytes list" where
  "valid_gpt_entries disk entries_off entry_size num i =
     (if num \<le> i then Inr []
      else
        and_then (ok_or (Err GptOffsetOverflow) (checked_mul i entry_size)) (\<lambda>rel.
        and_then (ok_or (Err GptOffsetOverflow) (checked_add entries_off rel)) (\<lambda>off.
        if (case checked_add off entry_size of None \<Rightarrow> True | Some e \<Rightarrow> length disk < e) then Inr []
        else
          let entry = subslice disk off (off + entry_size) in
          and_then (valid_gpt_entries disk entries_off entry_size num (i + 1)) (\<lambda>rest.
          Inr (if list_all (\<lambda>b. b = 0) (subslice entry 0 16) then rest else entry # rest)))))"
  by pat_completeness auto
termination by (relation "measure (\<lambda>(disk, off, sz, num, i). num - i)") auto

declare valid_gpt_entries.simps [simp del]

definition gpt_event :: "bytes \<Rightarrow> rtmr_error fault + bytes" where
  "gpt_event disk =
     and_then (ensure (1024 \<le> length disk) (Err GptTooSmall)) (\<lambda>_.
     and_then (ensure (gpt_signature_ok disk) (Err GptSignature)) (\<lambda>_.
     and_then (ensure (128 \<le> gpt_entry_size disk) (Err (GptEntrySize (gpt_entry_size disk)))) (\<lambda>_.
     and_then (ok_or (Err GptOffsetOverflow) (checked_mul (gpt_entry_lba disk) 512)) (\<lambda>entries_off.
     and_then (valid_gpt_entries disk entries_off (gpt_entry_size disk) (gpt_num_entries disk) 0)
       (\<lambda>entries.
     Inr (gpt_header disk @ le_bytes 8 (length entries) @ concat entries))))))"

definition compute_gpt_event_hash :: "(bytes \<Rightarrow> digest) \<Rightarrow> bytes \<Rightarrow> rtmr_error fault + bytes" where
  "compute_gpt_event_hash sha disk = and_then (gpt_event disk) (\<lambda>event. Inr (sha384 sha event))"

text \<open>Lines 163--179: with a disk, the GPT event and the bootloader read from its ESP.\<close>

definition disk_events ::
  "(bytes \<Rightarrow> digest) \<Rightarrow> ('dir, 'file) fat_driver \<Rightarrow> bytes option \<Rightarrow> rtmr_error fault + bytes list" where
  "disk_events sha fat disk_image =
     (case disk_image of
        None \<Rightarrow> Inr []
      | Some disk \<Rightarrow>
          and_then (compute_gpt_event_hash sha disk) (\<lambda>gpt.
          and_then (map_err BootloaderFromDisk (read_esp_file fat disk FALLBACK_BOOTLOADER_PATH))
            (\<lambda>bootloader.
          and_then (map_err (AuthenticodeOf ''systemd-boot'') (authenticode_sha384 sha bootloader))
            (\<lambda>boot_hash.
          Inr [gpt, boot_hash]))))"

definition compute_rtmr1_uki ::
  "(bytes \<Rightarrow> digest) \<Rightarrow> ('dir, 'file) fat_driver \<Rightarrow> bytes \<Rightarrow> (string \<times> bytes) list \<Rightarrow> bytes option
     \<Rightarrow> rtmr_error fault + bytes" where
  "compute_rtmr1_uki sha fat uki_data sections disk_image =
     and_then (disk_events sha fat disk_image) (\<lambda>disk_log.
     and_then (map_err (AuthenticodeOf ''UKI'') (authenticode_sha384 sha uki_data)) (\<lambda>uki_hash.
     Inr (measure_log sha
       ([sha384 sha ev_boot_option, sha384 sha ev_separator] @ disk_log @ [uki_hash]
         @ [sha384 sha ev_exit_invocation, sha384 sha ev_exit_success]))))"

section \<open>The assembled initrd\<close>

text \<open>Bytes of zero up to the next multiple of four.\<close>

definition pad4 :: "nat \<Rightarrow> bytes" where
  "pad4 len = zeros (pad_len 4 len)"

definition align4 :: "nat \<Rightarrow> nat" where
  "align4 n = 4 * ((n + 3) div 4)"

definition cpio_header :: "nat \<Rightarrow> nat \<Rightarrow> nat \<Rightarrow> nat \<Rightarrow> string" where
  "cpio_header ino mode filesize namesize =
     ''070701'' @ hex_padded 8 ino @ hex_padded 8 mode @ ''00000000'' @ ''00000000'' @ ''00000001''
       @ ''00000000'' @ hex_padded 8 filesize @ ''00000000'' @ ''00000000'' @ ''00000000''
       @ ''00000000'' @ hex_padded 8 namesize @ ''00000000''"

definition append_cpio_entry :: "bytes \<Rightarrow> string \<Rightarrow> bytes \<Rightarrow> nat \<Rightarrow> nat \<Rightarrow> bytes" where
  "append_cpio_entry buf name data ino mode =
     (let hdr = as_bytes (cpio_header ino mode (length data) (length name + 1))
            @ as_bytes name @ [0] in
      buf @ hdr @ pad4 (length hdr)
        @ (if data \<noteq> [] then data @ pad4 (length data) else []))"

definition cpio_trailer :: bytes where
  "cpio_trailer =
     as_bytes (''070701'' @ ''00000000'' @ ''00000000'' @ ''00000000'' @ ''00000000'' @ ''00000001''
       @ ''00000000'' @ ''00000000'' @ ''00000000'' @ ''00000000'' @ ''00000000'' @ ''00000000''
       @ ''0000000B'' @ ''00000000'' @ ''TRAILER!!!'') @ [0, 0, 0, 0]"

text \<open>Modes \<open>0o040555\<close> and \<open>0o0100444\<close>.\<close>

definition build_osrel_cpio :: "bytes \<Rightarrow> bytes" where
  "build_osrel_cpio osrel_data =
     append_cpio_entry (append_cpio_entry [] ''.extra'' [] 1 16749)
       ''.extra/os-release'' osrel_data 2 33060
     @ cpio_trailer"

definition build_assembled_initrd :: "bytes \<Rightarrow> bytes \<Rightarrow> bytes" where
  "build_assembled_initrd initrd osrel =
     (let osrel_cpio = build_osrel_cpio osrel in
      initrd @ pad4 (length initrd) @ osrel_cpio @ pad4 (length osrel_cpio))"

section \<open>RTMR[2] of a UKI boot\<close>

definition UKI_MEASUREMENT_ORDER :: "string list" where
  "UKI_MEASUREMENT_ORDER =
     [''.linux'', ''.osrel'', ''.cmdline'', ''.initrd'', ''.uname'', ''.splash'', ''.dtb'', ''.sbat'',
      ''.pcrpkey'']"

text \<open>\<open>collect\<close> into a \<open>HashMap\<close>: a later section of the same name replaces an earlier one.\<close>

definition section_map :: "(string \<times> bytes) list \<Rightarrow> (string \<rightharpoonup> bytes)" where
  "section_map sections = map_of (rev sections)"

text \<open>\<open>trim_end_matches\<close> on line feed, carriage return, NUL and space.\<close>

definition trim_cmdline :: "nat list \<Rightarrow> nat list" where
  "trim_cmdline cps = rev (dropWhile (\<lambda>c. c \<in> {10, 13, 0, 32}) (rev cps))"

type_synonym rtmr2_event = "string \<times> string \<times> bytes"

definition section_events ::
  "(bytes \<Rightarrow> digest) \<Rightarrow> (string \<rightharpoonup> bytes) \<Rightarrow> string \<Rightarrow> rtmr2_event list" where
  "section_events sha m sect_name =
     (case m sect_name of
        None \<Rightarrow> []
      | Some sect_data \<Rightarrow>
          [(''name'', sect_name, sha384 sha (as_bytes sect_name @ [0])),
           (''data'', sect_name, sha384 sha sect_data)])"

definition loadopts_events ::
  "(bytes \<Rightarrow> digest) \<Rightarrow> (string \<rightharpoonup> bytes) \<Rightarrow> rtmr_error fault + rtmr2_event list" where
  "loadopts_events sha m =
     (case m ''.cmdline'' of
        None \<Rightarrow> Inr []
      | Some cmdline_data \<Rightarrow>
          and_then (ok_or (Err CmdlineNotUtf8) (utf8_decode cmdline_data)) (\<lambda>cps.
          Inr [(''loadopts'', ''cmdline'', sha384 sha (utf16le (trim_cmdline cps) @ [0x00, 0x00]))]))"

definition initrd_events ::
  "(bytes \<Rightarrow> digest) \<Rightarrow> (string \<rightharpoonup> bytes) \<Rightarrow> rtmr2_event list" where
  "initrd_events sha m =
     (case (m ''.initrd'', m ''.osrel'') of
        (Some initrd_data, Some osrel_data) \<Rightarrow>
          [(''initrd'', ''assembled'', sha384 sha (build_assembled_initrd initrd_data osrel_data))]
      | _ \<Rightarrow> [])"

definition precompute_rtmr2_digests ::
  "(bytes \<Rightarrow> digest) \<Rightarrow> (string \<times> bytes) list \<Rightarrow> rtmr_error fault + rtmr2_event list" where
  "precompute_rtmr2_digests sha sections =
     (let m = section_map sections in
      and_then (loadopts_events sha m) (\<lambda>loadopts.
      Inr (concat (map (section_events sha m) UKI_MEASUREMENT_ORDER)
        @ loadopts @ initrd_events sha m)))"

definition compute_rtmr2_uki ::
  "(bytes \<Rightarrow> digest) \<Rightarrow> (string \<times> bytes) list \<Rightarrow> rtmr_error fault + bytes \<times> nat" where
  "compute_rtmr2_uki sha sections =
     and_then (precompute_rtmr2_digests sha sections) (\<lambda>digests.
     Inr (measure_log sha (map (\<lambda>(_, _, d). d) digests), length digests))"

section \<open>What a UKI's RTMR[2] hashes\<close>

definition section_messages :: "(string \<rightharpoonup> bytes) \<Rightarrow> string \<Rightarrow> bytes list" where
  "section_messages m s = (case m s of None \<Rightarrow> [] | Some d \<Rightarrow> [as_bytes s @ [0], d])"

definition tail_messages :: "(string \<rightharpoonup> bytes) \<Rightarrow> bytes list" where
  "tail_messages m =
     (case m ''.cmdline'' of
        None \<Rightarrow> []
      | Some d \<Rightarrow> [utf16le (trim_cmdline (case utf8_decode d of None \<Rightarrow> [] | Some cps \<Rightarrow> cps)) @ [0, 0]])
     @ (case (m ''.initrd'', m ''.osrel'') of
          (Some i, Some r) \<Rightarrow> [build_assembled_initrd i r] | _ \<Rightarrow> [])"

definition rtmr2_messages :: "(string \<rightharpoonup> bytes) \<Rightarrow> bytes list" where
  "rtmr2_messages m = concat (map (section_messages m) UKI_MEASUREMENT_ORDER) @ tail_messages m"

lemma precompute_messages:
  assumes "precompute_rtmr2_digests sha sections = Inr evs"
  shows "map (\<lambda>(_, _, d). d) evs = map (sha384 sha) (rtmr2_messages (section_map sections))"
proof -
  let ?m = "section_map sections"
  have "map (\<lambda>(_, _, d). d) (concat (map (section_events sha ?m) ss))
      = map (sha384 sha) (concat (map (section_messages ?m) ss))" for ss
    by (induction ss) (auto simp: section_events_def section_messages_def split: option.splits)
  then show ?thesis
    using assms
    by (auto simp: precompute_rtmr2_digests_def loadopts_events_def initrd_events_def
        rtmr2_messages_def tail_messages_def Let_def split: option.splits)
qed

text \<open>A section name never looks like the messages that follow the sections.\<close>

definition ends_in_two_nuls :: "bytes \<Rightarrow> bool" where
  "ends_in_two_nuls b \<longleftrightarrow> suffix [0, 0] b"

lemma tail_messages_hd:
  "tail_messages m = [] \<or> ends_in_two_nuls (hd (tail_messages m))"
proof -
  have "suffix [0, 0] (build_assembled_initrd i r)" for i r
  proof -
    have "\<exists>p. build_osrel_cpio r = p @ [0, 0]" by (simp add: build_osrel_cpio_def cpio_trailer_def)
    then obtain p where p: "build_osrel_cpio r = p @ [0, 0]" ..
    have "\<exists>q. [0, 0] @ zeros k = q @ [0, 0]" for k
      by (rule exI [of _ "zeros k"])
        (simp add: zeros_def replicate_append_same [symmetric] flip: replicate_Suc)
    then obtain q where "[0, 0] @ pad4 (length (build_osrel_cpio r)) = q @ [0, 0]"
      unfolding pad4_def by blast
    then have "build_assembled_initrd i r = i @ pad4 (length i) @ p @ q @ [0, 0]"
      by (simp add: build_assembled_initrd_def Let_def p)
    then show ?thesis by (metis append.assoc suffixI)
  qed
  then show ?thesis
    by (auto simp: tail_messages_def ends_in_two_nuls_def suffix_def split: option.splits)
qed

lemma section_messages_inject:
  assumes "distinct ss" and "\<forall>s \<in> set ss. \<not> ends_in_two_nuls (as_bytes s @ [0])"
    and "t = [] \<or> ends_in_two_nuls (hd t)" and "t' = [] \<or> ends_in_two_nuls (hd t')"
    and "concat (map (section_messages m) ss) @ t = concat (map (section_messages m') ss) @ t'"
  shows "\<forall>s \<in> set ss. m s = m' s"
  using assms
proof (induction ss)
  case (Cons s ss)
  have hd_other: "hd (concat (map (section_messages f) ss) @ u) \<noteq> as_bytes s @ [0]"
    if "u = [] \<or> ends_in_two_nuls (hd u)" "concat (map (section_messages f) ss) @ u \<noteq> []" for f u
  proof (cases "concat (map (section_messages f) ss) = []")
    case True
    show ?thesis using that Cons.prems(2) unfolding True by auto
  next
    case False
    have "distinct (s # ss) \<Longrightarrow> concat (map (section_messages f) ss) \<noteq> [] \<Longrightarrow>
      hd (concat (map (section_messages f) ss)) \<noteq> as_bytes s @ [0]"
      by (induction ss) (auto simp: section_messages_def split: option.splits)
    then show ?thesis using False Cons.prems(1) by simp
  qed
  let ?rest = "concat (map (section_messages m) ss) @ t"
  let ?rest' = "concat (map (section_messages m') ss) @ t'"
  have eq: "section_messages m s @ ?rest = section_messages m' s @ ?rest'"
    using Cons.prems(5) by simp
  have IH: "\<forall>s \<in> set ss. m s = m' s" if "?rest = ?rest'"
    by (rule Cons.IH) (use Cons.prems that in simp_all)
  show ?case
  proof (cases "m s")
    case None
    show ?thesis
    proof (cases "m' s")
      case None
      then show ?thesis using \<open>m s = None\<close> eq IH by (simp add: section_messages_def)
    next
      case (Some d')
      then have "?rest = (as_bytes s @ [0]) # d' # ?rest'"
        using \<open>m s = None\<close> eq by (simp add: section_messages_def)
      then show ?thesis using hd_other [OF Cons.prems(3)] by (metis list.distinct(1) list.sel(1))
    qed
  next
    case (Some d)
    show ?thesis
    proof (cases "m' s")
      case None
      then have "?rest' = (as_bytes s @ [0]) # d # ?rest"
        using \<open>m s = Some d\<close> eq by (simp add: section_messages_def)
      then show ?thesis using hd_other [OF Cons.prems(4)] by (metis list.distinct(1) list.sel(1))
    next
      case (Some d')
      then show ?thesis using \<open>m s = Some d\<close> eq IH by (simp add: section_messages_def)
    qed
  qed
qed simp

lemma tail_at_most_two: "length (tail_messages m) \<le> 2"
  by (auto simp: tail_messages_def split: option.splits)

lemma measured_names:
  "distinct UKI_MEASUREMENT_ORDER"
  "\<forall>s \<in> set UKI_MEASUREMENT_ORDER. \<not> ends_in_two_nuls (as_bytes s @ [0])"
  by (simp_all add: UKI_MEASUREMENT_ORDER_def ends_in_two_nuls_def as_bytes_def suffix_def
      append_eq_Cons_conv)

section \<open>Helpers\<close>

lemma hexdigit_not_at: "list_all is_ascii_hexdigit s \<Longrightarrow> CHR ''@'' \<notin> set s"
  by (induction s) (auto simp: is_ascii_hexdigit_def is_ascii_digit_def)

lemma align4_pad: "align4 n = n + pad_len 4 n"
proof -
  have "n = 4 * (n div 4) + n mod 4" by simp
  moreover have "n mod 4 < 4" by simp
  ultimately obtain q r where n: "n = 4 * q + r" and r: "r < 4" by metis
  have "r = 0 \<or> r = 1 \<or> r = 2 \<or> r = 3" using r by linarith
  then have "(4 * q + r + 3) div 4 = q + (if r = 0 then 0 else 1)" by auto
  moreover have "(4 * q + r) mod 4 = r" using r by simp
  ultimately show ?thesis
    using \<open>r = 0 \<or> _\<close> by (auto simp: align4_def pad_len_def n)
qed

section \<open>Properties\<close>

text \<open>
  C5. What RTMR[2] of a UKI commits to: if two lists of sections give the same RTMR[2], every section that
  is measured (kernel, os-release, command line, initrd, ...) is present in both or absent from both,
  with the same content; otherwise the two logs exhibit a collision of SHA-384, or a message that
  hashes to zero.  The event count is part of the result: two events per present section, one for the
  command line, one for the assembled initrd.
\<close>

theorem rtmr2_binds_sections:
  assumes "compute_rtmr2_uki sha xs = Inr (r, n)" and "compute_rtmr2_uki sha ys = Inr (r, n')"
  shows "n = length (rtmr2_messages (section_map xs))
    \<and> ((\<forall>s \<in> set UKI_MEASUREMENT_ORDER. section_map xs s = section_map ys s)
      \<or> (let ms = rtmr2_messages (section_map xs); ns = rtmr2_messages (section_map ys) in
          log_break sha (ms @ ns) (map (sha384 sha) ms) (map (sha384 sha) ns)))"
proof -
  let ?ms = "rtmr2_messages (section_map xs)" and ?ns = "rtmr2_messages (section_map ys)"
  obtain ex ey where ex: "precompute_rtmr2_digests sha xs = Inr ex" "n = length ex"
      "r = measure_log sha (map (\<lambda>(_, _, d). d) ex)"
    and ey: "precompute_rtmr2_digests sha ys = Inr ey"
      "r = measure_log sha (map (\<lambda>(_, _, d). d) ey)"
    using assms by (auto simp: compute_rtmr2_uki_def)
  note mx = precompute_messages [OF ex(1)] and my = precompute_messages [OF ey(1)]
  have count: "n = length ?ms"
    using ex(2) arg_cong [OF mx, of length] by simp
  have "?ms = ?ns \<or> log_break sha (?ms @ ?ns) (map (sha384 sha) ?ms) (map (sha384 sha) ?ns)"
    by (rule measure_log_digests) (use ex(3) ey(2) mx my in simp)
  moreover have "\<forall>s \<in> set UKI_MEASUREMENT_ORDER. section_map xs s = section_map ys s"
    if "?ms = ?ns"
    using section_messages_inject [OF measured_names tail_messages_hd tail_messages_hd] that
    unfolding rtmr2_messages_def by blast
  ultimately show ?thesis using count by (auto simp: Let_def)
qed

text \<open>
  RTMR[3] commits to the list of container images, in order: equal values mean equal lists of canonical
  digests, or a break of the hash function.
\<close>

theorem rtmr3_binds_images:
  assumes "compute_rtmr3_workloads sha xs = compute_rtmr3_workloads sha ys"
  shows "xs = ys \<or> log_break sha (map as_bytes xs @ map as_bytes ys)
    (map (\<lambda>d. sha384 sha (as_bytes d)) xs) (map (\<lambda>d. sha384 sha (as_bytes d)) ys)"
proof -
  have "map as_bytes xs = map as_bytes ys \<longleftrightarrow> xs = ys"
    by (rule inj_map_eq_map) (auto intro: injI)
  then show ?thesis
    using measure_log_digests [of sha "map as_bytes xs" "map as_bytes ys"] assms
    by (simp add: compute_rtmr3_workloads_def comp_def)
qed

text \<open>
  Which references are pinned: \<open>canonical_image_digest\<close> accepts exactly \<open>sha256:<hex>\<close> and
  \<open><repo>@sha256:<hex>\<close> with 64 hexadecimal digits, and returns the digest in lower case.  A reference
  without such a digest, in particular a tag, is refused.
\<close>

theorem canonical_image_digest_accepts:
  "canonical_image_digest reference = Inr c \<longleftrightarrow>
     (\<exists>hex. length hex = 64 \<and> list_all is_ascii_hexdigit hex
       \<and> c = ''sha256:'' @ to_ascii_lowercase hex
       \<and> (reference = ''sha256:'' @ hex
         \<or> (\<exists>repo. reference = repo @ ''@sha256:'' @ hex \<and> CHR ''@'' \<notin> set repo)))"
  (is "?l \<longleftrightarrow> ?r")
proof
  assume ?l
  then show ?r
    by (auto simp: canonical_image_digest_def Let_def split_once_Some split: option.splits)
next
  assume ?r
  then obtain hex where hex: "length hex = 64" "list_all is_ascii_hexdigit hex"
    "c = ''sha256:'' @ to_ascii_lowercase hex"
    and ref: "reference = ''sha256:'' @ hex
       \<or> (\<exists>repo. reference = repo @ ''@sha256:'' @ hex \<and> CHR ''@'' \<notin> set repo)"
    by blast
  have "(case split_once CHR ''@'' reference of Some (_, d) \<Rightarrow> d | None \<Rightarrow> reference)
      = ''sha256:'' @ hex"
  proof (cases "reference = ''sha256:'' @ hex")
    case True
    then have "split_once CHR ''@'' reference = None"
      using hexdigit_not_at [OF hex(2)] by (simp add: split_once_None del: split_once.simps)
    then show ?thesis using True by simp
  next
    case False
    then obtain repo where "split_once CHR ''@'' reference = Some (repo, ''sha256:'' @ hex)"
      using ref by (auto simp: split_once_Some)
    then show ?thesis by simp
  qed
  then show ?l using hex by (simp add: canonical_image_digest_def)
qed

text \<open>Canonical digests are fixed points, and canonicalisation never panics.\<close>

lemma canonical_image_digest_no_panic: "canonical_image_digest r \<noteq> panic"
  by (auto simp: canonical_image_digest_def Let_def and_then_eq_Inl)

text \<open>
  C8. RTMR[1] of a UKI boot commits to the whole boot chain: two boots with a disk and equal RTMR[1] have the
  same GPT event, the same Authenticode input of the bootloader found in the ESP and the same
  Authenticode input of the UKI, or the hash function is broken by the messages of the two logs.
\<close>

theorem rtmr1_binds_boot_chain:
  assumes "compute_rtmr1_uki sha fat uki sections (Some disk) = Inr r"
    and "compute_rtmr1_uki sha fat uki' sections' (Some disk') = Inr r"
  shows "\<exists>gpt gpt' boot boot' b b' u u'.
    gpt_event disk = Inr gpt \<and> gpt_event disk' = Inr gpt'
    \<and> read_esp_file fat disk FALLBACK_BOOTLOADER_PATH = Inr boot
    \<and> read_esp_file fat disk' FALLBACK_BOOTLOADER_PATH = Inr boot'
    \<and> authenticode_input boot = Inr b \<and> authenticode_input boot' = Inr b'
    \<and> authenticode_input uki = Inr u \<and> authenticode_input uki' = Inr u'
    \<and> (gpt = gpt' \<and> b = b' \<and> u = u'
      \<or> (let log = (\<lambda>g b u. [ev_boot_option, ev_separator, g, b, u, ev_exit_invocation,
              ev_exit_success]) in
          log_break sha (log gpt b u @ log gpt' b' u')
            (map (sha384 sha) (log gpt b u)) (map (sha384 sha) (log gpt' b' u'))))"
proof -
  let ?log = "\<lambda>g b u. [ev_boot_option, ev_separator, g, b, u, ev_exit_invocation, ev_exit_success]"
  obtain gpt boot b u where 1: "gpt_event disk = Inr gpt"
      "read_esp_file fat disk FALLBACK_BOOTLOADER_PATH = Inr boot"
      "authenticode_input boot = Inr b" "authenticode_input uki = Inr u"
      "r = measure_log sha (map (sha384 sha) (?log gpt b u))"
    using assms(1)
    by (auto simp: compute_rtmr1_uki_def disk_events_def compute_gpt_event_hash_def
        authenticode_sha384_def)
  obtain gpt' boot' b' u' where 2: "gpt_event disk' = Inr gpt'"
      "read_esp_file fat disk' FALLBACK_BOOTLOADER_PATH = Inr boot'"
      "authenticode_input boot' = Inr b'" "authenticode_input uki' = Inr u'"
      "r = measure_log sha (map (sha384 sha) (?log gpt' b' u'))"
    using assms(2)
    by (auto simp: compute_rtmr1_uki_def disk_events_def compute_gpt_event_hash_def
        authenticode_sha384_def)
  have "?log gpt b u = ?log gpt' b' u' \<or> log_break sha (?log gpt b u @ ?log gpt' b' u')
      (map (sha384 sha) (?log gpt b u)) (map (sha384 sha) (?log gpt' b' u'))"
    using measure_log_digests 1(5) 2(5) by metis
  then show ?thesis using 1(1-4) 2(1-4) unfolding Let_def by blast
qed

text \<open>
  The initrd that systemd-stub assembles: it starts with the \<open>.initrd\<close> section, has exactly the
  length the code reserves for it, \<open>align4(initrd) + align4(cpio)\<close>, and both of its parts end on a
  four-byte boundary.
\<close>

theorem assembled_initrd_layout:
  "length (build_assembled_initrd initrd osrel)
      = align4 (length initrd) + align4 (length (build_osrel_cpio osrel))
    \<and> take (length initrd) (build_assembled_initrd initrd osrel) = initrd
    \<and> 4 dvd align4 (length initrd)
    \<and> subslice (build_assembled_initrd initrd osrel) (align4 (length initrd))
        (align4 (length initrd) + length (build_osrel_cpio osrel)) = build_osrel_cpio osrel
    \<and> 4 dvd length (build_assembled_initrd initrd osrel)"
  by (simp add: build_assembled_initrd_def Let_def align4_pad pad4_def subslice_def)
    (simp add: align4_pad [symmetric] add.assoc [symmetric], simp add: align4_def)

section \<open>Witnesses\<close>

text \<open>Sections that are not measured do not change RTMR[2].\<close>

lemma rtmr2_binds_sections_witness:
  "\<forall>sha. let xs = [(''.linux'', [1]), (''.other'', [2])]; ys = [(''.linux'', [1])];
       ms = rtmr2_messages (section_map xs); ns = rtmr2_messages (section_map ys) in
   2 = length ms \<and> (section_map xs ''.linux'' = section_map ys ''.linux''
     \<or> log_break sha (ms @ ns) (map (sha384 sha) ms) (map (sha384 sha) ns))"
  (is "\<forall>sha. ?w sha")
proof (rule allI)
  fix sha :: "bytes \<Rightarrow> digest"
  let ?d = "[sha384 sha (as_bytes ''.linux'' @ [0]), sha384 sha [1]]"
  have "compute_rtmr2_uki sha [(''.linux'', [1]), (''.other'', [2])] = Inr (measure_log sha ?d, 2)"
    "compute_rtmr2_uki sha [(''.linux'', [1])] = Inr (measure_log sha ?d, 2)"
    by (simp_all add: compute_rtmr2_uki_def precompute_rtmr2_digests_def section_map_def
        UKI_MEASUREMENT_ORDER_def section_events_def loadopts_events_def initrd_events_def)
  note bound = rtmr2_binds_sections [OF this]
  have "''.linux'' \<in> set UKI_MEASUREMENT_ORDER" by (simp add: UKI_MEASUREMENT_ORDER_def)
  with bound show "?w sha" unfolding Let_def by blast
qed

lemma rtmr3_binds_images_witness:
  "log_break (\<lambda>_. 0) [as_bytes ''a'', as_bytes ''b'']
     [sha384 (\<lambda>_. 0) (as_bytes ''a'')] [sha384 (\<lambda>_. 0) (as_bytes ''b'')]"
proof -
  have "compute_rtmr3_workloads (\<lambda>_. 0) [''a''] = compute_rtmr3_workloads (\<lambda>_. 0) [''b'']"
    by (simp add: compute_rtmr3_workloads_def sha384_def)
  from rtmr3_binds_images [OF this] show ?thesis by simp
qed

definition sample_fat :: "(unit, unit) fat_driver" where
  "sample_fat = \<lparr> fat_root = (\<lambda>_. Some ()), fat_open_dir = (\<lambda>_ _. Some ()),
     fat_open_file = (\<lambda>_ _. Some ()), fat_read_to_end = (\<lambda>_. Some (sample_pe 9 0 0 [])) \<rparr>"

lemma sample_bootloader:
  "read_esp_file sample_fat (sample_disk 0 0) FALLBACK_BOOTLOADER_PATH
     = Inr (sample_pe 9 0 0 [])"
proof -
  have lim: "(0 :: nat) < u64_limit" "(512 :: nat) < u64_limit" "(1152 :: nat) + 2 ^ 32 < u64_limit"
    by (simp_all add: u64_limit_def)
  have esp: "read_esp_file sample_fat (sample_disk 0 0) p
      = read_fat_file sample_fat (take 512 (sample_disk 0 0)) p" for p
    using lim sample_disk_found [OF lim(1) lim(1)]
    by (simp add: read_esp_file_def esp_slice_def sample_disk_facts ensure_def
        checked_arith_exec(1-5) subslice_or_panic_def subslice_def del: add_u64_eq mul_u64_eq)
  show ?thesis
    unfolding esp
    by (simp add: read_fat_file_def sample_fat_def FALLBACK_BOOTLOADER_PATH_def
        path_components_def)
qed

lemma sample_gpt_event: "\<exists>e. gpt_event (sample_disk 0 0) = Inr e"
proof -
  have lim: "(1152 :: nat) < u64_limit"
    by (simp add: u64_limit_def)
  have "\<exists>es. valid_gpt_entries (sample_disk 0 0) 1024 128 1 0 = Inr es"
    using lim by (simp add: valid_gpt_entries.simps sample_disk_facts checked_add_def checked_mul_def
        Let_def split: if_splits)
  then show ?thesis
    using lim by (auto simp: gpt_event_def sample_disk_facts checked_mul_def)
qed

lemma rtmr1_binds_boot_chain_witness:
  "\<exists>boot b u u'. authenticode_input boot = Inr b
    \<and> authenticode_input (sample_pe 9 0 0 []) = Inr u
    \<and> authenticode_input (sample_pe 9 0 0 []) = Inr u'"
proof -
  obtain e where e: "gpt_event (sample_disk 0 0) = Inr e" using sample_gpt_event by blast
  obtain r where "compute_rtmr1_uki (\<lambda>_. 0) sample_fat (sample_pe 9 0 0 []) []
      (Some (sample_disk 0 0)) = Inr r"
    by (simp add: compute_rtmr1_uki_def disk_events_def compute_gpt_event_hash_def e
        sample_bootloader authenticode_sha384_def sample_input)
  from rtmr1_binds_boot_chain [OF this this] show ?thesis by blast
qed

end
