(* ===== verification/Rtmr3Hook.thy ===== *)
theory Rtmr3Hook
  imports Rtmr
begin

text \<open>
  \<open>crates/rtmr3-hook/src/main.rs\<close>: the OCI \<open>createContainer\<close> hook of the guest, which measures the image
  of each workload container into RTMR[3] before the container starts.

  JSON values are modelled as the code inspects them; the parser (\<open>serde_json\<close>), the file system and
  the sysfs file that extends the register are parameters.  The lemmas relate the hook to the
  verifier's computation in \<open>Rtmr\<close>: both sides must agree byte for byte, and the hook must fail
  closed.
\<close>

section \<open>JSON values\<close>

datatype json =
    JNull
  | JBool bool
  | JNumber int
  | JString string
  | JArray "json list"
  | JObject "(string \<times> json) list"

text \<open>\<open>Value::get\<close> with a string key, \<open>Value::as_str\<close> and \<open>Value::is_object\<close>.\<close>

fun json_get :: "json \<Rightarrow> string \<Rightarrow> json option" where
  "json_get (JObject kvs) k = map_of kvs k"
| "json_get _ k = None"

fun json_str :: "json \<Rightarrow> string option" where
  "json_str (JString s) = Some s"
| "json_str _ = None"

fun json_is_object :: "json \<Rightarrow> bool" where
  "json_is_object (JObject _) = True"
| "json_is_object _ = False"

section \<open>The environment\<close>

record hook_env =
  parse_json :: "string \<Rightarrow> json option"
  read_file :: "string \<Rightarrow> string option"
  write_rtmr3 :: "bytes \<Rightarrow> bytes \<Rightarrow> bytes option"

datatype hook_error =
    BadStateJson
  | NoAnnotationsNoBundle
  | ReadConfig
  | BadConfigJson
  | MissingImageName
  | ImageNotPinned
  | ImageMalformed
  | ExtendFailed

section \<open>The hook\<close>

text \<open>Lines 73--84: the \<open>config.json\<close> of the bundle.\<close>

definition bundle_annotations :: "hook_env \<Rightarrow> json \<Rightarrow> hook_error fault + json" where
  "bundle_annotations env st =
     and_then (ok_or (Err NoAnnotationsNoBundle) (Option.bind (json_get st ''bundle'') json_str))
       (\<lambda>bundle.
     and_then (ok_or (Err ReadConfig) (read_file env (bundle @ ''/config.json''))) (\<lambda>cfg.
     and_then (ok_or (Err BadConfigJson) (parse_json env cfg)) (\<lambda>v.
     Inr (case json_get v ''annotations'' of None \<Rightarrow> JNull | Some a \<Rightarrow> a))))"

definition load_annotations :: "hook_env \<Rightarrow> json \<Rightarrow> hook_error fault + json" where
  "load_annotations env st =
     (case json_get st ''annotations'' of
        Some a \<Rightarrow> if json_is_object a then Inr a else bundle_annotations env st
      | None \<Rightarrow> bundle_annotations env st)"

definition annotation :: "json \<Rightarrow> string \<Rightarrow> string option" where
  "annotation anns k = Option.bind (json_get anns k) json_str"

definition workload_event_digest :: "(bytes \<Rightarrow> digest) \<Rightarrow> string \<Rightarrow> hook_error fault + bytes" where
  "workload_event_digest sha img =
     (let digest = (case split_once CHR ''@'' img of Some (_, d) \<Rightarrow> d | None \<Rightarrow> img) in
      and_then (ok_or (Err ImageNotPinned) (strip_prefix ''sha256:'' digest)) (\<lambda>hex.
      if length hex \<noteq> 64 \<or> \<not> list_all is_ascii_hexdigit hex then bail ImageMalformed
      else
        let canonical = ''sha256:'' @ to_ascii_lowercase hex in
        Inr (sha384 sha (as_bytes canonical))))"

text \<open>
  Lines 37--63: \<open>main\<close> on the standard input \<open>stdin\<close> with the register value \<open>reg\<close>; the result is the
  register after the hook.  Runtimes do not start a container whose hook fails.
\<close>

definition hook_main ::
  "(bytes \<Rightarrow> digest) \<Rightarrow> hook_env \<Rightarrow> bytes \<Rightarrow> string \<Rightarrow> hook_error fault + bytes" where
  "hook_main sha env reg stdin =
     and_then (ok_or (Err BadStateJson) (parse_json env stdin)) (\<lambda>st.
     and_then (load_annotations env st) (\<lambda>anns.
     if annotation anns ''io.kubernetes.cri.container-type'' \<noteq> Some ''container'' then Inr reg
     else
       and_then (ok_or (Err MissingImageName) (annotation anns ''io.kubernetes.cri.image-name''))
         (\<lambda>img.
       and_then (workload_event_digest sha img) (\<lambda>event_digest.
       ok_or (Err ExtendFailed) (write_rtmr3 env reg event_digest)))))"

text \<open>One container after the other; a failed hook leaves the register alone.\<close>

definition after_hook :: "(bytes \<Rightarrow> digest) \<Rightarrow> hook_env \<Rightarrow> bytes \<Rightarrow> string \<Rightarrow> bytes" where
  "after_hook sha env reg stdin =
     (case hook_main sha env reg stdin of Inr reg' \<Rightarrow> reg' | Inl _ \<Rightarrow> reg)"

definition run_hooks :: "(bytes \<Rightarrow> digest) \<Rightarrow> hook_env \<Rightarrow> bytes \<Rightarrow> string list \<Rightarrow> bytes" where
  "run_hooks sha env reg inputs = foldl (after_hook sha env) reg inputs"

section \<open>What the hook measures\<close>

text \<open>The image reference of a workload container, when the hook gets that far.\<close>

definition workload_image :: "hook_env \<Rightarrow> string \<Rightarrow> string option" where
  "workload_image env stdin =
     Option.bind (parse_json env stdin) (\<lambda>st.
       case load_annotations env st of
         Inl _ \<Rightarrow> None
       | Inr anns \<Rightarrow>
           if annotation anns ''io.kubernetes.cri.container-type'' = Some ''container''
           then annotation anns ''io.kubernetes.cri.image-name'' else None)"

definition measured_digests :: "hook_env \<Rightarrow> string \<Rightarrow> string list" where
  "measured_digests env stdin =
     (case workload_image env stdin of
        None \<Rightarrow> []
      | Some img \<Rightarrow> (case canonical_image_digest img of Inr c \<Rightarrow> [c] | Inl _ \<Rightarrow> []))"

text \<open>The kernel interface: a write of a digest extends the register.\<close>

definition extends_register :: "(bytes \<Rightarrow> digest) \<Rightarrow> hook_env \<Rightarrow> bool" where
  "extends_register sha env \<longleftrightarrow> (\<forall>reg ev. write_rtmr3 env reg ev = Some (rtmr_extend sha reg ev))"

lemma workload_event_Inr:
  "workload_event_digest sha img = Inr ev \<longleftrightarrow>
     (\<exists>c. canonical_image_digest img = Inr c \<and> ev = sha384 sha (as_bytes c))"
  by (auto simp: workload_event_digest_def canonical_image_digest_def Let_def)

lemma hook_main_Inr:
  "hook_main sha env reg stdin = Inr reg' \<longleftrightarrow>
     (\<exists>st anns. parse_json env stdin = Some st \<and> load_annotations env st = Inr anns
       \<and> (if annotation anns ''io.kubernetes.cri.container-type'' \<noteq> Some ''container'' then reg' = reg
          else \<exists>img c. annotation anns ''io.kubernetes.cri.image-name'' = Some img
            \<and> canonical_image_digest img = Inr c
            \<and> write_rtmr3 env reg (sha384 sha (as_bytes c)) = Some reg'))"
proof (cases "parse_json env stdin")
  case (Some st)
  show ?thesis
  proof (cases "load_annotations env st")
    case (Inr anns)
    then show ?thesis
      using Some by (auto simp: hook_main_def workload_event_Inr)
  qed (simp add: Some hook_main_def)
qed (simp add: hook_main_def)

lemma measured_digests_eq:
  "measured_digests env stdin = [c] \<longleftrightarrow>
     (\<exists>st anns img. parse_json env stdin = Some st \<and> load_annotations env st = Inr anns
       \<and> annotation anns ''io.kubernetes.cri.container-type'' = Some ''container''
       \<and> annotation anns ''io.kubernetes.cri.image-name'' = Some img
       \<and> canonical_image_digest img = Inr c)"
proof (cases "parse_json env stdin")
  case (Some st)
  show ?thesis
  proof (cases "load_annotations env st")
    case (Inr anns)
    then show ?thesis
      using Some
      by (auto simp: measured_digests_def workload_image_def split: option.splits sum.splits)
  qed (simp add: Some measured_digests_def workload_image_def)
qed (simp add: measured_digests_def workload_image_def)

lemma measured_digests_cases: "measured_digests env stdin = [] \<or> (\<exists>c. measured_digests env stdin = [c])"
  by (auto simp: measured_digests_def split: option.splits sum.splits)

lemma after_hook_extends:
  assumes dev: "extends_register sha env"
  shows "after_hook sha env reg stdin =
    foldl (rtmr_extend sha) reg (map (\<lambda>d. sha384 sha (as_bytes d)) (measured_digests env stdin))"
proof (cases "measured_digests env stdin = []")
  case False
  then obtain c where c: "measured_digests env stdin = [c]"
    using measured_digests_cases by blast
  then have "hook_main sha env reg stdin = Inr (rtmr_extend sha reg (sha384 sha (as_bytes c)))"
    using dev by (auto simp: measured_digests_eq hook_main_Inr extends_register_def)
  then show ?thesis using c by (simp add: after_hook_def)
next
  case True
  have "reg' = reg" if "hook_main sha env reg stdin = Inr reg'" for reg'
  proof -
    have "measured_digests env stdin \<noteq> [c]" for c using True by simp
    then show ?thesis
      using that unfolding hook_main_Inr measured_digests_eq by (auto split: if_splits)
  qed
  then show ?thesis using True by (auto simp: after_hook_def split: sum.splits)
qed

section \<open>Properties\<close>

text \<open>The refusals of the two programs, matched.\<close>

fun hook_refusal :: "image_error \<Rightarrow> hook_error" where
  "hook_refusal NotPinned = ImageNotPinned"
| "hook_refusal MalformedDigest = ImageMalformed"

text \<open>
  The guest hook and the verifier's tool compute the same event: \<open>workload_event_digest\<close> of an image
  reference is the SHA-384 of what \<open>canonical_image_digest\<close> returns for it, and refuses exactly the
  references that \<open>canonical_image_digest\<close> refuses.
\<close>

theorem hook_event_is_canonical:
  "workload_event_digest sha img =
     map_err hook_refusal (and_then (canonical_image_digest img) (\<lambda>c. Inr (sha384 sha (as_bytes c))))"
  by (auto simp: workload_event_digest_def canonical_image_digest_def Let_def ok_or_def ensure_def
      split: option.splits)

text \<open>
  C2. End to end: when the kernel interface extends the register, the value RTMR[3] holds after any sequence
  of container starts, whether their hooks succeed or not, is what \<open>compute_rtmr3_workloads\<close> predicts
  from the canonical digests of the images measured, in the order of the starts.
\<close>

theorem hooks_match_verifier:
  assumes "extends_register sha env"
  shows "run_hooks sha env (zeros 48) inputs =
    compute_rtmr3_workloads sha (concat (map (measured_digests env) inputs))"
proof -
  have "run_hooks sha env reg inputs = foldl (rtmr_extend sha) reg
      (map (\<lambda>d. sha384 sha (as_bytes d)) (concat (map (measured_digests env) inputs)))" for reg
    by (induction inputs arbitrary: reg)
      (simp_all add: run_hooks_def after_hook_extends [OF assms])
  then show ?thesis by (simp add: compute_rtmr3_workloads_def measure_log_def)
qed

text \<open>
  C16. Failing closed: a workload container can only start (its hook returns success) with an image that is
  pinned by digest, and then its digest has been extended into RTMR[3].
\<close>

theorem hook_fails_closed:
  assumes "parse_json env stdin = Some st" and "load_annotations env st = Inr anns"
    and "annotation anns ''io.kubernetes.cri.container-type'' = Some ''container''"
    and "hook_main sha env reg stdin = Inr reg'"
  shows "\<exists>img c. annotation anns ''io.kubernetes.cri.image-name'' = Some img
    \<and> canonical_image_digest img = Inr c
    \<and> write_rtmr3 env reg (sha384 sha (as_bytes c)) = Some reg'"
  using assms by (auto simp: hook_main_Inr)

section \<open>Witnesses\<close>

definition sample_hex :: string where
  "sample_hex = replicate 64 CHR ''A''"

definition sample_env :: "(bytes \<Rightarrow> digest) \<Rightarrow> hook_env" where
  "sample_env sha = \<lparr>
     parse_json = (\<lambda>s. Some (JObject [(''annotations'', JObject
       [(''io.kubernetes.cri.container-type'', JString ''container''),
        (''io.kubernetes.cri.image-name'', JString s)])])),
     read_file = (\<lambda>_. None),
     write_rtmr3 = (\<lambda>reg ev. Some (rtmr_extend sha reg ev)) \<rparr>"

lemma sample_canonical:
  "canonical_image_digest (''repo@sha256:'' @ sample_hex)
     = Inr (''sha256:'' @ replicate 64 CHR ''a'')"
proof -
  have "split_once CHR ''@'' (''repo@sha256:'' @ sample_hex) = Some (''repo'', ''sha256:'' @ sample_hex)"
    by simp
  moreover have "list_all is_ascii_hexdigit sample_hex"
    by (simp add: sample_hex_def list_all_length is_ascii_hexdigit_def)
  moreover have "ascii_lower CHR ''A'' = CHR ''a''"
    by (simp add: ascii_lower_def char_of_eq_iff take_bit_eq_mod)
  then have "to_ascii_lowercase sample_hex = replicate 64 CHR ''a''"
    by (simp add: sample_hex_def to_ascii_lowercase_def map_replicate)
  moreover have "length sample_hex = 64" by (simp add: sample_hex_def)
  ultimately show ?thesis
    by (simp add: canonical_image_digest_def ok_or_def strip_prefix_def del: split_once.simps)
qed

lemma sample_annotations:
  "load_annotations (sample_env sha) (JObject [(''annotations'', a)]) =
     (if json_is_object a then Inr a else bail NoAnnotationsNoBundle)"
  by (simp add: load_annotations_def bundle_annotations_def)

lemma sample_measured:
  "measured_digests (sample_env sha) (''repo@sha256:'' @ sample_hex)
     = [''sha256:'' @ replicate 64 CHR ''a'']"
  using sample_canonical
  by (simp add: measured_digests_def workload_image_def sample_env_def sample_annotations
      annotation_def load_annotations_def)

lemma hooks_match_verifier_witness:
  "\<forall>sha. run_hooks sha (sample_env sha) (zeros 48) [''repo@sha256:'' @ sample_hex, ''busybox:1.37'']
     = compute_rtmr3_workloads sha [''sha256:'' @ replicate 64 CHR ''a'']"
  (is "\<forall>sha. ?w sha")
proof (rule allI)
  fix sha
  have "extends_register sha (sample_env sha)"
    by (simp add: extends_register_def sample_env_def)
  moreover have "measured_digests (sample_env sha) ''busybox:1.37'' = []"
    by (simp add: measured_digests_def workload_image_def sample_env_def load_annotations_def
        annotation_def canonical_image_digest_def strip_prefix_def)
  ultimately show "?w sha"
    using hooks_match_verifier [of sha "sample_env sha"
        "[''repo@sha256:'' @ sample_hex, ''busybox:1.37'']"]
    by (simp add: sample_measured del: append.simps)
qed

lemma hook_fails_closed_witness:
  "\<forall>sha. \<exists>img c. img = ''repo@sha256:'' @ sample_hex \<and> canonical_image_digest img = Inr c
     \<and> write_rtmr3 (sample_env sha) (zeros 48) (sha384 sha (as_bytes c))
       = Some (rtmr_extend sha (zeros 48) (sha384 sha (as_bytes (''sha256:'' @ replicate 64 CHR ''a''))))"
  (is "\<forall>sha. ?w sha")
proof (rule allI)
  fix sha
  let ?img = "''repo@sha256:'' @ sample_hex"
  let ?anns = "JObject [(''io.kubernetes.cri.container-type'', JString ''container''),
        (''io.kubernetes.cri.image-name'', JString ?img)]"
  let ?reg = "rtmr_extend sha (zeros 48) (sha384 sha (as_bytes (''sha256:'' @ replicate 64 CHR ''a'')))"
  have 1: "parse_json (sample_env sha) ?img = Some (JObject [(''annotations'', ?anns)])"
    by (simp add: sample_env_def)
  have 2: "load_annotations (sample_env sha) (JObject [(''annotations'', ?anns)]) = Inr ?anns"
    by (simp add: sample_annotations)
  have 3: "annotation ?anns ''io.kubernetes.cri.container-type'' = Some ''container''"
    "annotation ?anns ''io.kubernetes.cri.image-name'' = Some ?img"
    by (simp_all add: annotation_def)
  have "workload_event_digest sha ?img = Inr (sha384 sha (as_bytes (''sha256:'' @ replicate 64 CHR ''a'')))"
    unfolding workload_event_Inr using sample_canonical by blast
  moreover have "write_rtmr3 (sample_env sha) r e = Some (rtmr_extend sha r e)" for r e
    by (simp add: sample_env_def)
  ultimately have "hook_main sha (sample_env sha) (zeros 48) ?img = Inr ?reg"
    using 1 2 3 by (simp add: hook_main_def del: append.simps)
  from hook_fails_closed [OF 1 2 3(1) this] show "?w sha"
    using 3(2) by auto
qed

end
