(* ===== verification/Ccel.thy ===== *)
theory Ccel
  imports Rtmr
begin

text \<open>
  \<open>crates/tdx-measure/src/ccel.rs\<close>: parsing the CC event log that the firmware leaves in an ACPI table,
  replaying it into the four RTMRs, and reading the RTMRs of a TDREPORT.

  The log is untrusted input.  \<open>ccel_record\<close> reads one record, \<open>parse_records\<close> is the loop; the offset
  grows with every record, which is the termination argument.  Offsets are at most \<open>2 ^ 32 + 20\<close> beyond
  the length of a slice, so their additions cannot overflow.
\<close>

section \<open>Data\<close>

definition MAX_DIGEST_ALGORITHMS :: nat where "MAX_DIGEST_ALGORITHMS = 16"

definition MAX_EVENTS :: nat where "MAX_EVENTS = 10000"

record ccel_event =
  mr_index :: nat
  event_type :: nat
  sha384_digest :: bytes
  event_data :: bytes

datatype ccel_error =
    CcelTooShort
  | InvalidSpecIdEvent nat
  | SpecIdSizeOverflow
  | SpecIdBeyondData
  | UnreasonableDigestCount nat nat
  | UnknownAlgorithm nat nat
  | TooManyEvents
  | LogTruncated nat nat
  | BadReportSize nat

section \<open>One record\<close>

definition digest_size :: "nat \<Rightarrow> nat option" where
  "digest_size algo =
     (if algo = 0x000C then Some 48 else if algo = 0x000B then Some 32
      else if algo = 0x0004 then Some 20 else None)"

text \<open>
  Lines 114--148: \<open>n\<close> digests from \<open>pos\<close> on.  \<open>None\<close> stands for \<open>digest_parse_ok == false\<close>; otherwise the
  last SHA-384 digest and the position behind the digests.
\<close>

fun read_digests :: "bytes \<Rightarrow> nat \<Rightarrow> nat \<Rightarrow> nat \<Rightarrow> bytes \<Rightarrow> ccel_error fault + (bytes \<times> nat) option" where
  "read_digests data offset 0 pos sha = Inr (Some (sha, pos))"
| "read_digests data offset (Suc n) pos sha =
     (if length data < pos + 2 then Inr None
      else
        let algo = u16_at data pos; pos = pos + 2 in
        case digest_size algo of
          None \<Rightarrow> bail (UnknownAlgorithm algo offset)
        | Some sz \<Rightarrow>
            if length data < pos + sz then Inr None
            else read_digests data offset n (pos + sz)
              (if algo = 0x000C then subslice data pos (pos + sz) else sha))"

datatype ccel_item = Truncated | Terminator | Item ccel_event nat

text \<open>Lines 154--192: size and data of an event whose digests end at \<open>pos\<close>.\<close>

definition ccel_tail :: "bytes \<Rightarrow> nat \<Rightarrow> nat \<Rightarrow> bytes \<Rightarrow> nat \<Rightarrow> ccel_item" where
  "ccel_tail data mr etype sha pos =
     (if length data < pos + 4 then Truncated
      else
        let n = u32_at data pos; pos = pos + 4 in
        if length data < pos + n then Truncated
        else if etype = 0 \<and> mr = 0 \<and> n = 0 then Terminator
        else Item \<lparr> mr_index = mr, event_type = etype, sha384_digest = sha,
          event_data = subslice data pos (pos + n) \<rparr> (pos + n))"

text \<open>Lines 71--192: the record at \<open>offset\<close>; an \<open>Item\<close> carries the offset of the next record.\<close>

definition ccel_record :: "bytes \<Rightarrow> nat \<Rightarrow> ccel_error fault + ccel_item" where
  "ccel_record data offset =
     (if length data < offset + 8 then Inr Truncated
      else
        let mr = u32_at data offset in
        if mr = 0xFFFFFFFF then Inr Terminator
        else
          let etype = u32_at data (offset + 4); pos = offset + 8 in
          if length data < pos + 4 then Inr Truncated
          else
            let digest_count = u32_at data pos; pos = pos + 4 in
            if MAX_DIGEST_ALGORITHMS < digest_count
            then bail (UnreasonableDigestCount digest_count offset)
            else
              and_then (read_digests data offset digest_count pos []) (\<lambda>digests.
              Inr (case digests of
                None \<Rightarrow> Truncated
              | Some (sha, pos) \<Rightarrow> ccel_tail data mr etype sha pos)))"

lemma read_digests_Some:
  "read_digests data off n pos s = Inr (Some (sha, pos')) \<Longrightarrow>
     pos \<le> pos' \<and> (sha = s \<or> length sha = 48)"
  by (induction n arbitrary: pos s)
    (fastforce simp: Let_def digest_size_def split: if_splits option.splits)+

lemma read_digests_no_panic [simp]: "read_digests data off n pos s \<noteq> panic"
  by (induction n arbitrary: pos s) (auto simp: Let_def split: option.splits)

lemma ccel_tail_Item:
  "ccel_tail data mr etype sha pos = Item ev next' \<Longrightarrow>
     pos < next' \<and> next' \<le> length data \<and> mr_index ev = mr \<and> event_type ev = etype
     \<and> sha384_digest ev = sha"
  by (auto simp: ccel_tail_def Let_def split: if_splits)

lemma ccel_record_Item:
  assumes "ccel_record data offset = Inr (Item ev next')"
  shows "offset < next' \<and> next' \<le> length data \<and> mr_index ev \<noteq> 0xFFFFFFFF
    \<and> (sha384_digest ev = [] \<or> length (sha384_digest ev) = 48)"
proof -
  obtain sha pos where
    "read_digests data offset (u32_at data (offset + 8)) (offset + 8 + 4) [] = Inr (Some (sha, pos))"
    and "ccel_tail data (u32_at data offset) (u32_at data (offset + 4)) sha pos = Item ev next'"
    and "u32_at data offset \<noteq> 0xFFFFFFFF"
    using assms by (auto simp: ccel_record_def Let_def split: if_splits option.splits)
  then show ?thesis
    by (auto dest!: read_digests_Some ccel_tail_Item)
qed

lemma ccel_record_no_panic [simp]: "ccel_record data offset \<noteq> panic"
  by (auto simp: ccel_record_def Let_def and_then_eq_Inl)

section \<open>The log\<close>

function parse_records ::
  "bytes \<Rightarrow> nat \<Rightarrow> ccel_event list \<Rightarrow> ccel_error fault + ccel_event list \<times> nat \<times> bool" where
  "parse_records data offset events =
     (if length data \<le> offset then Inr (events, offset, False)
      else
        and_then (ccel_record data offset) (\<lambda>item.
        case item of
          Truncated \<Rightarrow> Inr (events, offset, False)
        | Terminator \<Rightarrow> Inr (events, offset, True)
        | Item ev next' \<Rightarrow>
            if sha384_digest ev \<noteq> [] then
              if MAX_EVENTS \<le> length events then bail TooManyEvents
              else parse_records data next' (events @ [ev])
            else parse_records data next' events))"
  by pat_completeness auto
termination
  by (relation "measure (\<lambda>(data, offset, events). length data - offset)")
    (auto dest: ccel_record_Item)

declare parse_records.simps [simp del]

definition parse_ccel :: "bytes \<Rightarrow> ccel_error fault + ccel_event list" where
  "parse_ccel data =
     and_then (ensure (32 \<le> length data) (Err CcelTooShort)) (\<lambda>_.
     and_then (ensure (u32_at data 4 = 3) (Err (InvalidSpecIdEvent (u32_at data 4)))) (\<lambda>_.
     and_then (ok_or (Err SpecIdSizeOverflow) (checked_add 32 (u32_at data 28))) (\<lambda>offset.
     and_then (ensure (offset \<le> length data) (Err SpecIdBeyondData)) (\<lambda>_.
     and_then (parse_records data offset []) (\<lambda>(events, offset, terminated).
     if \<not> terminated \<and> offset < length data then bail (LogTruncated offset (length events))
     else Inr events)))))"

section \<open>Replay\<close>

definition rtmr_index :: "nat \<Rightarrow> nat option" where
  "rtmr_index mr =
     (if mr = 1 then Some 0 else if mr = 2 then Some 1 else if mr = 3 then Some 2
      else if mr = 4 then Some 3 else None)"

definition replay_event :: "(bytes \<Rightarrow> digest) \<Rightarrow> bytes list \<Rightarrow> ccel_event \<Rightarrow> bytes list" where
  "replay_event sha rtmrs event =
     (case rtmr_index (mr_index event) of
        None \<Rightarrow> rtmrs
      | Some idx \<Rightarrow> rtmrs[idx := sha384 sha (rtmrs ! idx @ sha384_digest event)])"

definition replay_rtmrs :: "(bytes \<Rightarrow> digest) \<Rightarrow> ccel_event list \<Rightarrow> bytes list" where
  "replay_rtmrs sha events =
     foldl (replay_event sha) [zeros 48, zeros 48, zeros 48, zeros 48] events"

section \<open>TDREPORT and UEFI variables\<close>

definition extract_rtmrs_from_tdreport :: "bytes \<Rightarrow> ccel_error fault + bytes list" where
  "extract_rtmrs_from_tdreport report =
     and_then (ensure (length report = 1024) (Err (BadReportSize (length report)))) (\<lambda>_.
     let base = 256 + (16 + 48 + 48 + 8 + 8 + 8 + 48 + 48 + 48 + 48) in
     Inr (map (\<lambda>off. subslice report off (off + 48)) [base, base + 48, base + 2 * 48, base + 3 * 48]))"

definition digests_equal :: "bytes \<Rightarrow> bytes \<Rightarrow> bool" where
  "digests_equal a b \<longleftrightarrow> a = b"

text \<open>\<open>char::from_u32\<close> of a UTF-16 unit: no character for a surrogate.  The name is a list of code points.\<close>

definition char_from_u32 :: "nat \<Rightarrow> nat option" where
  "char_from_u32 n = (if 0xD800 \<le> n \<and> n < 0xE000 \<or> 0x110000 \<le> n then None else Some n)"

fun name_chars :: "bytes \<Rightarrow> nat list" where
  "name_chars (a # b # rest) =
     (case char_from_u32 (le_nat [a, b]) of None \<Rightarrow> name_chars rest | Some c \<Rightarrow> c # name_chars rest)"
| "name_chars _ = []"

definition parse_uefi_variable_data :: "bytes \<Rightarrow> (nat list \<times> bytes) option" where
  "parse_uefi_variable_data d =
     (if length d < 32 then None
      else
        let name_len = u64_at d 16; data_len = u64_at d 24 in
        Option.bind (checked_mul name_len 2) (\<lambda>n2.
        Option.bind (checked_add 32 n2) (\<lambda>name_end.
        Option.bind (checked_add name_end data_len) (\<lambda>data_end.
        if length d < data_end \<or> length d < name_end then None
        else Some (name_chars (subslice d 32 name_end), subslice d name_end data_end)))))"

definition event_type_name :: "nat \<Rightarrow> string" where
  "event_type_name etype =
     (if etype = 0x00000000 then ''EV_PREBOOT_CERT''
      else if etype = 0x00000001 then ''EV_POST_CODE''
      else if etype = 0x00000003 then ''EV_NO_ACTION''
      else if etype = 0x00000004 then ''EV_SEPARATOR''
      else if etype = 0x00000005 then ''EV_ACTION''
      else if etype = 0x00000006 then ''EV_EVENT_TAG''
      else if etype = 0x0000000A then ''EV_PLATFORM_CONFIG_FLAGS''
      else if etype = 0x0000000D then ''EV_IPL''
      else if etype = 0x80000001 then ''EV_EFI_VARIABLE_DRIVER_CONFIG''
      else if etype = 0x80000002 then ''EV_EFI_VARIABLE_BOOT''
      else if etype = 0x80000003 then ''EV_EFI_BOOT_SERVICES_APPLICATION''
      else if etype = 0x80000004 then ''EV_EFI_BOOT_SERVICES_DRIVER''
      else if etype = 0x80000005 then ''EV_EFI_RUNTIME_SERVICES_DRIVER''
      else if etype = 0x80000006 then ''EV_EFI_GPT_EVENT''
      else if etype = 0x80000007 then ''EV_EFI_ACTION''
      else if etype = 0x8000000E then ''EV_EFI_SPDM_FIRMWARE_BLOB''
      else if etype = 0x80000010 then ''EV_EFI_HCRTM_EVENT''
      else ''EV_UNKNOWN'')"

section \<open>Facts about the loop\<close>

lemma parse_records_facts:
  "parse_records data offset events \<noteq> panic"
  "parse_records data offset events = Inr (evs, offset', t) \<Longrightarrow>
     length events \<le> MAX_EVENTS \<Longrightarrow> list_all P events \<Longrightarrow>
     (\<And>ev o' n. ccel_record data o' = Inr (Item ev n) \<Longrightarrow> sha384_digest ev \<noteq> [] \<Longrightarrow> P ev) \<Longrightarrow>
     length evs \<le> MAX_EVENTS \<and> list_all P evs"
proof (induction data offset events rule: parse_records.induct)
  case (1 data offset events)
  {
    case 1
    then show ?case
      using "1.IH"(1,3)
      by (subst parse_records.simps)
        (auto simp: and_then_eq_Inl split: ccel_item.splits)
  next
    case 2
    show ?case
    proof (cases "length data \<le> offset")
      case True
      then show ?thesis using 2 by (subst (asm) parse_records.simps) auto
    next
      case False
      obtain item where item: "ccel_record data offset = Inr item"
        using 2(1) False by (subst (asm) parse_records.simps) auto
      show ?thesis
      proof (cases item)
        case (Item ev n)
        show ?thesis
        proof (cases "sha384_digest ev = []")
          case True
          then have "parse_records data n events = Inr (evs, offset', t)"
            using 2(1) False item Item by (subst (asm) parse_records.simps) auto
          then show ?thesis using "1.IH"(4) [OF False item Item] True 2(2-4) by simp
        next
          case no: False
          then have "parse_records data n (events @ [ev]) = Inr (evs, offset', t)"
            "length events < MAX_EVENTS"
            using 2(1) False item Item
            by (subst (asm) parse_records.simps, auto split: if_splits)+
          then show ?thesis
            using "1.IH"(2) [OF False item Item no] 2(2-4) item Item no by simp
        qed
      qed (use 2 False item in \<open>subst (asm) parse_records.simps, auto\<close>)+
    qed
  }
qed

section \<open>The encoding of a log\<close>

text \<open>
  The TCG2 format, as a specification of the parser: a record with several digests, of which the
  program keeps the last SHA-384 one.
\<close>

record raw_event =
  raw_mr :: nat
  raw_type :: nat
  raw_digests :: "(nat \<times> bytes) list"
  raw_data :: bytes

definition encode_digest :: "nat \<times> bytes \<Rightarrow> bytes" where
  "encode_digest x = le_bytes 2 (fst x) @ snd x"

definition encode_digests :: "(nat \<times> bytes) list \<Rightarrow> bytes" where
  "encode_digests ds = concat (map encode_digest ds)"

definition encode_event :: "raw_event \<Rightarrow> bytes" where
  "encode_event e =
     le_bytes 4 (raw_mr e) @ le_bytes 4 (raw_type e) @ le_bytes 4 (length (raw_digests e))
       @ encode_digests (raw_digests e) @ le_bytes 4 (length (raw_data e)) @ raw_data e"

definition encode_header :: "bytes \<Rightarrow> bytes \<Rightarrow> bytes \<Rightarrow> bytes" where
  "encode_header pcr hdr spec =
     pcr @ le_bytes 4 3 @ hdr @ le_bytes 4 (length spec) @ spec"

definition valid_digest :: "nat \<times> bytes \<Rightarrow> bool" where
  "valid_digest x \<longleftrightarrow> digest_size (fst x) = Some (length (snd x))"

definition valid_raw :: "raw_event \<Rightarrow> bool" where
  "valid_raw e \<longleftrightarrow> raw_mr e < 0xFFFFFFFF \<and> raw_type e < 2 ^ 32
     \<and> length (raw_digests e) \<le> MAX_DIGEST_ALGORITHMS \<and> list_all valid_digest (raw_digests e)
     \<and> length (raw_data e) < 2 ^ 32
     \<and> (raw_mr e \<noteq> 0 \<or> raw_type e \<noteq> 0 \<or> raw_data e \<noteq> [])"

definition valid_header :: "bytes \<Rightarrow> bytes \<Rightarrow> bytes \<Rightarrow> bool" where
  "valid_header pcr hdr spec \<longleftrightarrow> length pcr = 4 \<and> length hdr = 20 \<and> length spec < 2 ^ 32"

definition kept_digest :: "bytes \<Rightarrow> (nat \<times> bytes) list \<Rightarrow> bytes" where
  "kept_digest s ds = foldl (\<lambda>s x. if fst x = 0x000C then snd x else s) s ds"

definition decoded :: "raw_event \<Rightarrow> ccel_event" where
  "decoded e = \<lparr> mr_index = raw_mr e, event_type = raw_type e,
     sha384_digest = kept_digest [] (raw_digests e), event_data = raw_data e \<rparr>"

text \<open>The events the program keeps of a list of records.\<close>

definition kept :: "raw_event list \<Rightarrow> ccel_event list" where
  "kept es = filter (\<lambda>ev. sha384_digest ev \<noteq> []) (map decoded es)"

lemma digest_size_lt: "digest_size a = Some n \<Longrightarrow> a < 2 ^ 16"
  by (auto simp: digest_size_def split: if_splits)

lemma read_digests_encoded:
  "list_all valid_digest ds \<Longrightarrow>
     read_digests (pre @ encode_digests ds @ post) off (length ds) (length pre) s
       = Inr (Some (kept_digest s ds, length pre + length (encode_digests ds)))"
proof (induction ds arbitrary: pre s)
  case (Cons x ds)
  let ?d = "pre @ encode_digests (x # ds) @ post"
  have split: "?d = pre @ le_bytes 2 (fst x) @ snd x @ encode_digests ds @ post"
    by (simp add: encode_digests_def encode_digest_def)
  have size: "digest_size (fst x) = Some (length (snd x))" "fst x < 2 ^ 16"
    using Cons.prems digest_size_lt by (auto simp: valid_digest_def)
  have algo: "u16_at ?d (length pre) = fst x"
    unfolding split by (rule u16_at_written) (use size in auto)
  have value_: "subslice ?d (length pre + 2) (length pre + 2 + length (snd x)) = snd x"
    unfolding split by (simp add: subslice_def)
  have rest: "read_digests ?d off (length ds) (length pre + 2 + length (snd x)) t
      = Inr (Some (kept_digest t ds,
          length pre + 2 + length (snd x) + length (encode_digests ds)))" for t
    using Cons.IH [of "pre @ le_bytes 2 (fst x) @ snd x" t] Cons.prems split by simp
  have len: "length pre + 2 + length (snd x) \<le> length ?d"
    unfolding split by simp
  have tot: "length (encode_digests (x # ds)) = 2 + length (snd x) + length (encode_digests ds)"
    by (simp add: encode_digests_def encode_digest_def)
  show ?case
    using size algo value_ rest len
    by (simp add: Let_def tot kept_digest_def add.assoc del: append.simps append_assoc)
qed (simp add: encode_digests_def kept_digest_def)

lemma ccel_record_encoded:
  assumes "valid_raw e"
  shows "ccel_record (pre @ encode_event e @ post) (length pre)
    = Inr (Item (decoded e) (length pre + length (encode_event e)))"
proof -
  let ?d = "pre @ encode_event e @ post" and ?ds = "raw_digests e"
  let ?p = "length pre" and ?q = "length pre + 12 + length (encode_digests (raw_digests e))"
  have d: "?d = pre @ le_bytes 4 (raw_mr e) @ le_bytes 4 (raw_type e) @ le_bytes 4 (length ?ds)
      @ encode_digests ?ds @ le_bytes 4 (length (raw_data e)) @ raw_data e @ post"
    by (simp add: encode_event_def)
  note v = assms [unfolded valid_raw_def MAX_DIGEST_ALGORITHMS_def]
  have f1: "u32_at ?d ?p = raw_mr e"
    unfolding d by (rule u32_at_written) (use v in auto)
  have f2: "u32_at ?d (?p + 4) = raw_type e"
    using u32_at_written [of "raw_type e" "?p + 4" "pre @ le_bytes 4 (raw_mr e)"] v
    unfolding d by simp
  have f3: "u32_at ?d (?p + 8) = length ?ds"
    using u32_at_written [of "length ?ds" "?p + 8"
        "pre @ le_bytes 4 (raw_mr e) @ le_bytes 4 (raw_type e)"] v
    unfolding d by simp
  have f4: "u32_at ?d ?q = length (raw_data e)"
    using u32_at_written [of "length (raw_data e)" ?q "pre @ le_bytes 4 (raw_mr e)
        @ le_bytes 4 (raw_type e) @ le_bytes 4 (length ?ds) @ encode_digests ?ds"] v
    unfolding d by simp
  have digests: "read_digests ?d ?p (length ?ds) (?p + 12) []
      = Inr (Some (kept_digest [] ?ds, ?q))"
    using read_digests_encoded [of ?ds "pre @ le_bytes 4 (raw_mr e) @ le_bytes 4 (raw_type e)
        @ le_bytes 4 (length ?ds)" "le_bytes 4 (length (raw_data e)) @ raw_data e @ post" ?p "[]"] v
    unfolding d by (simp add: add.assoc add.commute)
  have data: "subslice ?d (?q + 4) (?q + 4 + length (raw_data e)) = raw_data e"
    unfolding d by (simp add: subslice_def)
  have len: "?q + 4 + length (raw_data e) \<le> length ?d"
    and size: "length (encode_event e) = 16 + length (encode_digests ?ds) + length (raw_data e)"
    unfolding d by (simp_all add: encode_event_def)
  have "ccel_tail ?d (raw_mr e) (raw_type e) (kept_digest [] ?ds) ?q
      = Item (decoded e) (?p + length (encode_event e))"
    using f4 data len v size by (auto simp: ccel_tail_def Let_def decoded_def)
  then show ?thesis
    using f1 f2 f3 digests len v
    by (simp add: ccel_record_def Let_def MAX_DIGEST_ALGORITHMS_def add.assoc del: length_append)
qed

lemma parse_records_encoded:
  assumes "list_all valid_raw es" and "length acc + length (kept es) \<le> MAX_EVENTS"
  shows "parse_records (pre @ concat (map encode_event es) @ post) (length pre) acc
    = parse_records (pre @ concat (map encode_event es) @ post)
        (length pre + length (concat (map encode_event es))) (acc @ kept es)"
  using assms
proof (induction es arbitrary: pre acc)
  case (Cons e es)
  let ?d = "pre @ concat (map encode_event (e # es)) @ post"
  let ?n = "length pre + length (encode_event e)"
  have rec: "ccel_record ?d (length pre) = Inr (Item (decoded e) ?n)"
    using ccel_record_encoded [of e pre "concat (map encode_event es) @ post"] Cons.prems by simp
  have more: "encode_event e \<noteq> []"
    by (rule notI, drule arg_cong [of _ _ length]) (simp add: encode_event_def)
  let ?acc = "if sha384_digest (decoded e) \<noteq> [] then acc @ [decoded e] else acc"
  have kept: "acc @ kept (e # es) = ?acc @ kept es" by (simp add: kept_def)
  have room: "sha384_digest (decoded e) \<noteq> [] \<Longrightarrow> length acc < MAX_EVENTS"
    and total: "length ?acc + length (kept es) \<le> MAX_EVENTS"
    using Cons.prems(2) by (auto simp: kept_def)
  have "parse_records ?d (length pre) acc = parse_records ?d ?n ?acc"
    using rec more room by (subst parse_records.simps) (auto simp: not_le)
  also have "\<dots> = parse_records ?d (?n + length (concat (map encode_event es))) (?acc @ kept es)"
    using Cons.IH [of ?acc "pre @ encode_event e"] Cons.prems(1) total by simp
  finally show ?case unfolding kept by (simp add: add.assoc)
qed (simp add: kept_def)

lemma parse_ccel_encoded:
  assumes "valid_header pcr hdr spec" and "list_all valid_raw es"
    and "length (kept es) \<le> MAX_EVENTS"
    and "pre = encode_header pcr hdr spec @ concat (map encode_event es)"
  shows "parse_ccel (pre @ tail) =
    and_then (parse_records (pre @ tail) (length pre) (kept es)) (\<lambda>(events, offset, terminated).
      if \<not> terminated \<and> offset < length (pre @ tail) then bail (LogTruncated offset (length events))
      else Inr events)"
proof -
  let ?d = "pre @ tail" and ?h = "encode_header pcr hdr spec"
  have d: "?d = pcr @ le_bytes 4 3 @ hdr @ le_bytes 4 (length spec)
      @ spec @ concat (map encode_event es) @ tail"
    by (simp add: assms(4) encode_header_def)
  note v = assms(1) [unfolded valid_header_def]
  have f1: "u32_at ?d 4 = 3"
    unfolding d by (rule u32_at_written) (use v in auto)
  have f2: "u32_at ?d 28 = length spec"
    using u32_at_written [of "length spec" 28 "pcr @ le_bytes 4 3 @ hdr"] v unfolding d by simp
  have len: "length ?h = 32 + length spec" using v by (simp add: encode_header_def)
  have "parse_records ?d (length ?h) [] = parse_records ?d (length pre) (kept es)"
    using parse_records_encoded [of es "[]" ?h tail] assms(2,3) unfolding assms(4) by simp
  moreover have "checked_add 32 (length spec) = Some (length ?h)"
    using v len by (simp add: u64_limit_def)
  moreover have "length ?h \<le> length ?d" "32 \<le> length ?d" using len assms(4) by simp_all
  ultimately show ?thesis
    using f1 f2 by (simp add: parse_ccel_def del: length_append checked_add_eq)
qed

text \<open>What may follow the records of a complete log.\<close>

definition ends_log :: "bytes \<Rightarrow> bool" where
  "ends_log t \<longleftrightarrow> t = [] \<or> (\<exists>pad. t = le_bytes 4 0xFFFFFFFF @ pad \<and> 4 \<le> length pad)
     \<or> (\<exists>ds rest. t = encode_event \<lparr> raw_mr = 0, raw_type = 0, raw_digests = ds, raw_data = [] \<rparr> @ rest
         \<and> length ds \<le> MAX_DIGEST_ALGORITHMS \<and> list_all valid_digest ds)"

lemma ends_log_terminates:
  assumes "ends_log t"
  shows "parse_records (pre @ t) (length pre) acc = Inr (acc, length pre, t \<noteq> [])"
proof -
  consider "t = []" | pad where "t = le_bytes 4 0xFFFFFFFF @ pad" "4 \<le> length pad"
    | ds rest where "t = encode_event \<lparr> raw_mr = 0, raw_type = 0, raw_digests = ds, raw_data = [] \<rparr> @ rest"
        "length ds \<le> MAX_DIGEST_ALGORITHMS" "list_all valid_digest ds"
    using assms unfolding ends_log_def by blast
  then show ?thesis
  proof cases
    case 1
    then show ?thesis by (simp add: parse_records.simps)
  next
    case 2
    have "u32_at (pre @ le_bytes 4 0xFFFFFFFF @ pad) (length pre) = 0xFFFFFFFF"
      by (rule u32_at_written) simp_all
    then show ?thesis
      using 2 by (subst parse_records.simps) (auto simp: ccel_record_def)
  next
    case (3 ds rest)
    let ?pre = "pre @ le_bytes 4 0 @ le_bytes 4 0 @ le_bytes 4 (length ds)"
    let ?q = "length pre + 12 + length (encode_digests ds)"
    have d: "pre @ t = ?pre @ encode_digests ds @ le_bytes 4 0 @ rest"
      by (simp add: 3(1) encode_event_def)
    have digests: "read_digests (pre @ t) (length pre) (length ds) (length pre + 12) []
        = Inr (Some (kept_digest [] ds, ?q))"
      using read_digests_encoded [OF 3(3), of ?pre "le_bytes 4 0 @ rest" "length pre" "[]"]
      unfolding d by (simp add: add.assoc add.commute)
    have f: "u32_at (pre @ t) (length pre) = 0" "u32_at (pre @ t) (length pre + 4) = 0"
      "u32_at (pre @ t) (length pre + 8) = length ds" "u32_at (pre @ t) ?q = 0"
      using u32_at_written [of 0 "length pre" pre]
        u32_at_written [of 0 "length pre + 4" "pre @ le_bytes 4 0"]
        u32_at_written [of "length ds" "length pre + 8" "pre @ le_bytes 4 0 @ le_bytes 4 0"]
        u32_at_written [of 0 ?q "?pre @ encode_digests ds"] 3(2)
      unfolding d by (simp_all add: MAX_DIGEST_ALGORITHMS_def)
    have len: "?q + 4 \<le> length (pre @ t)" unfolding d by simp
    have tail: "ccel_tail (pre @ t) 0 0 s ?q = Terminator" for s
      using f(4) len by (simp add: ccel_tail_def)
    have "ccel_record (pre @ t) (length pre) = Inr Terminator"
      using f(1-3) digests len 3(2) tail
      by (simp add: ccel_record_def Let_def add.assoc del: length_append)
    moreover have "t \<noteq> []"
      by (rule notI, drule arg_cong [of _ _ length]) (simp add: 3(1) encode_event_def)
    ultimately show ?thesis by (subst parse_records.simps) simp
  qed
qed

text \<open>A record that is cut anywhere is recognised as truncated.\<close>

lemma read_digests_take:
  assumes "m \<le> length d"
  shows "read_digests d off n pos s = Inr (Some (sha, pos')) \<Longrightarrow> pos \<le> m \<Longrightarrow>
    read_digests (take m d) off n pos s = Inr (if pos' \<le> m then Some (sha, pos') else None)"
proof (induction n arbitrary: pos s)
  case (Suc n)
  then obtain sz where sz: "pos + 2 \<le> length d" "digest_size (u16_at d pos) = Some sz"
      "pos + 2 + sz \<le> length d"
      "read_digests d off n (pos + 2 + sz)
        (if u16_at d pos = 0x000C then subslice d (pos + 2) (pos + 2 + sz) else s) = Inr (Some (sha, pos'))"
    by (auto simp: Let_def not_less split: if_splits option.splits)
  have le: "pos + 2 + sz \<le> pos'" using read_digests_Some [OF sz(4)] by simp
  consider "m < pos + 2" | "pos + 2 \<le> m" "m < pos + 2 + sz" | "pos + 2 + sz \<le> m" by linarith
  then show ?case
  proof cases
    case 3
    then have f: "u16_at (take m d) pos = u16_at d pos"
      "subslice (take m d) (pos + 2) (pos + 2 + sz) = subslice d (pos + 2) (pos + 2 + sz)"
      by (simp_all add: field_at_take subslice_take)
    have rec: "read_digests (take m d) off (Suc n) pos s = read_digests (take m d) off n (pos + 2 + sz)
        (if u16_at d pos = 0x000C then subslice d (pos + 2) (pos + 2 + sz) else s)"
      using 3 sz(1-3) f assms
      by (cases "u16_at d pos = 0x000C") (simp_all add: Let_def not_less)
    show ?thesis unfolding rec by (rule Suc.IH [OF sz(4) 3])
  qed (use sz le assms in \<open>simp_all add: Let_def min_def field_at_take\<close>)
qed simp

lemma ccel_record_take:
  assumes "ccel_record d off = Inr (Item ev next')" and "m < next'"
  shows "ccel_record (take m d) off = Inr Truncated"
proof -
  obtain sha pos where r: "\<not> length d < off + 12" "u32_at d off \<noteq> 0xFFFFFFFF"
      "u32_at d (off + 8) \<le> MAX_DIGEST_ALGORITHMS"
      "read_digests d off (u32_at d (off + 8)) (off + 12) [] = Inr (Some (sha, pos))"
    and t: "ccel_tail d (u32_at d off) (u32_at d (off + 4)) sha pos = Item ev next'"
    using assms(1)
    by (auto simp: ccel_record_def Let_def add.commute split: if_splits option.splits)
  have n: "pos + 4 \<le> length d" "pos + 4 + u32_at d pos \<le> length d" "next' = pos + 4 + u32_at d pos"
    using t by (auto simp: ccel_tail_def Let_def split: if_splits)
  have m: "m \<le> length d" using assms(2) n by simp
  consider "m < off + 8" | "off + 8 \<le> m" "m < off + 12" | "off + 12 \<le> m" by linarith
  then show ?thesis
  proof cases
    case 3
    have "ccel_tail (take m d) mr ty sha pos = Truncated" if "pos \<le> m" for mr ty
      using n assms(2) m by (simp add: ccel_tail_def Let_def field_at_take)
    then show ?thesis
      using 3 r read_digests_take [OF m r(4) 3] m
      by (simp add: ccel_record_def Let_def field_at_take add.commute)
  qed (use r m in \<open>simp_all add: ccel_record_def Let_def field_at_take add.commute\<close>)
qed

lemma parse_ccel_no_panic: "parse_ccel data \<noteq> panic"
  by (auto simp: parse_ccel_def and_then_eq_Inl parse_records_facts(1) split: if_splits)

lemma parse_ccel_events_ok:
  assumes "parse_ccel data = Inr evs"
  shows "length evs \<le> MAX_EVENTS
    \<and> list_all (\<lambda>ev. length (sha384_digest ev) = 48 \<and> mr_index ev \<noteq> 0xFFFFFFFF) evs"
proof -
  have "length evs' \<le> MAX_EVENTS
      \<and> list_all (\<lambda>ev. length (sha384_digest ev) = 48 \<and> mr_index ev \<noteq> 0xFFFFFFFF) evs'"
    if "parse_records data off [] = Inr (evs', o', t)" for off o' t evs'
    by (rule parse_records_facts(2) [OF that]) (auto dest!: ccel_record_Item)
  then show ?thesis using assms by (auto simp: parse_ccel_def split: if_splits)
qed

lemma replay_nth:
  "length rs = 4 \<Longrightarrow> i < 4 \<Longrightarrow> length (foldl (replay_event sha) rs events) = 4
    \<and> foldl (replay_event sha) rs events ! i =
    foldl (rtmr_extend sha) (rs ! i)
      (map sha384_digest (filter (\<lambda>ev. mr_index ev = i + 1) events))"
proof (induction events arbitrary: rs)
  case (Cons ev events)
  have "length (replay_event sha rs ev) = 4"
    using Cons.prems by (simp add: replay_event_def split: option.splits)
  moreover have "replay_event sha rs ev ! i =
      (if mr_index ev = i + 1 then rtmr_extend sha (rs ! i) (sha384_digest ev) else rs ! i)"
    using Cons.prems
    by (auto simp: replay_event_def rtmr_index_def rtmr_extend_def nth_list_update)
  ultimately show ?case using Cons by simp
qed simp

lemma replay_rtmrs_nth:
  assumes "i < 4"
  shows "length (replay_rtmrs sha events) = 4
    \<and> replay_rtmrs sha events ! i =
      measure_log sha (map sha384_digest (filter (\<lambda>ev. mr_index ev = i + 1) events))"
proof -
  have "[zeros 48, zeros 48, zeros 48, zeros 48] ! i = zeros 48"
    using assms by (auto simp: nth_Cons' less_Suc_eq)
  then show ?thesis
    using replay_nth [of "[zeros 48, zeros 48, zeros 48, zeros 48]" i sha events] assms
    by (simp add: replay_rtmrs_def measure_log_def)
qed

lemma le_bytes_2: "n < 2 ^ 16 \<Longrightarrow> \<exists>a b. le_bytes 2 n = [a, b] \<and> le_nat [a, b] = n"
proof -
  assume "n < 2 ^ 16"
  then have "le_nat (le_bytes 2 n) = n" by (simp add: le_nat_le_bytes)
  moreover have "\<exists>a b. le_bytes 2 n = [a, b]" by (simp add: numeral_2_eq_2)
  ultimately show ?thesis by metis
qed

lemma name_chars_units:
  "\<forall>u \<in> set units. u < 2 ^ 16 \<Longrightarrow>
     name_chars (concat (map (le_bytes 2) units)) = filter (\<lambda>u. \<not> (0xD800 \<le> u \<and> u < 0xE000)) units"
proof (induction units)
  case (Cons u units)
  then obtain a b where "le_bytes 2 u = [a, b]" "le_nat [a, b] = u" "u < 2 ^ 16"
    using le_bytes_2 [of u] by auto
  then show ?case using Cons by (auto simp: char_from_u32_def)
qed simp

lemma parse_uefi_variable_encoded:
  assumes "length guid = 16" and "\<forall>u \<in> set units. u < 2 ^ 16"
    and "32 + 2 * length units + length val < u64_limit"
  shows "parse_uefi_variable_data
      (guid @ le_bytes 8 (length units) @ le_bytes 8 (length val)
        @ concat (map (le_bytes 2) units) @ val @ rest)
    = Some (filter (\<lambda>u. \<not> (0xD800 \<le> u \<and> u < 0xE000)) units, val)"
proof -
  let ?n = "concat (map (le_bytes 2) units)"
  let ?d = "guid @ le_bytes 8 (length units) @ le_bytes 8 (length val) @ ?n @ val @ rest"
  have n: "length ?n = 2 * length units" by (induction units) auto
  have f: "u64_at ?d 16 = length units" "u64_at ?d 24 = length val"
    using u64_at_written [of "length units" 16 guid]
      u64_at_written [of "length val" 24 "guid @ le_bytes 8 (length units)"] assms by simp_all
  have "subslice ?d 32 (32 + 2 * length units) = ?n"
    "subslice ?d (32 + 2 * length units) (32 + 2 * length units + length val) = val"
    using n assms(1) by (simp_all add: subslice_def)
  then show ?thesis
    using f n assms name_chars_units [OF assms(2)]
    by (simp add: parse_uefi_variable_data_def Let_def checked_mul_def checked_add_def
        mult.commute del: checked_add_eq checked_mul_eq)
qed

section \<open>Properties\<close>

text \<open>
  C25. Round trip: a complete log, that is a Spec ID header, records with any mix of digest algorithms, and
  nothing, padding or a terminator behind them, parses to exactly the records that carry a SHA-384
  digest, in order.
\<close>

theorem parse_ccel_round_trip:
  assumes "valid_header pcr hdr spec" and "list_all valid_raw es"
    and "length (kept es) \<le> MAX_EVENTS" and "ends_log tail"
  shows "parse_ccel (encode_header pcr hdr spec @ concat (map encode_event es) @ tail) = Inr (kept es)"
  using parse_ccel_encoded [OF assms(1-3) refl, of tail]
    ends_log_terminates [OF assms(4), of "encode_header pcr hdr spec @ concat (map encode_event es)"]
  by simp

text \<open>
  No silent partial result: a log that is cut in the middle of a record, wherever the cut falls, is an
  error that names the offset of the record and the number of events before it.
\<close>

theorem parse_ccel_rejects_truncation:
  assumes "valid_header pcr hdr spec" and "list_all valid_raw es" and "valid_raw e"
    and "length (kept es) \<le> MAX_EVENTS" and "0 < k" and "k < length (encode_event e)"
    and "pre = encode_header pcr hdr spec @ concat (map encode_event es)"
  shows "parse_ccel (pre @ take k (encode_event e)) = bail (LogTruncated (length pre) (length (kept es)))"
proof -
  have "ccel_record (take (length pre + k) (pre @ encode_event e)) (length pre) = Inr Truncated"
    by (rule ccel_record_take) (use ccel_record_encoded [OF assms(3), of pre "[]"] assms(6) in auto)
  then have "parse_records (pre @ take k (encode_event e)) (length pre) (kept es)
      = Inr (kept es, length pre, False)"
    using assms(5,6) by (subst parse_records.simps) simp
  then show ?thesis
    using parse_ccel_encoded [OF assms(1,2,4,7), of "take k (encode_event e)"] assms(5,6) by simp
qed

text \<open>
  Hostile input: whatever the bytes are, parsing neither panics nor returns more than \<open>MAX_EVENTS\<close>
  events, and each event it returns has a 48-byte digest and is not padding.
\<close>

theorem parse_ccel_bounds:
  "parse_ccel data \<noteq> panic
   \<and> (parse_ccel data = Inr evs \<longrightarrow> length evs \<le> MAX_EVENTS
     \<and> list_all (\<lambda>ev. length (sha384_digest ev) = 48 \<and> mr_index ev \<noteq> 0xFFFFFFFF) evs)"
  using parse_ccel_no_panic parse_ccel_events_ok by blast

text \<open>
  Replay is per register: register \<open>i\<close> after the replay is the log value of the digests of the events
  with MR index \<open>i + 1\<close>, in order; events with any other index are ignored.
\<close>

theorem replay_rtmrs_per_register:
  assumes "i < 4"
  shows "length (replay_rtmrs sha events) = 4
    \<and> replay_rtmrs sha events ! i =
      measure_log sha (map sha384_digest (filter (\<lambda>ev. mr_index ev = i + 1) events))"
  using replay_rtmrs_nth [OF assms] by simp

text \<open>
  The TDREPORT layout of the TDX module: whatever the other fields hold, the four registers behind
  \<open>REPORTMACSTRUCT\<close> and the TDINFO fields up to \<open>MROWNERCONFIG\<close> are what the code extracts.
\<close>

theorem extract_rtmrs_reads_tdinfo:
  assumes "map length [macstruct, tcb_svn, mrseam, mrsigner, seamattr, tdattr, xfam, mrtd, mrconfigid,
      mrowner, mrownerconfig, r0, r1, r2, r3]
    = [256, 16, 48, 48, 8, 8, 8, 48, 48, 48, 48, 48, 48, 48, 48]" and "length rest = 248"
  shows "extract_rtmrs_from_tdreport
      (concat [macstruct, tcb_svn, mrseam, mrsigner, seamattr, tdattr, xfam, mrtd, mrconfigid,
        mrowner, mrownerconfig, r0, r1, r2, r3] @ rest) = Inr [r0, r1, r2, r3]"
  using assms by (simp add: extract_rtmrs_from_tdreport_def subslice_def)

text \<open>
  \<open>UEFI_VARIABLE_DATA\<close>: for a vendor GUID, a name of UTF-16 units and a value, the parser returns the value
  and the units of the name as characters; units that are surrogates are dropped, so a name outside
  the basic multilingual plane does not survive.
\<close>

theorem uefi_variable_round_trip:
  assumes "length guid = 16" and "\<forall>u \<in> set units. u < 2 ^ 16"
    and "32 + 2 * length units + length val < u64_limit"
  shows "parse_uefi_variable_data
      (guid @ le_bytes 8 (length units) @ le_bytes 8 (length val)
        @ concat (map (le_bytes 2) units) @ val @ rest)
    = Some (filter (\<lambda>u. \<not> (0xD800 \<le> u \<and> u < 0xE000)) units, val)"
  by (rule parse_uefi_variable_encoded [OF assms])

section \<open>Witnesses\<close>

definition sample_event :: raw_event where
  "sample_event = \<lparr> raw_mr = 1, raw_type = 4,
     raw_digests = [(0x000B, replicate 32 7), (0x000C, replicate 48 9)], raw_data = [1, 2] \<rparr>"

lemma sample_event_valid: "valid_raw sample_event" "valid_header (zeros 4) (zeros 20) []"
  "kept [sample_event] = [\<lparr> mr_index = 1, event_type = 4, sha384_digest = replicate 48 9,
     event_data = [1, 2] \<rparr>]"
  by (simp_all add: valid_raw_def valid_header_def sample_event_def MAX_DIGEST_ALGORITHMS_def
      valid_digest_def digest_size_def kept_def decoded_def kept_digest_def)

lemma parse_ccel_round_trip_witness:
  "parse_ccel (encode_header (zeros 4) (zeros 20) [] @ encode_event sample_event)
     = Inr [\<lparr> mr_index = 1, event_type = 4, sha384_digest = replicate 48 9, event_data = [1, 2] \<rparr>]"
  using parse_ccel_round_trip [of "zeros 4" "zeros 20" "[]" "[sample_event]" "[]"]
  by (simp add: sample_event_valid ends_log_def MAX_EVENTS_def)

lemma parse_ccel_rejects_truncation_witness:
  "parse_ccel (encode_header (zeros 4) (zeros 20) [] @ encode_event sample_event
      @ take 50 (encode_event sample_event)) = bail (LogTruncated 134 1)"
proof -
  let ?pre = "encode_header (zeros 4) (zeros 20) [] @ concat (map encode_event [sample_event])"
  have len: "length (encode_event sample_event) = 102" "length ?pre = 134"
    by (simp_all add: encode_event_def encode_header_def sample_event_def encode_digests_def
        encode_digest_def)
  show ?thesis
    using parse_ccel_rejects_truncation [of "zeros 4" "zeros 20" "[]" "[sample_event]"
        sample_event 50 ?pre] len
    by (simp add: sample_event_valid MAX_EVENTS_def)
qed

lemma parse_ccel_bounds_witness:
  "length (kept [sample_event]) \<le> MAX_EVENTS
   \<and> list_all (\<lambda>ev. length (sha384_digest ev) = 48 \<and> mr_index ev \<noteq> 0xFFFFFFFF) (kept [sample_event])"
proof -
  let ?pre = "encode_header (zeros 4) (zeros 20) [] @ concat (map encode_event [sample_event])"
  have "parse_ccel (?pre @ []) = Inr (kept [sample_event])"
    using parse_ccel_encoded [of "zeros 4" "zeros 20" "[]" "[sample_event]" ?pre "[]"]
      ends_log_terminates [of "[]" ?pre]
    by (simp add: sample_event_valid ends_log_def MAX_EVENTS_def)
  then show ?thesis using parse_ccel_bounds by blast
qed

lemma replay_rtmrs_per_register_witness:
  "\<forall>sha. replay_rtmrs sha (kept [sample_event]) ! 0 = measure_log sha [replicate 48 9]"
proof (rule allI)
  fix sha
  show "replay_rtmrs sha (kept [sample_event]) ! 0 = measure_log sha [replicate 48 9]"
    using replay_rtmrs_per_register [of 0 sha "kept [sample_event]"]
    by (simp add: sample_event_valid)
qed

lemma extract_rtmrs_reads_tdinfo_witness:
  "extract_rtmrs_from_tdreport
     (concat [zeros 256, zeros 16, zeros 48, zeros 48, zeros 8, zeros 8, zeros 8, zeros 48, zeros 48,
       zeros 48, zeros 48, replicate 48 1, replicate 48 2, replicate 48 3, replicate 48 4] @ zeros 248)
   = Inr [replicate 48 1, replicate 48 2, replicate 48 3, replicate 48 4]"
  by (rule extract_rtmrs_reads_tdinfo) simp_all

lemma uefi_variable_round_trip_witness:
  "parse_uefi_variable_data (zeros 16 @ le_bytes 8 3 @ le_bytes 8 1
      @ concat (map (le_bytes 2) [65, 0xD83D, 0xDE00]) @ [1] @ [])
    = Some ([65], [1])"
proof -
  have len: "length [65 :: nat, 0xD83D, 0xDE00] = 3" "length [1 :: byte] = 1" by simp_all
  have "(39 :: nat) < u64_limit" by (simp add: u64_limit_def)
  then show ?thesis
    using uefi_variable_round_trip [of "zeros 16" "[65, 0xD83D, 0xDE00]" "[1]" "[]", unfolded len]
    by simp
qed

end
