(* ===== verification/Tdvf.thy ===== *)
theory Tdvf
  imports Ccel
begin

text \<open>
  \<open>crates/tdx-measure/src/tdvf.rs\<close>: the metadata of a TDX firmware image, the MRTD it gives, and RTMR[0]
  with the TD hand-off block.

  \<open>u64\<close> fields are \<open>nat\<close>s below \<open>2 ^ 64\<close>; where the source adds two of them without a check, the model
  panics on overflow.  The walk through the GUID table of the firmware is a loop that need not
  end: it is a \<open>partial_function\<close>, whose value \<open>None\<close> means that the code does not return.
\<close>

section \<open>Data and constants\<close>

definition PAGE_SIZE :: nat where "PAGE_SIZE = 0x1000"

definition MR_EXTEND_GRANULARITY :: nat where "MR_EXTEND_GRANULARITY = 0x100"

definition ATTRIBUTE_MR_EXTEND :: nat where "ATTRIBUTE_MR_EXTEND = 1"

definition ATTRIBUTE_PAGE_AUG :: nat where "ATTRIBUTE_PAGE_AUG = 2"

definition TDVF_SECTION_TD_CFV :: nat where "TDVF_SECTION_TD_CFV = 1"

definition TDVF_SECTION_TD_HOB :: nat where "TDVF_SECTION_TD_HOB = 2"

definition TDVF_SECTION_TEMP_MEM :: nat where "TDVF_SECTION_TEMP_MEM = 3"

definition HOB_RESOURCE_ATTRIBUTE :: nat where "HOB_RESOURCE_ATTRIBUTE = 7"

record tdvf_section =
  data_offset :: nat
  raw_data_size :: nat
  memory_address :: nat
  memory_data_size :: nat
  sec_type :: nat
  attributes :: nat

record tdvf =
  fw :: bytes
  sections :: "tdvf_section list"

datatype tdvf_error =
    InvalidGuidFormat
  | BadGuidHex
  | FirmwareTooSmall
  | InvalidFooterGuid
  | InvalidTablesLength
  | InvalidEntryLength
  | MissingMetadata
  | MetadataEntryTooShort
  | MetadataOffsetBeyondFirmware
  | DescriptorBeyondFirmware
  | InvalidDescriptor
  | UnsupportedVersion nat
  | SectionTableOverflow
  | SectionTableBeyondFirmware
  | AddressNotAligned nat
  | MemorySizeBelowRawSize nat
  | MemorySizeNotAligned nat
  | SectionDataOverflow nat
  | SectionDataBeyondFirmware nat
  | ExtendOverflow nat
  | ExtendBeyondFirmware nat
  | AcceptorOverflow
  | NoRanges
  | SectionEndOverflow
  | LastRangeStartsHigh nat
  | LastRangeEndsLow nat
  | CfvBeyondFirmware
  | CfvNotFound
  | CcelParse ccel_error
  | TooFewAcpiEvents nat
  | AcpiDigestLength nat
  | AcpiFileLines
  | AcpiFileHex
  | AcpiFileLengths
  | ReadAcpiFile
  | ReadBootVar
  | OddBootOrder
  | NoBootVariables

text \<open>The attribute bits: \<open>MR_EXTEND\<close> is bit 0, \<open>PAGE_AUG\<close> bit 1.\<close>

definition mr_extend :: "tdvf_section \<Rightarrow> bool" where
  "mr_extend s \<longleftrightarrow> and (attributes s) ATTRIBUTE_MR_EXTEND \<noteq> 0"

definition page_aug :: "tdvf_section \<Rightarrow> bool" where
  "page_aug s \<longleftrightarrow> and (attributes s) ATTRIBUTE_PAGE_AUG \<noteq> 0"

section \<open>GUIDs and EFI variables\<close>

definition decode_atom :: "nat \<times> string \<Rightarrow> tdvf_error fault + bytes" where
  "decode_atom x =
     and_then (ok_or (Err BadGuidHex) (hex_decode (snd x))) (\<lambda>raw.
     Inr (if fst x \<le> 2 then rev raw else raw))"

definition encode_guid :: "string \<Rightarrow> tdvf_error fault + bytes" where
  "encode_guid guid_str =
     (let atoms = split_char CHR ''-'' guid_str in
      and_then (ensure (length atoms = 5) (Err InvalidGuidFormat)) (\<lambda>_.
      and_then (collect_results decode_atom (enumerate 0 atoms)) (\<lambda>parts. Inr (concat parts))))"

definition utf16_len :: "string \<Rightarrow> nat" where
  "utf16_len s = length (concat (map utf16_units (code_points s)))"

definition measure_efi_variable ::
  "(bytes \<Rightarrow> digest) \<Rightarrow> string \<Rightarrow> string \<Rightarrow> bytes option \<Rightarrow> tdvf_error fault + bytes" where
  "measure_efi_variable sha vendor_guid var_name var_data =
     and_then (encode_guid vendor_guid) (\<lambda>guid.
     let val = (case var_data of None \<Rightarrow> [] | Some d \<Rightarrow> d) in
     Inr (sha384 sha (guid @ le_bytes 8 (utf16_len var_name) @ le_bytes 8 (length val)
       @ utf16le (code_points var_name) @ val)))"

section \<open>Parsing the metadata\<close>

definition TDX_METADATA_OFFSET_GUID :: string where
  "TDX_METADATA_OFFSET_GUID = ''e47a6535-984a-4798-865e-4685a7bf8ec2''"

definition TABLE_FOOTER_GUID :: string where
  "TABLE_FOOTER_GUID = ''96b582de-1fb2-45f7-baea-a366c55a082d''"

definition entry_len_at :: "bytes \<Rightarrow> nat \<Rightarrow> nat" where
  "entry_len_at tables off = u16_at tables (off - 18)"

definition entry_guid_at :: "bytes \<Rightarrow> nat \<Rightarrow> bytes" where
  "entry_guid_at tables off = subslice tables (off - 16) off"

text \<open>
  Lines 318--343: the loop over the GUID table, backwards from its end.  \<open>Some\<close> is a return of the loop:
  the data of the matching entry, or the end of the table, or an error.
\<close>

partial_function (option) find_entry ::
  "bytes \<Rightarrow> bytes \<Rightarrow> nat \<Rightarrow> (tdvf_error fault + bytes option) option" where
  "find_entry guid tables off =
     (if off < 18 then Some (Inr None)
      else if off - 18 < entry_len_at tables off then Some (bail InvalidEntryLength)
      else if entry_guid_at tables off = guid
        then Some (Inr (Some (subslice tables (off - 18 - entry_len_at tables off) (off - 18))))
      else find_entry guid tables (off - entry_len_at tables off))"

text \<open>Lines 286--318: the table area in front of the footer.\<close>

definition guid_tables :: "bytes \<Rightarrow> tdvf_error fault + bytes" where
  "guid_tables f =
     and_then (ensure (50 \<le> length f) (Err FirmwareTooSmall)) (\<lambda>_.
     let offset = length f - 32 in
     and_then (encode_guid TABLE_FOOTER_GUID) (\<lambda>footer.
     and_then (ensure (subslice f (offset - 16) offset = footer) (Err InvalidFooterGuid)) (\<lambda>_.
     let tables_len = u16_at f (offset - 18) in
     and_then (ensure (tables_len \<noteq> 0 \<and> tables_len \<le> offset - 18) (Err InvalidTablesLength)) (\<lambda>_.
     Inr (subslice f (offset - 18 - tables_len) (offset - 18))))))"

text \<open>Lines 345--396: the descriptor the entry points to; the result is its offset and section count.\<close>

definition descriptor :: "bytes \<Rightarrow> bytes \<Rightarrow> tdvf_error fault + nat \<times> nat" where
  "descriptor f data =
     and_then (ensure (4 \<le> length data) (Err MetadataEntryTooShort)) (\<lambda>_.
     let meta_offset_raw = u32_at data (length data - 4) in
     and_then (ensure (meta_offset_raw \<le> length f) (Err MetadataOffsetBeyondFirmware)) (\<lambda>_.
     let off = length f - meta_offset_raw in
     and_then (ensure (off + 16 \<le> length f) (Err DescriptorBeyondFirmware)) (\<lambda>_.
     let desc = subslice f off (off + 16) in
     and_then (ensure (take 4 desc = as_bytes ''TDVF'') (Err InvalidDescriptor)) (\<lambda>_.
     and_then (ensure (u32_at desc 8 = 1) (Err (UnsupportedVersion (u32_at desc 8)))) (\<lambda>_.
     let num_sections = u32_at desc 12 in
     and_then (ok_or (Err SectionTableOverflow)
       (Option.bind (checked_add off 16) (\<lambda>v. Option.bind (checked_mul num_sections 32)
         (\<lambda>n. checked_add v n)))) (\<lambda>sections_end.
     and_then (ensure (sections_end \<le> length f) (Err SectionTableBeyondFirmware)) (\<lambda>_.
     Inr (off, num_sections))))))))"

text \<open>Lines 403--465: one row of the section table, with its checks.\<close>

definition read_section :: "bytes \<Rightarrow> nat \<Rightarrow> nat \<Rightarrow> tdvf_section" where
  "read_section f meta_offset i =
     (let sec_off = meta_offset + 16 + 32 * i; sec = subslice f sec_off (sec_off + 32) in
      \<lparr> data_offset = u32_at sec 0, raw_data_size = u32_at sec 4, memory_address = u64_at sec 8,
        memory_data_size = u64_at sec 16, sec_type = u32_at sec 24, attributes = u32_at sec 28 \<rparr>)"

definition check_section :: "nat \<Rightarrow> nat \<Rightarrow> tdvf_section \<Rightarrow> tdvf_error fault + tdvf_section" where
  "check_section fw_len i s =
     and_then (ensure (memory_address s mod PAGE_SIZE = 0) (Err (AddressNotAligned i))) (\<lambda>_.
     and_then (ensure (raw_data_size s \<le> memory_data_size s) (Err (MemorySizeBelowRawSize i))) (\<lambda>_.
     and_then (ensure (memory_data_size s mod PAGE_SIZE = 0) (Err (MemorySizeNotAligned i))) (\<lambda>_.
     and_then (ok_or (Err (SectionDataOverflow i)) (checked_add (data_offset s) (raw_data_size s)))
       (\<lambda>data_end.
     and_then (ensure (data_end \<le> fw_len) (Err (SectionDataBeyondFirmware i))) (\<lambda>_.
     if mr_extend s then
       and_then (ok_or (Err (ExtendOverflow i)) (checked_add (data_offset s) (memory_data_size s)))
         (\<lambda>extend_end.
       and_then (ensure (extend_end \<le> fw_len) (Err (ExtendBeyondFirmware i))) (\<lambda>_. Inr s))
     else Inr s)))))"

definition parse_descriptor :: "bytes \<Rightarrow> bytes option \<Rightarrow> tdvf_error fault + tdvf" where
  "parse_descriptor f entry =
     and_then (ok_or (Err MissingMetadata) entry) (\<lambda>data.
     and_then (descriptor f data) (\<lambda>(off, num_sections).
     and_then (collect_results (\<lambda>i. check_section (length f) i (read_section f off i)) [0..<num_sections])
       (\<lambda>secs. Inr \<lparr> fw = f, sections = secs \<rparr>)))"

text \<open>\<open>Tdvf::parse\<close>; \<open>None\<close> means that the table walk does not end.\<close>

definition tdvf_parse :: "bytes \<Rightarrow> (tdvf_error fault + tdvf) option" where
  "tdvf_parse f =
     (case and_then (guid_tables f) (\<lambda>tables.
        and_then (encode_guid TDX_METADATA_OFFSET_GUID) (\<lambda>guid. Inr (tables, guid))) of
        Inl e \<Rightarrow> Some (Inl e)
      | Inr (tables, guid) \<Rightarrow>
          Option.bind (find_entry guid tables (length tables)) (\<lambda>r.
          Some (and_then r (parse_descriptor f))))"

section \<open>MRTD\<close>

definition mem_record :: "string \<Rightarrow> nat \<Rightarrow> bytes" where
  "mem_record name gpa = overwrite (overwrite (zeros 128) 0 (as_bytes name)) 16 (le_bytes 8 gpa)"

text \<open>Lines 493--509: one 256-byte chunk of a page.\<close>

definition extend_chunk :: "bytes \<Rightarrow> tdvf_section \<Rightarrow> nat \<Rightarrow> nat \<Rightarrow> tdvf_error fault + bytes" where
  "extend_chunk f s page i =
     and_then (add_u64 (memory_address s) (page * PAGE_SIZE)) (\<lambda>page_gpa.
     and_then (add_u64 page_gpa (i * MR_EXTEND_GRANULARITY)) (\<lambda>gpa.
     and_then (add_u64 (data_offset s) (page * PAGE_SIZE)) (\<lambda>page_offset.
     and_then (add_u64 page_offset (i * MR_EXTEND_GRANULARITY)) (\<lambda>chunk_offset.
     and_then (subslice_or_panic f chunk_offset (chunk_offset + MR_EXTEND_GRANULARITY)) (\<lambda>chunk.
     Inr (mem_record ''MR.EXTEND'' gpa @ chunk))))))"

definition page_add :: "tdvf_section \<Rightarrow> nat \<Rightarrow> tdvf_error fault + bytes" where
  "page_add s page =
     and_then (add_u64 (memory_address s) (page * PAGE_SIZE)) (\<lambda>gpa.
     Inr (mem_record ''MEM.PAGE.ADD'' gpa))"

definition measure_page :: "bytes \<Rightarrow> tdvf_section \<Rightarrow> nat \<Rightarrow> tdvf_error fault + bytes" where
  "measure_page f s page =
     and_then (if page_aug s then Inr [] else page_add s page) (\<lambda>add.
     and_then (if mr_extend s
       then collect_results (extend_chunk f s page) [0..<PAGE_SIZE div MR_EXTEND_GRANULARITY]
       else Inr []) (\<lambda>chunks.
     Inr (add @ concat chunks)))"

definition measure_section :: "bytes \<Rightarrow> tdvf_section \<Rightarrow> tdvf_error fault + bytes" where
  "measure_section f s =
     and_then (collect_results (measure_page f s) [0..<memory_data_size s div PAGE_SIZE])
       (\<lambda>pages. Inr (concat pages))"

definition mrtd_input :: "tdvf \<Rightarrow> tdvf_error fault + bytes" where
  "mrtd_input t =
     and_then (collect_results (measure_section (fw t)) (sections t)) (\<lambda>secs. Inr (concat secs))"

definition mrtd :: "(bytes \<Rightarrow> digest) \<Rightarrow> tdvf \<Rightarrow> tdvf_error fault + bytes" where
  "mrtd sha t = and_then (mrtd_input t) (\<lambda>input. Inr (sha384 sha input))"

section \<open>The memory acceptor\<close>

text \<open>Ranges \<open>(accepted, start, end)\<close>, sorted by start.\<close>

type_synonym mem_range = "bool \<times> nat \<times> nat"

definition acceptor_new :: "nat \<Rightarrow> nat \<Rightarrow> tdvf_error fault + mem_range list" where
  "acceptor_new start sz =
     and_then (ok_or (Err AcceptorOverflow) (checked_add start sz)) (\<lambda>stop. Inr [(False, start, stop)])"

definition carve :: "nat \<Rightarrow> nat \<Rightarrow> mem_range \<Rightarrow> mem_range list" where
  "carve start stop r =
     (case r of (acc, a, b) \<Rightarrow>
        if acc \<or> b \<le> start \<or> stop \<le> a then [r]
        else (if a < start then [(False, a, start)] else [])
          @ (if stop < b then [(False, stop, b)] else []))"

definition accept :: "mem_range list \<Rightarrow> nat \<Rightarrow> nat \<Rightarrow> mem_range list" where
  "accept ranges start stop =
     (if stop \<le> start then ranges
      else sort_key (\<lambda>(_, s, _). s) (concat (map (carve start stop) ranges) @ [(True, start, stop)]))"

section \<open>The TD HOB\<close>

definition phit_hob :: bytes where
  "phit_hob =
     [0x01, 0x00] @ le_bytes 2 56 @ zeros 4 @ le_bytes 4 9 @ zeros 4 @ zeros 8 @ zeros 8 @ zeros 8
       @ zeros 8 @ zeros 8"

definition resource_hob :: "nat \<Rightarrow> nat \<Rightarrow> nat \<Rightarrow> bytes" where
  "resource_hob resource_type start len =
     [0x03, 0x00] @ le_bytes 2 48 @ zeros 4 @ zeros 16 @ le_bytes 1 resource_type @ zeros 3
       @ le_bytes 4 HOB_RESOURCE_ATTRIBUTE @ le_bytes 8 start @ le_bytes 8 len"

text \<open>Lines 586--601: what the sections accept, and the address of the HOB.\<close>

fun accept_sections ::
  "tdvf_section list \<Rightarrow> mem_range list \<Rightarrow> nat \<Rightarrow> tdvf_error fault + mem_range list \<times> nat" where
  "accept_sections [] ranges base = Inr (ranges, base)"
| "accept_sections (s # ss) ranges base =
     and_then (if sec_type s = TDVF_SECTION_TD_HOB \<or> sec_type s = TDVF_SECTION_TEMP_MEM then
         and_then (ok_or (Err SectionEndOverflow) (checked_add (memory_address s) (memory_data_size s)))
           (\<lambda>stop. Inr (accept ranges (memory_address s) stop))
       else Inr ranges) (\<lambda>ranges.
     accept_sections ss ranges (if sec_type s = TDVF_SECTION_TD_HOB then memory_address s else base))"

text \<open>Lines 632--638: a resource HOB per range but the last.\<close>

definition range_hob :: "mem_range \<Rightarrow> tdvf_error fault + bytes" where
  "range_hob r =
     (case r of (accepted, a, b) \<Rightarrow>
        and_then (sub_u64 b a) (\<lambda>len. Inr (resource_hob (if accepted then 0x00 else 0x07) a len)))"

text \<open>Lines 640--659: the last range, split around the hole below 4 GiB.\<close>

definition last_range_hobs :: "nat \<Rightarrow> nat \<Rightarrow> nat \<Rightarrow> tdvf_error fault + bytes list" where
  "last_range_hobs memory_size last_start last_end =
     (if 0xB0000000 \<le> memory_size then
        and_then (ensure (last_start < 0x80000000) (Err (LastRangeStartsHigh last_start))) (\<lambda>_.
        and_then (ensure (0x80000000 \<le> last_end) (Err (LastRangeEndsLow last_end))) (\<lambda>_.
        Inr [resource_hob 0x07 last_start (0x80000000 - last_start),
             resource_hob 0x07 0x100000000 (last_end - 0x80000000)]))
      else
        and_then (sub_u64 last_end last_start) (\<lambda>len. Inr [resource_hob 0x07 last_start len]))"

definition build_td_hob :: "tdvf \<Rightarrow> nat \<Rightarrow> tdvf_error fault + bytes" where
  "build_td_hob t memory_size =
     and_then (acceptor_new 0 memory_size) (\<lambda>ranges.
     and_then (accept_sections (sections t) ranges 0x809000) (\<lambda>(ranges, base).
     and_then (ensure (ranges \<noteq> []) (Err NoRanges)) (\<lambda>_.
     and_then (collect_results range_hob (butlast ranges)) (\<lambda>hobs.
     case last ranges of (_, last_start, last_end) \<Rightarrow>
     and_then (last_range_hobs memory_size last_start last_end) (\<lambda>last_hobs.
     let td_hob = phit_hob @ concat hobs @ concat last_hobs in
     and_then (add_u64 base (length td_hob)) (\<lambda>e. and_then (add_u64 e 8) (\<lambda>end_of_hob_list.
     Inr (overwrite td_hob 48 (le_bytes 8 end_of_hob_list)))))))))"

definition measure_td_hob :: "(bytes \<Rightarrow> digest) \<Rightarrow> tdvf \<Rightarrow> nat \<Rightarrow> tdvf_error fault + bytes" where
  "measure_td_hob sha t memory_size =
     and_then (build_td_hob t memory_size) (\<lambda>td_hob. Inr (sha384 sha td_hob))"

text \<open>The first section of type CFV.\<close>

definition measure_cfv :: "(bytes \<Rightarrow> digest) \<Rightarrow> tdvf \<Rightarrow> tdvf_error fault + bytes" where
  "measure_cfv sha t =
     (case find (\<lambda>s. sec_type s = TDVF_SECTION_TD_CFV) (sections t) of
        None \<Rightarrow> bail CfvNotFound
      | Some s \<Rightarrow>
          let start = data_offset s; stop = start + raw_data_size s in
          and_then (ensure (stop \<le> length (fw t)) (Err CfvBeyondFirmware)) (\<lambda>_.
          Inr (sha384 sha (subslice (fw t) start stop))))"

section \<open>ACPI hashes and boot variables\<close>

record acpi_hashes =
  loader_hash :: bytes
  rsdp_hash :: bytes
  tables_hash :: bytes

definition acpi_from_files ::
  "(bytes \<Rightarrow> digest) \<Rightarrow> (string \<Rightarrow> bytes option) \<Rightarrow> string \<Rightarrow> string \<Rightarrow> string
     \<Rightarrow> tdvf_error fault + acpi_hashes" where
  "acpi_from_files sha read_f tables_path rsdp_path loader_path =
     and_then (ok_or (Err ReadAcpiFile) (read_f tables_path)) (\<lambda>tables.
     and_then (ok_or (Err ReadAcpiFile) (read_f rsdp_path)) (\<lambda>rsdp.
     and_then (ok_or (Err ReadAcpiFile) (read_f loader_path)) (\<lambda>loader.
     Inr \<lparr> loader_hash = sha384 sha loader, rsdp_hash = sha384 sha rsdp,
           tables_hash = sha384 sha tables \<rparr>)))"

text \<open>Lines 63--77: the digests of the flag events of RTMR[0] behind its separator.\<close>

fun acpi_digests :: "bool \<Rightarrow> ccel_event list \<Rightarrow> bytes list" where
  "acpi_digests past [] = []"
| "acpi_digests past (ev # evs) =
     (if mr_index ev \<noteq> 1 then acpi_digests past evs
      else if event_type ev = 0x4 then acpi_digests True evs
      else if past \<and> event_type ev = 0xa then sha384_digest ev # acpi_digests past evs
      else acpi_digests past evs)"

definition check_digest_len :: "nat \<times> bytes \<Rightarrow> tdvf_error fault + unit" where
  "check_digest_len x = ensure (length (snd x) = 48) (Err (AcpiDigestLength (fst x)))"

definition acpi_extract_from_ccel :: "bytes \<Rightarrow> tdvf_error fault + acpi_hashes" where
  "acpi_extract_from_ccel ccel_data =
     and_then (map_err CcelParse (parse_ccel ccel_data)) (\<lambda>events.
     let ds = acpi_digests False events in
     and_then (ensure (3 \<le> length ds) (Err (TooFewAcpiEvents (length ds)))) (\<lambda>_.
     and_then (collect_results check_digest_len (enumerate 0 (take 3 ds))) (\<lambda>_.
     Inr \<lparr> loader_hash = ds ! 0, rsdp_hash = ds ! 1, tables_hash = ds ! 2 \<rparr>)))"

definition newline :: string where "newline = [CHR 0x0A]"

text \<open>\<open>save\<close>: the content of the file; \<open>load\<close> on the content of a file.\<close>

definition acpi_save :: "acpi_hashes \<Rightarrow> string" where
  "acpi_save h =
     hex_encode (loader_hash h) @ newline @ hex_encode (rsdp_hash h) @ newline
       @ hex_encode (tables_hash h) @ newline"

definition acpi_load :: "string \<Rightarrow> tdvf_error fault + acpi_hashes" where
  "acpi_load content =
     (let ls = str_lines content in
      and_then (ensure (3 \<le> length ls) (Err AcpiFileLines)) (\<lambda>_.
      and_then (ok_or (Err AcpiFileHex) (hex_decode (trim (ls ! 0)))) (\<lambda>loader.
      and_then (ok_or (Err AcpiFileHex) (hex_decode (trim (ls ! 1)))) (\<lambda>rsdp.
      and_then (ok_or (Err AcpiFileHex) (hex_decode (trim (ls ! 2)))) (\<lambda>tables.
      and_then (ensure (length loader = 48 \<and> length rsdp = 48 \<and> length tables = 48)
        (Err AcpiFileLengths)) (\<lambda>_.
      Inr \<lparr> loader_hash = loader, rsdp_hash = rsdp, tables_hash = tables \<rparr>))))))"

text \<open>\<open>{:04X}\<close> in upper case.\<close>

definition upper_hex4 :: "nat \<Rightarrow> string" where
  "upper_hex4 n = map (\<lambda>c. if is_ascii_digit c then c else char_of ((of_char c :: nat) - 32)) (hex_padded 4 n)"

fun u16_chunks :: "bytes \<Rightarrow> nat list" where
  "u16_chunks (a # b # rest) = le_nat [a, b] # u16_chunks rest"
| "u16_chunks _ = []"

text \<open>The directory is a parameter: the content of each file in it.\<close>

definition boot_vars_load_from_dir :: "(string \<Rightarrow> bytes option) \<Rightarrow> tdvf_error fault + bytes list" where
  "boot_vars_load_from_dir dir =
     and_then (ok_or (Err ReadBootVar) (dir ''BootOrder.bin'')) (\<lambda>boot_order.
     and_then (ensure (length boot_order mod 2 = 0) (Err OddBootOrder)) (\<lambda>_.
     and_then (collect_results
       (\<lambda>n. ok_or (Err ReadBootVar) (dir (''Boot'' @ upper_hex4 n @ ''.bin''))) (u16_chunks boot_order))
       (\<lambda>vars. Inr (boot_order # vars))))"

definition boot_var_of :: "ccel_event \<Rightarrow> bytes list" where
  "boot_var_of ev =
     (if event_type ev = 0x80000002 \<and> mr_index ev = 1
      then (case parse_uefi_variable_data (event_data ev) of None \<Rightarrow> [] | Some (_, d) \<Rightarrow> [d])
      else [])"

definition boot_vars_extract_from_ccel :: "bytes \<Rightarrow> tdvf_error fault + bytes list" where
  "boot_vars_extract_from_ccel ccel_data =
     and_then (map_err CcelParse (parse_ccel ccel_data)) (\<lambda>events.
     let entries = concat (map boot_var_of events) in
     and_then (ensure (entries \<noteq> []) (Err NoBootVariables)) (\<lambda>_. Inr entries))"

section \<open>RTMR[0]\<close>

definition GLOBAL_VARIABLE_GUID :: string where
  "GLOBAL_VARIABLE_GUID = ''8BE4DF61-93CA-11D2-AA0D-00E098032B8C''"

definition SECURITY_DATABASE_GUID :: string where
  "SECURITY_DATABASE_GUID = ''D719B2CB-3D3A-4596-A3BC-DAD00E67656F''"

definition secure_boot_variables :: "(string \<times> string) list" where
  "secure_boot_variables =
     [(GLOBAL_VARIABLE_GUID, ''SecureBoot''), (GLOBAL_VARIABLE_GUID, ''PK''),
      (GLOBAL_VARIABLE_GUID, ''KEK''), (SECURITY_DATABASE_GUID, ''db''),
      (SECURITY_DATABASE_GUID, ''dbx'')]"

definition rtmr0_log ::
  "(bytes \<Rightarrow> digest) \<Rightarrow> tdvf \<Rightarrow> nat \<Rightarrow> acpi_hashes option \<Rightarrow> bytes list option
     \<Rightarrow> tdvf_error fault + bytes list" where
  "rtmr0_log sha t memory_size acpi boot_vars =
     and_then (measure_td_hob sha t memory_size) (\<lambda>td_hob_hash.
     and_then (measure_cfv sha t) (\<lambda>cfv_hash.
     and_then (collect_results (\<lambda>(g, n). measure_efi_variable sha g n None) secure_boot_variables)
       (\<lambda>vars.
     Inr ([td_hob_hash, cfv_hash] @ vars @ [sha384 sha [0, 0, 0, 0]]
       @ (case acpi of None \<Rightarrow> [] | Some a \<Rightarrow> [loader_hash a, rsdp_hash a, tables_hash a])
       @ (case boot_vars of None \<Rightarrow> [] | Some bv \<Rightarrow> map (sha384 sha) bv)))))"

definition rtmr0 ::
  "(bytes \<Rightarrow> digest) \<Rightarrow> tdvf \<Rightarrow> nat \<Rightarrow> acpi_hashes option \<Rightarrow> bytes list option
     \<Rightarrow> tdvf_error fault + bytes \<times> nat" where
  "rtmr0 sha t memory_size acpi boot_vars =
     and_then (rtmr0_log sha t memory_size acpi boot_vars) (\<lambda>log.
     Inr (foldl (rtmr_extend sha) (zeros 48) log, length log))"

section \<open>Facts about the parser\<close>

text \<open>What \<open>Tdvf::parse\<close> guarantees of a section.\<close>

definition section_ok :: "nat \<Rightarrow> tdvf_section \<Rightarrow> bool" where
  "section_ok fw_len s \<longleftrightarrow>
     PAGE_SIZE dvd memory_address s \<and> PAGE_SIZE dvd memory_data_size s
     \<and> raw_data_size s \<le> memory_data_size s \<and> data_offset s + raw_data_size s \<le> fw_len
     \<and> (mr_extend s \<longrightarrow> data_offset s + memory_data_size s \<le> fw_len)"

lemma check_section_Inr: "check_section n i s = Inr s' \<Longrightarrow> s' = s \<and> section_ok n s"
  by (auto simp: check_section_def section_ok_def mod_eq_0_iff_dvd split: if_splits)

lemma check_section_no_panic: "check_section n i s \<noteq> panic"
  by (auto simp: check_section_def and_then_eq_Inl)

lemma parse_descriptor_Inr:
  "parse_descriptor f entry = Inr t \<Longrightarrow> fw t = f \<and> list_all (section_ok (length f)) (sections t)"
proof -
  assume "parse_descriptor f entry = Inr t"
  then obtain secs off n where "t = \<lparr> fw = f, sections = secs \<rparr>"
    and "list_all2 (\<lambda>i s. check_section (length f) i (read_section f off i) = Inr s) [0..<n] secs"
    by (auto simp: parse_descriptor_def)
  moreover from this(2) have "list_all (section_ok (length f)) secs"
    by (induction rule: list_all2_induct) (auto dest: check_section_Inr)
  ultimately show ?thesis by simp
qed

text \<open>The positions the table walk visits, and the ones where it stays for ever.\<close>

inductive visits :: "bytes \<Rightarrow> bytes \<Rightarrow> nat \<Rightarrow> nat \<Rightarrow> bool" for guid tables where
  start: "visits guid tables off off"
| step: "visits guid tables (off - entry_len_at tables off) off' \<Longrightarrow> 18 \<le> off \<Longrightarrow>
    entry_len_at tables off \<le> off - 18 \<Longrightarrow> entry_guid_at tables off \<noteq> guid \<Longrightarrow>
    visits guid tables off off'"

inductive_cases visitsE: "visits guid tables off off'"

definition stuck :: "bytes \<Rightarrow> bytes \<Rightarrow> nat \<Rightarrow> bool" where
  "stuck guid tables off \<longleftrightarrow> 18 \<le> off \<and> entry_len_at tables off = 0 \<and> entry_guid_at tables off \<noteq> guid"

lemma visits_stuck:
  "visits guid tables off off' \<Longrightarrow> stuck guid tables off \<Longrightarrow> off' = off"
  by (induction rule: visits.induct) (auto simp: stuck_def)

lemma find_entry_Some_not_stuck:
  assumes "find_entry guid tables off = Some y"
  shows "\<not> (\<exists>off'. visits guid tables off off' \<and> stuck guid tables off')"
proof (rule find_entry.raw_induct
    [where P = "\<lambda>guid tables off y. \<not> (\<exists>off'. visits guid tables off off' \<and> stuck guid tables off')",
      OF _ assms])
  fix f :: "bytes \<Rightarrow> bytes \<Rightarrow> nat \<Rightarrow> (tdvf_error fault + bytes option) option"
    and guid tables off y
  assume IH: "\<And>guid tables off y. f guid tables off = Some y \<Longrightarrow>
      \<not> (\<exists>off'. visits guid tables off off' \<and> stuck guid tables off')"
    and eq: "(if off < 18 then Some (Inr None)
      else if off - 18 < entry_len_at tables off then Some (bail InvalidEntryLength)
      else if entry_guid_at tables off = guid
        then Some (Inr (Some (subslice tables (off - 18 - entry_len_at tables off) (off - 18))))
      else f guid tables (off - entry_len_at tables off)) = Some y"
  show "\<not> (\<exists>off'. visits guid tables off off' \<and> stuck guid tables off')"
  proof
    assume "\<exists>off'. visits guid tables off off' \<and> stuck guid tables off'"
    then obtain off' where v: "visits guid tables off off'" and st: "stuck guid tables off'" by blast
    from v show False
    proof (cases rule: visits.cases)
      case start
      then have "f guid tables off = Some y"
        using eq st by (auto simp: stuck_def split: if_splits)
      then show ?thesis using IH st visits.start start by metis
    next
      case step
      then have "f guid tables (off - entry_len_at tables off) = Some y"
        using eq by (auto split: if_splits)
      then show ?thesis using IH st step(1) by blast
    qed
  qed
qed

lemma find_entry_not_stuck_Some:
  "\<not> (\<exists>off'. visits guid tables off off' \<and> stuck guid tables off') \<Longrightarrow>
     \<exists>y. find_entry guid tables off = Some y"
proof (induction off rule: less_induct)
  case (less off)
  let ?n = "entry_len_at tables off"
  show ?case
  proof (cases "off < 18 \<or> off - 18 < ?n \<or> entry_guid_at tables off = guid")
    case True
    then show ?thesis by (subst find_entry.simps) auto
  next
    case False
    have "\<not> stuck guid tables off" using less.prems visits.start [of guid tables off] by blast
    then have "?n \<noteq> 0" using False by (auto simp: stuck_def)
    moreover have "\<not> (\<exists>off'. visits guid tables (off - ?n) off' \<and> stuck guid tables off')"
      using less.prems False visits.step by (metis not_less)
    ultimately obtain y where "find_entry guid tables (off - ?n) = Some y"
      using less.IH [of "off - ?n"] False by auto
    then show ?thesis using False by (subst find_entry.simps) auto
  qed
qed

lemma find_entry_no_panic: "find_entry guid tables off \<noteq> Some panic"
proof
  assume panic: "find_entry guid tables off = Some panic"
  have "(panic :: tdvf_error fault + bytes option) \<noteq> panic"
    by (rule find_entry.raw_induct [where P = "\<lambda>_ _ _ y. y \<noteq> panic", OF _ panic])
      (auto split: if_splits)
  then show False by simp
qed

section \<open>The measured pages\<close>

text \<open>The specification of MRTD's input: all records in order, without any failure.\<close>

definition chunk_input :: "bytes \<Rightarrow> tdvf_section \<Rightarrow> nat \<Rightarrow> bytes" where
  "chunk_input f s k =
     mem_record ''MR.EXTEND'' (memory_address s + k * MR_EXTEND_GRANULARITY)
       @ subslice f (data_offset s + k * MR_EXTEND_GRANULARITY)
           (data_offset s + k * MR_EXTEND_GRANULARITY + MR_EXTEND_GRANULARITY)"

definition page_input :: "bytes \<Rightarrow> tdvf_section \<Rightarrow> nat \<Rightarrow> bytes" where
  "page_input f s page =
     (if page_aug s then [] else mem_record ''MEM.PAGE.ADD'' (memory_address s + page * PAGE_SIZE))
     @ (if mr_extend s then concat (map (chunk_input f s) [16 * page..<16 * page + 16]) else [])"

definition section_input :: "bytes \<Rightarrow> tdvf_section \<Rightarrow> bytes" where
  "section_input f s = concat (map (page_input f s) [0..<memory_data_size s div PAGE_SIZE])"

text \<open>A section whose guest addresses stay inside the address space.\<close>

definition section_fits_u64 :: "tdvf_section \<Rightarrow> bool" where
  "section_fits_u64 s \<longleftrightarrow> memory_address s + memory_data_size s \<le> u64_limit"

lemma collect_results_Inr_map:
  "(\<And>x. x \<in> set xs \<Longrightarrow> f x = Inr (g x)) \<Longrightarrow> collect_results f xs = Inr (map g xs)"
  by (simp add: list_all2_conv_all_nth)

lemma page_bounds:
  assumes "page < memory_data_size s div PAGE_SIZE" and "i < 16"
  shows "page * PAGE_SIZE + i * MR_EXTEND_GRANULARITY + MR_EXTEND_GRANULARITY \<le> memory_data_size s"
proof -
  have "Suc page * PAGE_SIZE \<le> memory_data_size s div PAGE_SIZE * PAGE_SIZE"
    using assms(1) by (intro mult_le_mono1) simp
  also have "\<dots> \<le> memory_data_size s" by simp
  finally have "page * PAGE_SIZE + 4096 \<le> memory_data_size s" by (simp add: PAGE_SIZE_def)
  then show ?thesis using assms(2) by (simp add: MR_EXTEND_GRANULARITY_def)
qed

lemma extend_chunk_eq:
  assumes "section_ok (length f) s" "section_fits_u64 s" "length f < u64_limit" "mr_extend s"
    and "page < memory_data_size s div PAGE_SIZE" "i < 16"
  shows "extend_chunk f s page i = Inr (chunk_input f s (16 * page + i))"
proof -
  note B = page_bounds [OF assms(5,6)]
  have k: "(16 * page + i) * MR_EXTEND_GRANULARITY = page * PAGE_SIZE + i * MR_EXTEND_GRANULARITY"
    by (simp add: MR_EXTEND_GRANULARITY_def PAGE_SIZE_def)
  have "0 < MR_EXTEND_GRANULARITY" by (simp add: MR_EXTEND_GRANULARITY_def)
  then have "memory_address s + page * PAGE_SIZE + i * MR_EXTEND_GRANULARITY < u64_limit"
    "data_offset s + page * PAGE_SIZE + i * MR_EXTEND_GRANULARITY + MR_EXTEND_GRANULARITY \<le> length f"
    using B assms(1-4) by (auto simp: section_ok_def section_fits_u64_def)
  then show ?thesis
    using assms(3)
    by (simp add: extend_chunk_def chunk_input_def k add.assoc)
qed

lemma measure_page_eq:
  assumes "section_ok (length f) s" "section_fits_u64 s" "length f < u64_limit"
    and "page < memory_data_size s div PAGE_SIZE"
  shows "measure_page f s page = Inr (page_input f s page)"
proof -
  have "memory_address s + page * PAGE_SIZE < u64_limit"
    using page_bounds [OF assms(4), of 0] assms(2)
    by (simp add: section_fits_u64_def MR_EXTEND_GRANULARITY_def)
  then have add: "page_add s page = Inr (mem_record ''MEM.PAGE.ADD'' (memory_address s + page * PAGE_SIZE))"
    by (simp add: page_add_def)
  have count: "PAGE_SIZE div MR_EXTEND_GRANULARITY = 16"
    by (simp add: PAGE_SIZE_def MR_EXTEND_GRANULARITY_def)
  have "collect_results (extend_chunk f s page) [0..<16]
      = Inr (map (\<lambda>i. chunk_input f s (16 * page + i)) [0..<16])" if "mr_extend s"
    by (rule collect_results_Inr_map) (use extend_chunk_eq assms that in auto)
  moreover have "map (\<lambda>i. chunk_input f s (16 * page + i)) [0..<16]
      = map (chunk_input f s) [16 * page..<16 * page + 16]"
    by (rule nth_equalityI) auto
  ultimately show ?thesis
    by (simp add: measure_page_def page_input_def add count del: collect_results_Inr_iff)
qed

lemma mrtd_input_eq:
  assumes "list_all (section_ok (length (fw t))) (sections t)"
    and "list_all section_fits_u64 (sections t)" and "length (fw t) < u64_limit"
  shows "mrtd_input t = Inr (concat (map (section_input (fw t)) (sections t)))"
proof -
  have "measure_section (fw t) s = Inr (section_input (fw t) s)" if "s \<in> set (sections t)" for s
  proof -
    have "collect_results (measure_page (fw t) s) [0..<memory_data_size s div PAGE_SIZE]
        = Inr (map (page_input (fw t) s) [0..<memory_data_size s div PAGE_SIZE])"
      by (rule collect_results_Inr_map)
        (use measure_page_eq assms that in \<open>auto simp: list_all_iff\<close>)
    then show ?thesis
      by (simp add: measure_section_def section_input_def del: collect_results_Inr_iff)
  qed
  then have "collect_results (measure_section (fw t)) (sections t)
      = Inr (map (section_input (fw t)) (sections t))"
    by (rule collect_results_Inr_map)
  then show ?thesis by (simp add: mrtd_input_def del: collect_results_Inr_iff)
qed

lemma length_mem_record: "length name \<le> 16 \<Longrightarrow> length (mem_record name gpa) = 128"
  by (simp add: mem_record_def)

lemma length_chunk_input:
  "section_ok (length f) s \<Longrightarrow> mr_extend s \<Longrightarrow> k < memory_data_size s div MR_EXTEND_GRANULARITY \<Longrightarrow>
     length (chunk_input f s k) = 384"
proof -
  assume a: "section_ok (length f) s" "mr_extend s" "k < memory_data_size s div MR_EXTEND_GRANULARITY"
  have "Suc k * MR_EXTEND_GRANULARITY \<le> memory_data_size s div MR_EXTEND_GRANULARITY * MR_EXTEND_GRANULARITY"
    using a(3) by (intro mult_le_mono1) simp
  also have "\<dots> \<le> memory_data_size s" by simp
  finally show ?thesis
    using a(1,2) by (simp add: chunk_input_def section_ok_def length_mem_record MR_EXTEND_GRANULARITY_def)
qed

lemma chunks_of_pages:
  "section_ok n s \<Longrightarrow> memory_data_size s div MR_EXTEND_GRANULARITY = 16 * (memory_data_size s div PAGE_SIZE)
     \<and> memory_data_size s = memory_data_size s div MR_EXTEND_GRANULARITY * MR_EXTEND_GRANULARITY"
  by (auto simp: section_ok_def PAGE_SIZE_def MR_EXTEND_GRANULARITY_def elim!: dvdE)

lemma length_page_input:
  assumes "section_ok (length f) s" "section_ok (length g) s" "p < memory_data_size s div PAGE_SIZE"
  shows "length (page_input f s p) = length (page_input g s p)"
proof -
  have "length (concat (map (chunk_input f s) [16 * p..<16 * p + 16]))
      = length (concat (map (chunk_input g s) [16 * p..<16 * p + 16]))" if "mr_extend s"
    using that length_chunk_input assms chunks_of_pages [OF assms(1)]
    by (intro length_concat_map_cong) auto
  then show ?thesis by (simp add: page_input_def length_mem_record del: upt_conv_Cons)
qed

lemma length_section_input:
  assumes "section_ok (length f) s" "section_ok (length g) s"
  shows "length (section_input f s) = length (section_input g s)"
  unfolding section_input_def
  by (rule length_concat_map_cong) (rule length_page_input [OF assms], simp)

lemma section_input_binds:
  assumes ok: "section_ok (length f) s" "section_ok (length g) s" and ext: "mr_extend s"
    and eq: "section_input f s = section_input g s"
  shows "subslice f (data_offset s) (data_offset s + memory_data_size s)
    = subslice g (data_offset s) (data_offset s + memory_data_size s)"
proof -
  let ?n = "memory_data_size s div PAGE_SIZE" and ?m = "memory_data_size s div MR_EXTEND_GRANULARITY"
  note C = chunks_of_pages [OF ok(1)]
  have m: "?m * MR_EXTEND_GRANULARITY = memory_data_size s" using C by metis
  have len: "length (chunk_input h s k) = 384" if "section_ok (length h) s" "k < 16 * ?n" for h k
    using length_chunk_input [OF that(1) ext] that(2) C by simp
  have page: "page_input f s p = page_input g s p" if "p < ?n" for p
    using concat_map_inject [of "[0..<?n]" "page_input f s" "page_input g s" p]
      length_page_input [OF ok] that eq
    by (simp add: section_input_def)
  have chunk: "chunk_input f s k = chunk_input g s k" if "k < ?m" for k
  proof -
    let ?p = "k div 16"
    have p: "?p < ?n" using that C by (simp add: less_mult_imp_div_less)
    have "concat (map (chunk_input f s) [16 * ?p..<16 * ?p + 16])
        = concat (map (chunk_input g s) [16 * ?p..<16 * ?p + 16])"
      using page [OF p] ext by (simp add: page_input_def)
    moreover have "length (chunk_input f s j) = length (chunk_input g s j)"
      if "j \<in> set [16 * ?p..<16 * ?p + 16]" for j
      using that p len ok by simp
    moreover have "k \<in> set [16 * ?p..<16 * ?p + 16]"
      using div_mult_mod_eq [of k 16] mod_less_divisor [of 16 k] by (simp add: mult.commute)
    ultimately show ?thesis
      using concat_map_inject [of "[16 * ?p..<16 * ?p + 16]" "chunk_input f s" "chunk_input g s" k]
      by blast
  qed
  have "subslice f (data_offset s) (data_offset s + ?m * MR_EXTEND_GRANULARITY)
      = subslice g (data_offset s) (data_offset s + ?m * MR_EXTEND_GRANULARITY)"
  proof (rule subslice_blocks)
    show "0 < MR_EXTEND_GRANULARITY" by (simp add: MR_EXTEND_GRANULARITY_def)
    show "subslice f (data_offset s + k * MR_EXTEND_GRANULARITY)
          (data_offset s + k * MR_EXTEND_GRANULARITY + MR_EXTEND_GRANULARITY)
        = subslice g (data_offset s + k * MR_EXTEND_GRANULARITY)
          (data_offset s + k * MR_EXTEND_GRANULARITY + MR_EXTEND_GRANULARITY)" if "k < ?m" for k
      using chunk [OF that] by (simp add: chunk_input_def length_mem_record)
  qed (unfold m, use ok ext in \<open>simp_all add: section_ok_def\<close>)
  then show ?thesis unfolding m .
qed

section \<open>Facts about the memory acceptor\<close>

abbreviation lo :: "mem_range \<Rightarrow> nat" where "lo r \<equiv> fst (snd r)"

abbreviation hi :: "mem_range \<Rightarrow> nat" where "hi r \<equiv> snd (snd r)"

text \<open>Sorted, disjoint, non-empty ranges, and the addresses they cover with a given state.\<close>

definition well_formed :: "mem_range list \<Rightarrow> bool" where
  "well_formed rs \<longleftrightarrow> sorted_wrt (\<lambda>r r'. hi r \<le> lo r') rs \<and> (\<forall>r \<in> set rs. lo r < hi r)"

fun covers :: "mem_range list \<Rightarrow> bool \<Rightarrow> nat set" where
  "covers [] acc = {}"
| "covers (r # rs) acc = (if fst r = acc then {lo r..<hi r} else {}) \<union> covers rs acc"

lemma covers_append [simp]: "covers (rs @ rs') acc = covers rs acc \<union> covers rs' acc"
  by (induction rs) auto

lemma covers_iff: "x \<in> covers rs acc \<longleftrightarrow> (\<exists>r \<in> set rs. fst r = acc \<and> lo r \<le> x \<and> x < hi r)"
  by (induction rs) auto

lemma covers_sort [simp]: "covers (sort_key k rs) acc = covers rs acc"
  by (rule set_eqI) (simp add: covers_iff)

lemma well_formed_simps [simp]:
  "well_formed []"
  "well_formed (r # rs) \<longleftrightarrow> lo r < hi r \<and> (\<forall>r' \<in> set rs. hi r \<le> lo r') \<and> well_formed rs"
  "well_formed (rs @ rs') \<longleftrightarrow> well_formed rs \<and> well_formed rs'
     \<and> (\<forall>r \<in> set rs. \<forall>r' \<in> set rs'. hi r \<le> lo r')"
  by (auto simp: well_formed_def sorted_wrt_append)

lemma well_formed_nonempty: "well_formed rs \<Longrightarrow> r \<in> set rs \<Longrightarrow> lo r < hi r"
  by (simp add: well_formed_def)

lemma well_formed_distinct: "well_formed rs \<Longrightarrow> distinct rs"
  by (induction rs) fastforce+

lemma well_formed_pair:
  "well_formed rs \<Longrightarrow> r \<in> set rs \<Longrightarrow> r' \<in> set rs \<Longrightarrow> r \<noteq> r' \<Longrightarrow> hi r \<le> lo r' \<or> hi r' \<le> lo r"
  by (induction rs) auto

lemma sorted_by_start:
  assumes "sorted (map lo rs)" and "distinct rs" and "\<forall>r \<in> set rs. lo r < hi r"
    and "\<forall>r \<in> set rs. \<forall>r' \<in> set rs. r \<noteq> r' \<longrightarrow> hi r \<le> lo r' \<or> hi r' \<le> lo r"
  shows "well_formed rs"
  using assms
proof (induction rs)
  case (Cons r rs)
  have "hi r \<le> lo r'" if "r' \<in> set rs" for r'
  proof -
    have "r \<noteq> r'" using Cons.prems(2) that by auto
    then have "hi r \<le> lo r' \<or> hi r' \<le> lo r" using Cons.prems(4) that by simp
    moreover have "lo r \<le> lo r'" "lo r' < hi r'" using Cons.prems(1,3) that by simp_all
    ultimately show ?thesis by linarith
  qed
  then show ?case using Cons by simp
qed simp

lemma carve_range:
  "r' \<in> set (carve start stop r) \<Longrightarrow> start < stop \<Longrightarrow> lo r < hi r \<Longrightarrow>
     lo r' < hi r' \<and> fst r' = fst r \<and> lo r \<le> lo r' \<and> hi r' \<le> hi r"
  by (cases r) (auto simp: carve_def split: if_splits)

lemma carve_well_formed: "lo r < hi r \<Longrightarrow> start < stop \<Longrightarrow> well_formed (carve start stop r)"
  by (cases r) (auto simp: carve_def)

lemma carved_well_formed:
  "well_formed rs \<Longrightarrow> start < stop \<Longrightarrow> well_formed (concat (map (carve start stop) rs))"
proof (induction rs)
  case (Cons r rs)
  have "hi r1 \<le> lo r3"
    if "r1 \<in> set (carve start stop r)" "r2 \<in> set rs" "r3 \<in> set (carve start stop r2)" for r1 r2 r3
    using carve_range [OF that(1) Cons.prems(2)] carve_range [OF that(3) Cons.prems(2)]
      well_formed_nonempty [of rs r2] that(2) Cons.prems(1) by fastforce
  then show ?case
    using Cons.IH Cons.prems carve_well_formed [of r start stop] by auto
qed simp

text \<open>The accepted ranges stay clear of a new one.\<close>

definition clear :: "mem_range list \<Rightarrow> nat \<Rightarrow> nat \<Rightarrow> bool" where
  "clear rs start stop \<longleftrightarrow> covers rs True \<inter> {start..<stop} = {}"

lemma covers_carve:
  "lo r < hi r \<Longrightarrow> start < stop \<Longrightarrow>
     covers (carve start stop r) True = covers [r] True
     \<and> covers (carve start stop r) False = covers [r] False - {start..<stop}"
  by (cases r) (auto simp: carve_def)

lemma covers_carved:
  "well_formed rs \<Longrightarrow> start < stop \<Longrightarrow>
     covers (concat (map (carve start stop) rs)) True = covers rs True
     \<and> covers (concat (map (carve start stop) rs)) False = covers rs False - {start..<stop}"
proof (induction rs)
  case (Cons r rs)
  then show ?case using covers_carve [of r start stop] by (auto split: if_splits)
qed simp

lemma carved_avoids:
  assumes "well_formed rs" "start < stop" "clear rs start stop"
    and "r \<in> set (concat (map (carve start stop) rs))"
  shows "hi r \<le> start \<or> stop \<le> lo r"
proof (rule ccontr)
  let ?c = "concat (map (carve start stop) rs)"
  assume "\<not> ?thesis"
  moreover have "lo r < hi r"
    using well_formed_nonempty [OF carved_well_formed [OF assms(1,2)] assms(4)] .
  ultimately have "max (lo r) start \<in> covers ?c (fst r)" "max (lo r) start \<in> {start..<stop}"
    using assms(2,4) unfolding covers_iff by (auto simp del: set_concat intro!: bexI [of _ r])
  then show False
    using covers_carved [OF assms(1,2)] assms(3) by (cases "fst r") (auto simp: clear_def)
qed

lemma sorted_insert_well_formed:
  assumes wf: "well_formed c" and "start < stop" and av: "\<And>r. r \<in> set c \<Longrightarrow> hi r \<le> start \<or> stop \<le> lo r"
  shows "well_formed (sort_key lo (c @ [(acc, start, stop)]))"
proof (rule sorted_by_start)
  have "(acc, start, stop) \<notin> set c" using av [of "(acc, start, stop)"] assms(2) by auto
  then show "distinct (sort_key lo (c @ [(acc, start, stop)]))"
    using well_formed_distinct [OF wf] by simp
  show "\<forall>r \<in> set (sort_key lo (c @ [(acc, start, stop)])). lo r < hi r"
    using well_formed_nonempty [OF wf] assms(2) by auto
  show "\<forall>r \<in> set (sort_key lo (c @ [(acc, start, stop)])).
      \<forall>r' \<in> set (sort_key lo (c @ [(acc, start, stop)])).
      r \<noteq> r' \<longrightarrow> hi r \<le> lo r' \<or> hi r' \<le> lo r"
  proof (intro ballI impI)
    fix r r'
    assume "r \<in> set (sort_key lo (c @ [(acc, start, stop)]))"
      "r' \<in> set (sort_key lo (c @ [(acc, start, stop)]))" "r \<noteq> r'"
    then have "r \<in> set c \<and> r' \<in> set c \<or> r \<in> set c \<and> r' = (acc, start, stop)
      \<or> r = (acc, start, stop) \<and> r' \<in> set c" by auto
    then show "hi r \<le> lo r' \<or> hi r' \<le> lo r"
      using well_formed_pair [OF wf _ _ \<open>r \<noteq> r'\<close>] av [of r] av [of r'] by auto
  qed
qed simp

lemma accept_step:
  assumes "well_formed rs" and "start < stop" and "clear rs start stop"
  shows "well_formed (accept rs start stop)"
    and "covers (accept rs start stop) True = covers rs True \<union> {start..<stop}"
    and "covers (accept rs start stop) False = covers rs False - {start..<stop}"
proof -
  have key: "(\<lambda>(_, s, _). s) = (lo :: mem_range \<Rightarrow> nat)" by (simp add: fun_eq_iff)
  have "well_formed (sort_key lo (concat (map (carve start stop) rs) @ [(True, start, stop)]))"
    using carved_well_formed [OF assms(1,2)] assms(2) carved_avoids [OF assms]
    by (rule sorted_insert_well_formed)
  then show "well_formed (accept rs start stop)" using assms(2) by (simp add: accept_def key)
  show "covers (accept rs start stop) True = covers rs True \<union> {start..<stop}"
    "covers (accept rs start stop) False = covers rs False - {start..<stop}"
    using covers_carved [OF assms(1,2)] assms(2) by (simp_all add: accept_def)
qed

text \<open>The guest memory that the sections occupy before the guest starts.\<close>

definition accepted_regions :: "tdvf_section list \<Rightarrow> (nat \<times> nat) list" where
  "accepted_regions ss =
     map (\<lambda>s. (memory_address s, memory_address s + memory_data_size s))
       (filter (\<lambda>s. sec_type s = TDVF_SECTION_TD_HOB \<or> sec_type s = TDVF_SECTION_TEMP_MEM) ss)"

definition region_union :: "(nat \<times> nat) list \<Rightarrow> nat set" where
  "region_union regs = (\<Union>(a, b) \<in> set regs. {a..<b})"

definition regions_disjoint :: "(nat \<times> nat) list \<Rightarrow> bool" where
  "regions_disjoint regs \<longleftrightarrow> sorted_wrt (\<lambda>(a, b) (c, d). {a..<b} \<inter> {c..<d} = {}) regs"

lemma accept_empty: "stop \<le> start \<Longrightarrow> accept rs start stop = rs"
  by (simp add: accept_def)

lemma accept_any:
  assumes "well_formed rs" and "clear rs start stop"
  shows "well_formed (accept rs start stop)
    \<and> covers (accept rs start stop) True = covers rs True \<union> {start..<stop}
    \<and> covers (accept rs start stop) False = covers rs False - {start..<stop}"
  using accept_step [OF assms(1) _ assms(2)] assms(1) accept_empty [of stop start rs]
  by (cases "start < stop") auto

lemma accept_sections_Cons:
  assumes "memory_address s + memory_data_size s < u64_limit"
  shows "accept_sections (s # ss) rs base =
    accept_sections ss
      (foldl (\<lambda>rs (a, b). accept rs a b) rs (accepted_regions [s]))
      (if sec_type s = TDVF_SECTION_TD_HOB then memory_address s else base)"
  using assms by (simp add: accepted_regions_def checked_add_def del: checked_add_eq)

lemma accept_sections_partition:
  assumes "well_formed rs" and "regions_disjoint (accepted_regions ss)"
    and "covers rs True \<inter> region_union (accepted_regions ss) = {}"
    and "\<forall>s \<in> set ss. memory_address s + memory_data_size s < u64_limit"
  shows "\<exists>rs' base'. accept_sections ss rs base = Inr (rs', base') \<and> well_formed rs'
    \<and> covers rs' True = covers rs True \<union> region_union (accepted_regions ss)
    \<and> covers rs' False = covers rs False - region_union (accepted_regions ss)"
  using assms
proof (induction ss arbitrary: rs base)
  case Nil
  then show ?case by (simp add: accepted_regions_def region_union_def)
next
  case (Cons s ss)
  let ?a = "memory_address s" and ?b = "memory_address s + memory_data_size s"
  let ?base = "if sec_type s = TDVF_SECTION_TD_HOB then memory_address s else base"
  note step = accept_sections_Cons [of s ss rs base]
  show ?case
  proof (cases "sec_type s = TDVF_SECTION_TD_HOB \<or> sec_type s = TDVF_SECTION_TEMP_MEM")
    case True
    have regs: "accepted_regions (s # ss) = (?a, ?b) # accepted_regions ss"
      "accepted_regions [s] = [(?a, ?b)]"
      using True by (simp_all add: accepted_regions_def)
    have "clear rs ?a ?b" using Cons.prems(3) by (auto simp: regs region_union_def clear_def)
    note acc = accept_any [OF Cons.prems(1) this]
    have disj: "{?a..<?b} \<inter> region_union (accepted_regions ss) = {}"
      using Cons.prems(2) by (auto simp: regs regions_disjoint_def region_union_def)
    have "\<exists>rs' base'. accept_sections ss (accept rs ?a ?b) ?base = Inr (rs', base') \<and> well_formed rs'
      \<and> covers rs' True = covers (accept rs ?a ?b) True \<union> region_union (accepted_regions ss)
      \<and> covers rs' False = covers (accept rs ?a ?b) False - region_union (accepted_regions ss)"
      by (rule Cons.IH)
        (use acc disj Cons.prems in \<open>auto simp: regs regions_disjoint_def region_union_def\<close>)
    moreover have "region_union (accepted_regions (s # ss)) = {?a..<?b} \<union> region_union (accepted_regions ss)"
      by (auto simp: regs region_union_def)
    ultimately show ?thesis using step Cons.prems(4) acc unfolding regs(2)
      by (auto simp: Diff_eq Un_assoc)
  next
    case False
    have regs: "accepted_regions (s # ss) = accepted_regions ss" "accepted_regions [s] = []"
      using False by (simp_all add: accepted_regions_def)
    show ?thesis
      using step Cons.IH [of rs ?base] Cons.prems unfolding regs by auto
  qed
qed

lemma acpi_load_save:
  assumes "length (loader_hash h) = 48" "length (rsdp_hash h) = 48" "length (tables_hash h) = 48"
  shows "acpi_load (acpi_save h) = Inr h"
proof -
  have g: "CHR 0x0A \<notin> set (hex_encode b) \<and> CHR 0x0D \<notin> set (hex_encode b)" for b
    using graphic_hex_encode [of b] by (auto simp: graphic_def byte_of_def)
  have "str_lines (acpi_save h)
      = [hex_encode (loader_hash h), hex_encode (rsdp_hash h), hex_encode (tables_hash h)]"
    using g by (simp add: acpi_save_def newline_def str_lines_Cons)
  then show ?thesis using assms by (simp add: acpi_load_def trim_graphic graphic_hex_encode)
qed

lemma length_resource_hob [simp]: "length (resource_hob t a n) = 48"
  by (simp add: resource_hob_def)

lemma length_phit_hob [simp]: "length phit_hob = 56"
  by (simp add: phit_hob_def)

lemma hob_lengths:
  "collect_results range_hob rs = Inr hobs \<Longrightarrow> length (concat hobs) = 48 * length rs"
  by (induction rs arbitrary: hobs)
    (auto simp: range_hob_def list_all2_Cons1 split: prod.splits)

section \<open>Properties\<close>

text \<open>
  What \<open>Tdvf::parse\<close> guarantees: every section of a parsed firmware has page-aligned address and size,
  its data lies inside the firmware, and so does the whole region that MRTD hashes.  Parsing never
  panics.
\<close>

theorem tdvf_parse_sections_ok:
  "tdvf_parse f \<noteq> Some panic
   \<and> (tdvf_parse f = Some (Inr t) \<longrightarrow> fw t = f \<and> list_all (section_ok (length f)) (sections t))"
proof -
  have guid: "encode_guid g \<noteq> panic" for g
    by (auto simp: encode_guid_def decode_atom_def Let_def and_then_eq_Inl dest!: collect_results_panic)
  have "guid_tables f \<noteq> panic" using guid by (auto simp: guid_tables_def Let_def and_then_eq_Inl)
  moreover have "descriptor f data \<noteq> panic" for data
    by (auto simp: descriptor_def Let_def and_then_eq_Inl)
  then have "parse_descriptor f entry \<noteq> panic" for entry
    using check_section_no_panic
    by (auto simp: parse_descriptor_def and_then_eq_Inl dest!: collect_results_panic)
  ultimately show ?thesis
    using guid find_entry_no_panic parse_descriptor_Inr
    by (auto simp: tdvf_parse_def and_then_eq_Inl bind_eq_Some_conv
        split: sum.splits prod.splits dest!: sym [of _ "and_then _ _"])
qed

text \<open>
  C26. When the table walk does not end: \<open>Tdvf::parse\<close> fails to return exactly for the firmware images whose
  GUID table, followed backwards by its entry lengths, reaches an entry of length zero that is not the
  TDX metadata entry.
\<close>

theorem tdvf_parse_diverges_iff:
  "tdvf_parse f = None \<longleftrightarrow>
     (\<exists>tables guid off. guid_tables f = Inr tables \<and> encode_guid TDX_METADATA_OFFSET_GUID = Inr guid
        \<and> visits guid tables (length tables) off \<and> stuck guid tables off)"
proof -
  have walk: "find_entry guid tables n = None \<longleftrightarrow> (\<exists>off. visits guid tables n off \<and> stuck guid tables off)"
    for guid tables n
    using find_entry_Some_not_stuck [of guid tables n] find_entry_not_stuck_Some [of guid tables n]
    by (cases "find_entry guid tables n") auto
  show ?thesis
    by (cases "guid_tables f"; cases "encode_guid TDX_METADATA_OFFSET_GUID")
      (auto simp: tdvf_parse_def walk bind_eq_None_conv)
qed

text \<open>
  MRTD is total on parsed firmware and is the hash of the specified record sequence: for each section and
  page a \<open>MEM.PAGE.ADD\<close> record unless the page is added later, and for measured sections sixteen
  \<open>MR.EXTEND\<close> records with the 256 bytes of the firmware they name.
\<close>

theorem mrtd_hashes_sections:
  assumes "tdvf_parse f = Some (Inr t)" and "list_all section_fits_u64 (sections t)"
    and "length f < u64_limit"
  shows "mrtd sha t = Inr (sha384 sha (concat (map (section_input f) (sections t))))"
proof -
  have "fw t = f \<and> list_all (section_ok (length f)) (sections t)"
    using assms(1) parse_descriptor_Inr
    by (auto simp: tdvf_parse_def bind_eq_Some_conv split: sum.splits)
  then show ?thesis using mrtd_input_eq [of t] assms(2,3) by (simp add: mrtd_def)
qed

text \<open>
  C10. What MRTD commits to: two parsed firmware images with the same section table and the same MRTD have the
  same bytes in every measured region, or the two record sequences are a collision of SHA-384.
\<close>

theorem mrtd_binds_firmware:
  assumes "list_all (section_ok (length (fw t))) (sections t)"
    and "list_all (section_ok (length (fw t'))) (sections t')"
    and "sections t = sections t'" and "list_all section_fits_u64 (sections t)"
    and "length (fw t) < u64_limit" "length (fw t') < u64_limit"
    and "mrtd sha t = mrtd sha t'" and "s \<in> set (sections t)" and "mr_extend s"
  shows "subslice (fw t) (data_offset s) (data_offset s + memory_data_size s)
      = subslice (fw t') (data_offset s) (data_offset s + memory_data_size s)
    \<or> (\<exists>m m'. mrtd_input t = Inr m \<and> mrtd_input t' = Inr m' \<and> collision_in sha [m, m'])"
proof -
  let ?m = "concat (map (section_input (fw t)) (sections t))"
  let ?m' = "concat (map (section_input (fw t')) (sections t))"
  have m: "mrtd_input t = Inr ?m" "mrtd_input t' = Inr ?m'"
    using mrtd_input_eq [of t] mrtd_input_eq [of t'] assms(1-6) by simp_all
  show ?thesis
  proof (cases "?m = ?m'")
    case True
    have "section_input (fw t) s = section_input (fw t') s"
      by (rule concat_map_inject [OF _ True assms(8)], rule length_section_input)
        (use assms(1-3) in \<open>auto simp: list_all_iff\<close>)
    then show ?thesis
      using section_input_binds assms(1-3,8,9) by (auto simp: list_all_iff)
  next
    case False
    then show ?thesis using m assms(7) by (auto simp: mrtd_def collision_in_def)
  qed
qed


text \<open>
  Layout of the TD HOB: 56 bytes of hand-off table and 48 bytes per range, one more when guest memory
  reaches beyond the hole below 4 GiB; its \<open>EfiEndOfHobList\<close> field points eight bytes behind the list,
  counted from the address of the last HOB section.
\<close>

theorem td_hob_layout:
  assumes "build_td_hob t memory_size = Inr hob"
    and "accept_sections (sections t) [(False, 0, memory_size)] 0x809000 = Inr (rs, base)"
  shows "length hob = 56 + 48 * (length rs + (if 0xB0000000 \<le> memory_size then 1 else 0))
    \<and> u64_at hob 48 = base + length hob + 8"
proof -
  obtain acc a b where l: "last rs = (acc, a, b)" by (cases "last rs")
  obtain hobs lasts e where h: "rs \<noteq> []" "collect_results range_hob (butlast rs) = Inr hobs"
      "last_range_hobs memory_size a b = Inr lasts"
      "e = base + length (phit_hob @ concat hobs @ concat lasts) + 8" "e < u64_limit"
      "hob = overwrite (phit_hob @ concat hobs @ concat lasts) 48 (le_bytes 8 e)"
    using assms l
    by (auto simp: build_td_hob_def acceptor_new_def simp del: collect_results_Inr_iff)
  have "length (concat lasts) = 48 * (if 0xB0000000 \<le> memory_size then 2 else 1)"
    using h(3) by (auto simp: last_range_hobs_def split: if_splits)
  then have len: "length (phit_hob @ concat hobs @ concat lasts)
      = 56 + 48 * (length rs + (if 0xB0000000 \<le> memory_size then 1 else 0))"
    using hob_lengths [OF h(2)] h(1) by (cases rs) auto
  then have "subslice hob 48 56 = le_bytes 8 e"
    using subslice_overwritten [of 48 "le_bytes 8 e" "phit_hob @ concat hobs @ concat lasts"]
    unfolding h(6) by simp
  then have "u64_at hob 48 = e"
    using h(5) by (simp add: u64_at_def le_nat_le_bytes u64_limit_def)
  moreover have "length hob = length (phit_hob @ concat hobs @ concat lasts)"
    unfolding h(6) by (rule length_overwrite) (simp add: len)
  ultimately show ?thesis using len h(4) by simp
qed

text \<open>
  ACPI hashes survive a save and load: reading back the three hexadecimal lines gives the same digests.
\<close>

theorem acpi_hashes_round_trip:
  assumes "length (loader_hash h) = 48" "length (rsdp_hash h) = 48" "length (tables_hash h) = 48"
  shows "acpi_load (acpi_save h) = Inr h"
  by (rule acpi_load_save [OF assms])

section \<open>A sample firmware\<close>

lemma encoded_guids:
  "encode_guid TABLE_FOOTER_GUID = Inr [0xde, 0x82, 0xb5, 0x96, 0xb2, 0x1f, 0xf7, 0x45, 0xba, 0xea,
     0xa3, 0x66, 0xc5, 0x5a, 0x08, 0x2d]"
  "encode_guid TDX_METADATA_OFFSET_GUID = Inr [0x35, 0x65, 0x7a, 0xe4, 0x4a, 0x98, 0x98, 0x47, 0x86,
     0x5e, 0x46, 0x85, 0xa7, 0xbf, 0x8e, 0xc2]"
  by (simp_all add: encode_guid_def TABLE_FOOTER_GUID_def TDX_METADATA_OFFSET_GUID_def decode_atom_def
      hex_val_def Let_def enumerate_eq_zip upt_rec del: collect_results_Inr_iff)

text \<open>
  A firmware of 4216 bytes: one page of measured data that starts with \<open>c\<close>, the descriptor with one
  section of type CFV at guest address 8192, the table with the metadata entry, and the footer.
\<close>

definition sample_section :: tdvf_section where
  "sample_section = \<lparr> data_offset = 0, raw_data_size = 4096, memory_address = 8192,
     memory_data_size = 4096, sec_type = 1, attributes = 1 \<rparr>"

definition sample_table :: bytes where
  "sample_table = [120, 0, 0, 0, 4, 0, 0x35, 0x65, 0x7a, 0xe4, 0x4a, 0x98, 0x98, 0x47, 0x86, 0x5e,
     0x46, 0x85, 0xa7, 0xbf, 0x8e, 0xc2]"

definition footer :: "bytes \<Rightarrow> bytes" where
  "footer tables = tables @ le_bytes 2 (length tables)
     @ [0xde, 0x82, 0xb5, 0x96, 0xb2, 0x1f, 0xf7, 0x45, 0xba, 0xea, 0xa3, 0x66, 0xc5, 0x5a, 0x08, 0x2d]
     @ zeros 32"

definition sample_fw :: "byte \<Rightarrow> bytes" where
  "sample_fw c = c # zeros 4095 @ [0x54, 0x44, 0x56, 0x46] @ le_bytes 4 48 @ le_bytes 4 1 @ le_bytes 4 1
     @ le_bytes 4 0 @ le_bytes 4 4096 @ le_bytes 8 8192 @ le_bytes 8 4096 @ le_bytes 4 1 @ le_bytes 4 1
     @ footer sample_table"

lemma footer_tables:
  assumes "tables \<noteq> []" "length tables < 2 ^ 16"
  shows "guid_tables (pre @ footer tables) = Inr tables"
proof -
  have "u16_at (pre @ footer tables) (length pre + length tables) = length tables"
    using u16_at_written [of "length tables" _ "pre @ tables"] assms(2)
    by (simp add: footer_def)
  then show ?thesis
    using assms(1)
    by (simp add: guid_tables_def encoded_guids footer_def subslice_def Let_def)
qed

lemma sample_fw_split: "sample_fw c = (c # zeros 4095 @ [0x54, 0x44, 0x56, 0x46] @ le_bytes 4 48
     @ le_bytes 4 1 @ le_bytes 4 1 @ le_bytes 4 0 @ le_bytes 4 4096 @ le_bytes 8 8192 @ le_bytes 8 4096
     @ le_bytes 4 1 @ le_bytes 4 1) @ footer sample_table"
  by (simp add: sample_fw_def)

lemma sample_entry:
  "find_entry [0x35, 0x65, 0x7a, 0xe4, 0x4a, 0x98, 0x98, 0x47, 0x86, 0x5e, 0x46, 0x85, 0xa7, 0xbf, 0x8e,
     0xc2] sample_table (length sample_table) = Some (Inr (Some [120, 0, 0, 0]))"
  by (subst find_entry.simps)
    (simp add: sample_table_def entry_len_at_def entry_guid_at_def exec_simps)

lemma sample_descriptor:
  "parse_descriptor (sample_fw c) (Some [120, 0, 0, 0])
     = Inr \<lparr> fw = sample_fw c, sections = [sample_section] \<rparr>"
proof -
  have len: "length (sample_fw c) = 4216"
    by (simp add: sample_fw_def footer_def sample_table_def)
  have desc: "subslice (sample_fw c) 4096 4112
      = [0x54, 0x44, 0x56, 0x46] @ le_bytes 4 48 @ le_bytes 4 1 @ le_bytes 4 1"
    "subslice (sample_fw c) 4112 4144 = le_bytes 4 0 @ le_bytes 4 4096 @ le_bytes 8 8192
      @ le_bytes 8 4096 @ le_bytes 4 1 @ le_bytes 4 1"
    by (simp_all add: sample_fw_def subslice_def drop_Cons')
  have raw: "u32_at [120, 0, 0, 0] 0 = 120" by (simp add: u32_at_def subslice_def)
  have "descriptor (sample_fw c) [120, 0, 0, 0] = Inr (4096, 1)"
    by (simp add: descriptor_def len desc raw Let_def)
      (simp add: u32_at_def subslice_def as_bytes_def le_nat_le_bytes checked_add_def checked_mul_def
        u64_limit_def)
  moreover have "read_section (sample_fw c) 4096 0 = sample_section"
    by (simp add: read_section_def desc Let_def)
      (simp add: u32_at_def u64_at_def subslice_def le_nat_le_bytes sample_section_def)
  moreover have "check_section 4216 0 sample_section = Inr sample_section"
    by (simp add: check_section_def sample_section_def PAGE_SIZE_def checked_add_def u64_limit_def
        mr_extend_def)
  ultimately show ?thesis by (simp add: parse_descriptor_def len)
qed

lemma sample_parse:
  "tdvf_parse (sample_fw c) = Some (Inr \<lparr> fw = sample_fw c, sections = [sample_section] \<rparr>)"
proof -
  have "guid_tables (sample_fw c) = Inr sample_table"
    unfolding sample_fw_split by (rule footer_tables) (simp_all add: sample_table_def)
  then show ?thesis
    using sample_entry sample_descriptor by (simp add: tdvf_parse_def encoded_guids)
qed

text \<open>A table that consists of one all-zero entry makes the parser run for ever.\<close>

lemma tdvf_parse_diverges_on_zero_entry: "tdvf_parse (pre @ footer (zeros 18)) = None"
proof -
  have "guid_tables (pre @ footer (zeros 18)) = Inr (zeros 18)"
    by (rule footer_tables) (simp_all add: zeros_def)
  moreover have "stuck [0x35, 0x65, 0x7a, 0xe4, 0x4a, 0x98, 0x98, 0x47, 0x86, 0x5e, 0x46, 0x85, 0xa7,
      0xbf, 0x8e, 0xc2] (zeros 18) 18"
    by (simp add: stuck_def entry_len_at_def entry_guid_at_def exec_simps)
  then have "find_entry [0x35, 0x65, 0x7a, 0xe4, 0x4a, 0x98, 0x98, 0x47, 0x86, 0x5e, 0x46, 0x85, 0xa7,
      0xbf, 0x8e, 0xc2] (zeros 18) 18 = None"
    using find_entry_Some_not_stuck visits.start by (metis not_None_eq)
  ultimately show ?thesis by (simp add: tdvf_parse_def encoded_guids)
qed

section \<open>Witnesses\<close>

lemma sample_fits: "section_fits_u64 sample_section" "mr_extend sample_section"
  "section_ok (length (sample_fw c)) sample_section" "length (sample_fw c) < u64_limit"
  by (simp_all add: section_fits_u64_def sample_section_def u64_limit_def mr_extend_def
      section_ok_def PAGE_SIZE_def ATTRIBUTE_MR_EXTEND_def sample_fw_def footer_def sample_table_def)

lemma sample_fields: "data_offset sample_section = 0" "memory_data_size sample_section = 4096"
  by (simp_all add: sample_section_def)

lemma tdvf_parse_sections_ok_witness: "section_ok (length (sample_fw 7)) sample_section"
  using tdvf_parse_sections_ok [of "sample_fw 7" "\<lparr> fw = sample_fw 7, sections = [sample_section] \<rparr>"]
    sample_parse [of 7] by simp

lemma mrtd_hashes_sections_witness:
  "\<forall>sha. mrtd sha \<lparr> fw = sample_fw 7, sections = [sample_section] \<rparr>
     = Inr (sha384 sha (section_input (sample_fw 7) sample_section))"
proof (rule allI)
  fix sha
  show "mrtd sha \<lparr> fw = sample_fw 7, sections = [sample_section] \<rparr>
     = Inr (sha384 sha (section_input (sample_fw 7) sample_section))"
    using mrtd_hashes_sections [OF sample_parse [of 7] _ sample_fits(4), of sha] sample_fits(1) by simp
qed

lemma mrtd_binds_firmware_witness:
  "\<exists>m m'. mrtd_input \<lparr> fw = sample_fw 7, sections = [sample_section] \<rparr> = Inr m
     \<and> mrtd_input \<lparr> fw = sample_fw 8, sections = [sample_section] \<rparr> = Inr m'
     \<and> collision_in (\<lambda>_. 0 :: digest) [m, m']"
proof -
  let ?t = "\<lambda>c. \<lparr> fw = sample_fw c, sections = [sample_section] \<rparr>"
  have "mrtd (\<lambda>_. 0) (?t c) = Inr (sha384 (\<lambda>_. 0) [])" for c
    using mrtd_input_eq [of "?t c"] sample_fits by (simp add: mrtd_def sha384_def)
  moreover have "subslice (sample_fw 7) 0 4096 \<noteq> subslice (sample_fw 8) 0 4096"
    by (simp add: sample_fw_def subslice_def take_Cons')
  ultimately show ?thesis
    using mrtd_binds_firmware [of "?t 7" "?t 8" "\<lambda>_. 0" sample_section] sample_fits
      sample_fields by simp
qed


lemma td_hob_layout_witness:
  "\<exists>hob. build_td_hob \<lparr> fw = [], sections = [] \<rparr> 65536 = Inr hob
     \<and> length hob = 104 \<and> u64_at hob 48 = 0x809000 + 112"
proof -
  have "\<exists>hob. build_td_hob \<lparr> fw = [], sections = [] \<rparr> 65536 = Inr hob"
    by (simp add: build_td_hob_def acceptor_new_def last_range_hobs_def u64_limit_def)
  then obtain hob where "build_td_hob \<lparr> fw = [], sections = [] \<rparr> 65536 = Inr hob" ..
  with td_hob_layout [OF this, of "[(False, 0, 65536)]" "0x809000"] show ?thesis by simp
qed

lemma acpi_hashes_round_trip_witness:
  "acpi_load (acpi_save \<lparr> loader_hash = zeros 48, rsdp_hash = replicate 48 1, tables_hash = zeros 48 \<rparr>)
     = Inr \<lparr> loader_hash = zeros 48, rsdp_hash = replicate 48 1, tables_hash = zeros 48 \<rparr>"
  by (rule acpi_hashes_round_trip) simp_all

end
