(* ===== verification/TdxMeasure.thy ===== *)
theory TdxMeasure
  imports Tdvf
begin

text \<open>
  \<open>crates/tdx-measure/src/main.rs\<close> and \<open>lib.rs\<close>: the commands of \<open>tdx-measure\<close>.  What a command prints is
  the value of its function; the file system is a parameter.  Commands that parse firmware have a
  result of type \<open>option\<close>, because \<open>Tdvf::parse\<close> may not return.
\<close>

section \<open>Errors\<close>

datatype cli_error =
    ReadInput string
  | PeError pe_error
  | RtmrError rtmr_error
  | TdvfError tdvf_error
  | CcelError ccel_error
  | ImageError image_error
  | MissingArgument string
  | AcpiFilesIncomplete
  | EmptyMemorySize
  | UnknownSuffix
  | InvalidNumber
  | MemorySizeOverflow
  | RegistersDoNotMatch

type_synonym files = "string \<Rightarrow> bytes option"

definition read_input :: "files \<Rightarrow> string \<Rightarrow> cli_error fault + bytes" where
  "read_input fs path = ok_or (Err (ReadInput path)) (fs path)"

definition read_optional :: "files \<Rightarrow> string option \<Rightarrow> cli_error fault + bytes option" where
  "read_optional fs path =
     (case path of None \<Rightarrow> Inr None | Some p \<Rightarrow> and_then (read_input fs p) (\<lambda>d. Inr (Some d)))"

section \<open>Memory sizes\<close>

definition size_multiplier :: "char \<Rightarrow> nat option" where
  "size_multiplier c =
     (if c = CHR ''k'' \<or> c = CHR ''K'' then Some 1024
      else if c = CHR ''m'' \<or> c = CHR ''M'' then Some (1024 * 1024)
      else if c = CHR ''g'' \<or> c = CHR ''G'' then Some (1024 * 1024 * 1024)
      else if c = CHR ''T'' \<or> c = CHR ''t'' then Some (1024 * 1024 * 1024 * 1024)
      else None)"

definition parse_memory_size :: "string \<Rightarrow> cli_error fault + nat" where
  "parse_memory_size input =
     (let s = trim input in
      and_then (ensure (s \<noteq> []) (Err EmptyMemorySize)) (\<lambda>_.
      and_then (case size_multiplier (last s) of
          Some m \<Rightarrow> Inr (butlast s, m)
        | None \<Rightarrow> if is_ascii_digit (last s) then Inr (s, 1) else bail UnknownSuffix)
        (\<lambda>(num_part, multiplier).
      and_then (ok_or (Err InvalidNumber) (parse_u64 num_part)) (\<lambda>num.
      ok_or (Err MemorySizeOverflow) (checked_mul num multiplier)))))"

section \<open>RTMR[3]\<close>

definition cmd_rtmr3 ::
  "(bytes \<Rightarrow> digest) \<Rightarrow> string list \<Rightarrow> cli_error fault + string list \<times> bytes" where
  "cmd_rtmr3 sha digests =
     and_then (collect_results (\<lambda>d. map_err ImageError (canonical_image_digest d)) digests) (\<lambda>canonical.
     Inr (canonical, compute_rtmr3_workloads sha canonical))"

section \<open>Measuring\<close>

record measurement =
  m_mrtd :: "bytes option"
  m_rtmr0 :: "(bytes \<times> nat) option"
  m_rtmr1 :: bytes
  m_rtmr2 :: bytes
  m_rtmr2_events :: nat

text \<open>\<open>Tdvf::parse\<close> on an optional firmware, with the divergence of the parser.\<close>

definition parse_firmware :: "bytes option \<Rightarrow> (cli_error fault + tdvf option) option" where
  "parse_firmware firmware =
     (case firmware of
        None \<Rightarrow> Some (Inr None)
      | Some f \<Rightarrow> map_option (\<lambda>r. and_then (map_err TdvfError r) (\<lambda>t. Inr (Some t))) (tdvf_parse f))"

definition opt_mrtd ::
  "(bytes \<Rightarrow> digest) \<Rightarrow> tdvf option \<Rightarrow> cli_error fault + bytes option" where
  "opt_mrtd sha t =
     (case t of
        None \<Rightarrow> Inr None
      | Some t \<Rightarrow> and_then (map_err TdvfError (mrtd sha t)) (\<lambda>m. Inr (Some m)))"

text \<open>The command line file of a direct boot: one trailing line feed is dropped.\<close>

definition drop_newline :: "string \<Rightarrow> string" where
  "drop_newline s = (case strip_suffix newline s of None \<Rightarrow> s | Some t \<Rightarrow> t)"

definition cmd_measure_direct_kernel ::
  "(bytes \<Rightarrow> digest) \<Rightarrow> files \<Rightarrow> (string \<Rightarrow> string option) \<Rightarrow> string option \<Rightarrow> string option
     \<Rightarrow> string option \<Rightarrow> (cli_error fault + measurement) option" where
  "cmd_measure_direct_kernel sha fs read_str kernel_path cmdline_file firmware_path =
     (case and_then (ok_or (Err (MissingArgument ''--kernel'')) kernel_path) (\<lambda>kp.
        and_then (ok_or (Err (MissingArgument ''--cmdline-file'')) cmdline_file) (\<lambda>cp.
        and_then (read_input fs kp) (\<lambda>kernel_pe.
        and_then (ok_or (Err (ReadInput cp)) (read_str cp)) (\<lambda>raw.
        and_then (map_err RtmrError (compute_rtmr1_direct_kernel sha kernel_pe)) (\<lambda>rtmr1.
        and_then (read_optional fs firmware_path) (\<lambda>firmware.
        Inr (rtmr1, compute_rtmr2_direct_kernel sha (drop_newline raw), firmware))))))) of
        Inl e \<Rightarrow> Some (Inl e)
      | Inr (rtmr1, rtmr2, firmware) \<Rightarrow>
          map_option (\<lambda>r. and_then r (\<lambda>t. and_then (opt_mrtd sha t) (\<lambda>m.
            Inr \<lparr> m_mrtd = m, m_rtmr0 = None, m_rtmr1 = rtmr1, m_rtmr2 = rtmr2,
                  m_rtmr2_events = 1 \<rparr>))) (parse_firmware firmware))"

text \<open>Lines 383--423: platform CCEL before hash file before raw tables.\<close>

record platform_args =
  platform_ccel :: "string option"
  acpi_hashes_path :: "string option"
  acpi_tables_path :: "string option"
  acpi_rsdp_path :: "string option"
  acpi_loader_path :: "string option"
  boot_vars_dir :: "string option"

definition resolve_acpi ::
  "(bytes \<Rightarrow> digest) \<Rightarrow> files \<Rightarrow> (string \<Rightarrow> string option) \<Rightarrow> platform_args \<Rightarrow> bytes option
     \<Rightarrow> cli_error fault + acpi_hashes option" where
  "resolve_acpi sha fs read_str args ccel_data =
     map_err TdvfError (case ccel_data of
        Some d \<Rightarrow> and_then (acpi_extract_from_ccel d) (\<lambda>h. Inr (Some h))
      | None \<Rightarrow>
          (case acpi_hashes_path args of
             Some hp \<Rightarrow>
               and_then (ok_or (Err ReadAcpiFile) (read_str hp)) (\<lambda>content.
               and_then (acpi_load content) (\<lambda>h. Inr (Some h)))
           | None \<Rightarrow>
               (case (acpi_tables_path args, acpi_rsdp_path args, acpi_loader_path args) of
                  (Some tables, Some rsdp, Some loader) \<Rightarrow>
                    and_then (acpi_from_files sha fs tables rsdp loader) (\<lambda>h. Inr (Some h))
                | _ \<Rightarrow> Inr None)))"

definition acpi_files_complete :: "platform_args \<Rightarrow> bytes option \<Rightarrow> bool" where
  "acpi_files_complete args ccel_data \<longleftrightarrow>
     ccel_data \<noteq> None \<or> acpi_hashes_path args \<noteq> None
     \<or> (acpi_tables_path args \<noteq> None \<longleftrightarrow> acpi_rsdp_path args \<noteq> None)
       \<and> (acpi_rsdp_path args \<noteq> None \<longleftrightarrow> acpi_loader_path args \<noteq> None)"

definition resolve_boot_vars ::
  "files \<Rightarrow> platform_args \<Rightarrow> bytes option \<Rightarrow> cli_error fault + bytes list option" where
  "resolve_boot_vars fs args ccel_data =
     map_err TdvfError (case ccel_data of
        Some d \<Rightarrow> and_then (boot_vars_extract_from_ccel d) (\<lambda>bv. Inr (Some bv))
      | None \<Rightarrow>
          (case boot_vars_dir args of
             Some dir \<Rightarrow>
               and_then (boot_vars_load_from_dir (\<lambda>name. fs (path_join dir name))) (\<lambda>bv. Inr (Some bv))
           | None \<Rightarrow> Inr None))"

definition opt_rtmr0 ::
  "(bytes \<Rightarrow> digest) \<Rightarrow> tdvf option \<Rightarrow> string \<Rightarrow> acpi_hashes option \<Rightarrow> bytes list option
     \<Rightarrow> cli_error fault + (bytes \<times> nat) option" where
  "opt_rtmr0 sha t memory acpi boot_vars =
     (case t of
        None \<Rightarrow> Inr None
      | Some t \<Rightarrow>
          and_then (parse_memory_size memory) (\<lambda>mem_size.
          and_then (map_err TdvfError (rtmr0 sha t mem_size acpi boot_vars)) (\<lambda>r. Inr (Some r))))"

text \<open>Lines 341--375: everything before the firmware is parsed.\<close>

definition measure_inputs ::
  "(bytes \<Rightarrow> digest) \<Rightarrow> ('dir, 'file) fat_driver \<Rightarrow> files \<Rightarrow> string option \<Rightarrow> string option \<Rightarrow> string option
     \<Rightarrow> cli_error fault + bytes \<times> bytes \<times> nat \<times> bytes option" where
  "measure_inputs sha fat fs uki_path disk_path firmware_path =
     and_then (ok_or (Err (MissingArgument ''--uki'')) uki_path) (\<lambda>up.
     and_then (read_input fs up) (\<lambda>uki_data.
     and_then (map_err PeError (parse_sections uki_data)) (\<lambda>secs.
     and_then (read_optional fs disk_path) (\<lambda>disk.
     and_then (map_err RtmrError (compute_rtmr1_uki sha fat uki_data secs disk)) (\<lambda>rtmr1.
     and_then (map_err RtmrError (compute_rtmr2_uki sha secs)) (\<lambda>(rtmr2, events).
     and_then (read_optional fs firmware_path) (\<lambda>firmware.
     Inr (rtmr1, rtmr2, events, firmware))))))))"

text \<open>Lines 381--458: MRTD and RTMR[0] from the parsed firmware and the platform data.\<close>

definition measure_platform ::
  "(bytes \<Rightarrow> digest) \<Rightarrow> files \<Rightarrow> (string \<Rightarrow> string option) \<Rightarrow> platform_args \<Rightarrow> string \<Rightarrow> tdvf option
     \<Rightarrow> cli_error fault + bytes option \<times> (bytes \<times> nat) option" where
  "measure_platform sha fs read_str args memory t =
     and_then (opt_mrtd sha t) (\<lambda>m.
     and_then (read_optional fs (platform_ccel args)) (\<lambda>ccel_data.
     and_then (ensure (acpi_files_complete args ccel_data) (Err AcpiFilesIncomplete)) (\<lambda>_.
     and_then (resolve_acpi sha fs read_str args ccel_data) (\<lambda>acpi.
     and_then (resolve_boot_vars fs args ccel_data) (\<lambda>boot_vars.
     and_then (opt_rtmr0 sha t memory acpi boot_vars) (\<lambda>r0.
     Inr (m, r0)))))))"

definition cmd_measure_uki ::
  "(bytes \<Rightarrow> digest) \<Rightarrow> ('dir, 'file) fat_driver \<Rightarrow> files \<Rightarrow> (string \<Rightarrow> string option) \<Rightarrow> string option
     \<Rightarrow> string option \<Rightarrow> string option \<Rightarrow> platform_args \<Rightarrow> string
     \<Rightarrow> (cli_error fault + measurement) option" where
  "cmd_measure_uki sha fat fs read_str uki_path disk_path firmware_path args memory =
     (case measure_inputs sha fat fs uki_path disk_path firmware_path of
        Inl e \<Rightarrow> Some (Inl e)
      | Inr (rtmr1, rtmr2, events, firmware) \<Rightarrow>
          map_option (\<lambda>r. and_then r (\<lambda>t.
            and_then (measure_platform sha fs read_str args memory t) (\<lambda>(m, r0).
            Inr \<lparr> m_mrtd = m, m_rtmr0 = r0, m_rtmr1 = rtmr1, m_rtmr2 = rtmr2,
                  m_rtmr2_events = events \<rparr>))) (parse_firmware firmware))"

datatype boot_mode = Uki | DirectKernel

definition cmd_measure ::
  "(bytes \<Rightarrow> digest) \<Rightarrow> ('dir, 'file) fat_driver \<Rightarrow> files \<Rightarrow> (string \<Rightarrow> string option) \<Rightarrow> boot_mode
     \<Rightarrow> string option \<Rightarrow> string option \<Rightarrow> string option \<Rightarrow> string option \<Rightarrow> string option
     \<Rightarrow> string \<Rightarrow> platform_args \<Rightarrow> (cli_error fault + measurement) option" where
  "cmd_measure sha fat fs read_str mode uki_path kernel_path cmdline_file firmware_path disk_path
     memory args =
     (if mode = DirectKernel
      then cmd_measure_direct_kernel sha fs read_str kernel_path cmdline_file firmware_path
      else cmd_measure_uki sha fat fs read_str uki_path disk_path firmware_path args memory)"

section \<open>The library entry point\<close>

record uki_measurement =
  mrtd_hex :: string
  rtmr1_hex :: string
  rtmr2_hex :: string

definition measure_uki_topology_invariant ::
  "(bytes \<Rightarrow> digest) \<Rightarrow> ('dir, 'file) fat_driver \<Rightarrow> bytes \<Rightarrow> bytes \<Rightarrow> bytes option
     \<Rightarrow> (cli_error fault + uki_measurement) option" where
  "measure_uki_topology_invariant sha fat firmware uki disk_image =
     map_option (\<lambda>r.
       and_then (map_err TdvfError r) (\<lambda>t.
       and_then (map_err TdvfError (mrtd sha t)) (\<lambda>m.
       and_then (map_err PeError (parse_sections uki)) (\<lambda>secs.
       and_then (map_err RtmrError (compute_rtmr1_uki sha fat uki secs disk_image)) (\<lambda>r1.
       and_then (map_err RtmrError (compute_rtmr2_uki sha secs)) (\<lambda>(r2, _).
       Inr \<lparr> mrtd_hex = hex_encode m, rtmr1_hex = hex_encode r1, rtmr2_hex = hex_encode r2 \<rparr>))))))
       (tdvf_parse firmware)"

section \<open>Verifying\<close>

record verify_report =
  register_rows :: "(nat \<times> string) list"
  rtmr3_note :: bool
  all_match :: bool
  uki_rows :: "(string \<times> string \<times> string) list"
  uki_ok_count :: nat

definition register_row ::
  "ccel_event list \<Rightarrow> bytes list \<Rightarrow> bytes list \<Rightarrow> nat \<Rightarrow> nat \<times> string" where
  "register_row events replayed hw i =
     (length (filter (\<lambda>e. mr_index e = i + 1) events),
      if i = 3 then ''n/a'' else if digests_equal (replayed ! i) (hw ! i) then ''YES'' else ''NO'')"

text \<open>Lines 640--665: the precomputed digests against the RTMR[2] events of the log.\<close>

definition uki_row :: "ccel_event list \<Rightarrow> nat \<times> rtmr2_event \<Rightarrow> string \<times> string \<times> string" where
  "uki_row ccel_rtmr2 x =
     (case x of (i, kind, name, d) \<Rightarrow>
        (kind, name,
         if i < length ccel_rtmr2
         then (if digests_equal d (sha384_digest (ccel_rtmr2 ! i)) then ''OK'' else ''FAIL'')
         else ''no CCEL event''))"

definition verify_uki ::
  "(bytes \<Rightarrow> digest) \<Rightarrow> files \<Rightarrow> ccel_event list \<Rightarrow> string option
     \<Rightarrow> cli_error fault + (string \<times> string \<times> string) list" where
  "verify_uki sha fs events uki_path =
     (case uki_path of
        None \<Rightarrow> Inr []
      | Some p \<Rightarrow>
          and_then (read_input fs p) (\<lambda>uki_data.
          and_then (map_err PeError (parse_sections uki_data)) (\<lambda>secs.
          and_then (map_err RtmrError (precompute_rtmr2_digests sha secs)) (\<lambda>precomputed.
          let ccel_rtmr2 = filter (\<lambda>e. mr_index e = 3) events in
          and_then (collect_results (\<lambda>e. subslice_or_panic (hex_encode (sha384_digest e)) 0 32)
             (drop (length precomputed) ccel_rtmr2)) (\<lambda>_.
          Inr (map (uki_row ccel_rtmr2) (enumerate 0 precomputed)))))))"

definition verify_report_of ::
  "(bytes \<Rightarrow> digest) \<Rightarrow> files \<Rightarrow> string \<Rightarrow> string \<Rightarrow> string option \<Rightarrow> cli_error fault + verify_report" where
  "verify_report_of sha fs ccel_path tdreport_path uki_path =
     and_then (read_input fs ccel_path) (\<lambda>ccel_data.
     and_then (read_input fs tdreport_path) (\<lambda>report_data.
     and_then (map_err CcelError (parse_ccel ccel_data)) (\<lambda>events.
     let replayed = replay_rtmrs sha events in
     and_then (map_err CcelError (extract_rtmrs_from_tdreport report_data)) (\<lambda>hw.
     and_then (verify_uki sha fs events uki_path) (\<lambda>rows.
     Inr \<lparr> register_rows = map (register_row events replayed hw) [0..<4],
           rtmr3_note = (\<not> digests_equal (replayed ! 3) (hw ! 3)),
           all_match = (\<forall>i \<in> {0, 1, 2}. digests_equal (replayed ! i) (hw ! i)),
           uki_rows = rows,
           uki_ok_count = length (filter (\<lambda>(_, _, v). v = ''OK'') rows) \<rparr>)))))"

definition cmd_verify ::
  "(bytes \<Rightarrow> digest) \<Rightarrow> files \<Rightarrow> string \<Rightarrow> string \<Rightarrow> string option \<Rightarrow> cli_error fault + verify_report" where
  "cmd_verify sha fs ccel_path tdreport_path uki_path =
     and_then (verify_report_of sha fs ccel_path tdreport_path uki_path) (\<lambda>r.
     if all_match r then Inr r else bail RegistersDoNotMatch)"

section \<open>Inspecting\<close>

definition mr_name :: "nat \<Rightarrow> string" where
  "mr_name idx =
     (if idx = 1 then ''RTMR[0]'' else if idx = 2 then ''RTMR[1]''
      else if idx = 3 then ''RTMR[2]'' else if idx = 4 then ''RTMR[3]'' else ''???'')"

text \<open>The preview of event data: quoted when it is at most 64 printable ASCII bytes, its length otherwise.\<close>

definition printable :: "nat \<Rightarrow> bool" where
  "printable c \<longleftrightarrow> 33 \<le> c \<and> c \<le> 126 \<or> c = 32"

definition data_preview :: "bytes \<Rightarrow> string" where
  "data_preview d =
     (let lengths = nat_digits 10 (length d) @ '' bytes'' in
      if length d \<le> 64
      then (case utf8_decode d of
          Some cps \<Rightarrow>
            if list_all printable cps then [CHR 0x22] @ utf8_string cps @ [CHR 0x22] else lengths
        | None \<Rightarrow> lengths)
      else lengths)"

definition inspect_row :: "nat \<times> ccel_event \<Rightarrow> cli_error fault + nat \<times> string \<times> string \<times> string \<times> string" where
  "inspect_row x =
     (case x of (i, ev) \<Rightarrow>
        and_then (subslice_or_panic (hex_encode (sha384_digest ev)) 0 24) (\<lambda>digest_prefix.
        Inr (i + 1, mr_name (mr_index ev), event_type_name (event_type ev), digest_prefix,
             data_preview (event_data ev))))"

record inspect_report =
  event_rows :: "(nat \<times> string \<times> string \<times> string \<times> string) list"
  summary :: "(string \<times> nat) list"
  replay_rows :: "(string \<times> nat \<times> bool) list"

definition mr_count :: "ccel_event list \<Rightarrow> nat \<Rightarrow> nat" where
  "mr_count events idx = length (filter (\<lambda>e. mr_index e = idx) events)"

definition inspect_replay ::
  "(bytes \<Rightarrow> digest) \<Rightarrow> ccel_event list \<Rightarrow> bytes list \<Rightarrow> (string \<times> nat \<times> bool) list" where
  "inspect_replay sha events hw =
     map (\<lambda>i. (mr_name (i + 1), mr_count events (i + 1),
               digests_equal (replay_rtmrs sha events ! i) (hw ! i)))
       (filter (\<lambda>i. 0 < mr_count events (i + 1) \<or> list_ex (\<lambda>b. b \<noteq> 0) (hw ! i)) [0..<4])"

definition cmd_inspect ::
  "(bytes \<Rightarrow> digest) \<Rightarrow> files \<Rightarrow> string \<Rightarrow> string option \<Rightarrow> cli_error fault + inspect_report" where
  "cmd_inspect sha fs ccel_path tdreport_path =
     and_then (read_input fs ccel_path) (\<lambda>ccel_data.
     and_then (map_err CcelError (parse_ccel ccel_data)) (\<lambda>events.
     and_then (collect_results inspect_row (enumerate 0 events)) (\<lambda>rows.
     and_then (case tdreport_path of
         None \<Rightarrow> Inr []
       | Some p \<Rightarrow>
           and_then (read_input fs p) (\<lambda>report_data.
           and_then (map_err CcelError (extract_rtmrs_from_tdreport report_data)) (\<lambda>hw.
           Inr (inspect_replay sha events hw)))) (\<lambda>replay.
     Inr \<lparr> event_rows = rows,
           summary = map (\<lambda>idx. (mr_name idx, mr_count events idx))
             (filter (\<lambda>idx. 0 < mr_count events idx) [1..<5]),
           replay_rows = replay \<rparr>))))"

section \<open>Extracting platform data\<close>

text \<open>Lines 796--806: the boot variables of the log, each with the file it is written to.\<close>

definition boot_var_write :: "string \<Rightarrow> ccel_event \<Rightarrow> (string \<times> bytes) list" where
  "boot_var_write boot_dir ev =
     (if event_type ev \<noteq> 0x80000002 \<or> mr_index ev \<noteq> 1 then []
      else (case parse_uefi_variable_data (event_data ev) of
        None \<Rightarrow> []
      | Some (var_name, raw) \<Rightarrow>
          [(path_join boot_dir (utf8_string var_name @ ''.bin''), raw)]))"

definition cmd_extract_platform ::
  "files \<Rightarrow> string \<Rightarrow> string \<Rightarrow> cli_error fault + string \<times> (string \<times> bytes) list" where
  "cmd_extract_platform fs ccel_path output_dir =
     and_then (read_input fs ccel_path) (\<lambda>ccel_data.
     and_then (map_err TdvfError (acpi_extract_from_ccel ccel_data)) (\<lambda>acpi.
     and_then (map_err CcelError (parse_ccel ccel_data)) (\<lambda>events.
     Inr (acpi_save acpi,
          concat (map (boot_var_write (path_join output_dir ''boot-vars'')) events)))))"

section \<open>Facts about the commands\<close>

lemma length_filter_all: "length (filter P xs) = length xs \<longleftrightarrow> list_all P xs"
proof (induction xs)
  case (Cons x xs)
  have "length (filter P xs) \<noteq> Suc (length xs)" using length_filter_le [of P xs] by linarith
  with Cons show ?case by auto
qed simp

lemma graphic_digits: "list_all is_ascii_digit s \<Longrightarrow> graphic s"
  by (auto simp: graphic_def list_all_iff is_ascii_digit_def byte_of_def)

lemma suffix_chars: "size_multiplier ch = Some m \<Longrightarrow> ch \<in> set ''kKmMgGtT''"
  by (rule ccontr) (simp add: size_multiplier_def)

lemma suffix_chars_are_letters:
  "\<forall>ch \<in> set ''kKmMgGtT''. graphic [ch] \<and> \<not> is_ascii_digit ch"
  by (simp add: graphic_def byte_of_def is_ascii_digit_def)

lemma graphic_suffix: "size_multiplier ch = Some m \<Longrightarrow> graphic [ch]"
  using suffix_chars suffix_chars_are_letters by blast

lemma digit_no_multiplier: "is_ascii_digit ch \<Longrightarrow> size_multiplier ch = None"
  using suffix_chars suffix_chars_are_letters by (metis option.exhaust)

lemma parse_section_table_no_panic: "parse_section_table data table num i \<noteq> panic"
proof (induction data table num i rule: parse_section_table.induct)
  case (1 data table num i)
  then show ?case
    by (subst parse_section_table.simps)
      (auto simp: Let_def and_then_eq_Inl simp del: read_le_Inr)
qed

lemma parse_sections_no_panic: "parse_sections data \<noteq> panic"
  by (auto simp: parse_sections_def Let_def and_then_eq_Inl parse_section_table_no_panic
      simp del: read_le_Inr)

lemma precompute_no_panic: "precompute_rtmr2_digests sha secs \<noteq> panic"
  by (auto simp: precompute_rtmr2_digests_def loadopts_events_def Let_def and_then_eq_Inl
      split: option.splits)

lemma extract_rtmrs_no_panic: "extract_rtmrs_from_tdreport report \<noteq> panic"
  by (auto simp: extract_rtmrs_from_tdreport_def and_then_eq_Inl)

lemma read_input_no_panic: "read_input fs p \<noteq> panic"
  by (simp add: read_input_def)

definition logged :: "nat \<Rightarrow> ccel_event list \<Rightarrow> bytes list" where
  "logged i events = map sha384_digest (filter (\<lambda>ev. mr_index ev = i + 1) events)"

lemma replayed_register:
  "i < 4 \<Longrightarrow> replay_rtmrs sha events ! i = measure_log sha (logged i events)"
  using replay_rtmrs_nth [of i sha events] by (simp add: logged_def)

text \<open>The prefixes the commands print never leave the digest: a parsed event has all 48 bytes.\<close>

lemma parsed_digest_length:
  assumes "parse_ccel log = Inr events" and "ev \<in> set events"
  shows "length (sha384_digest ev) = 48"
  using parse_ccel_events_ok [OF assms(1)] assms(2) by (auto simp: list_all_iff)

lemma digest_prefixes_fit:
  assumes "parse_ccel log = Inr events" and "set evs \<subseteq> set events" and "n \<le> 96"
  shows "\<exists>ps. collect_results (\<lambda>e. subslice_or_panic (hex_encode (sha384_digest e)) 0 n) evs = Inr ps"
proof -
  have "subslice_or_panic (hex_encode (sha384_digest e)) 0 n = Inr (take n (hex_encode (sha384_digest e)))"
    if "e \<in> set evs" for e
    using that assms parsed_digest_length [OF assms(1)] by (auto simp: subslice_or_panic_def subslice_def)
  then have "list_all2 (\<lambda>e y. subslice_or_panic (hex_encode (sha384_digest e)) 0 n = Inr y) evs
      (map (\<lambda>e. take n (hex_encode (sha384_digest e))) evs)"
    by (simp add: list_all2_map2 list_all2_same)
  then show ?thesis unfolding collect_results_Inr_iff by blast
qed

lemma verify_uki_None [simp]: "verify_uki sha fs events None = Inr []"
  by (simp add: verify_uki_def)

lemma verify_uki_no_panic:
  assumes "parse_ccel log = Inr events"
  shows "verify_uki sha fs events u \<noteq> panic"
proof (cases u)
  case (Some p)
  have "\<exists>ps. collect_results (\<lambda>e. subslice_or_panic (hex_encode (sha384_digest e)) 0 32)
      (drop n (filter (\<lambda>e. mr_index e = 3) events)) = Inr ps" for n
    by (rule digest_prefixes_fit [OF assms]) (auto dest: in_set_dropD)
  then have fits: "collect_results (\<lambda>e. subslice_or_panic (hex_encode (sha384_digest e)) 0 32)
      (drop n (filter (\<lambda>e. mr_index e = 3) events)) \<noteq> panic" for n
    by (metis sum.distinct(1))
  show ?thesis
    unfolding Some verify_uki_def option.case and_then_eq_Inl Let_def
    using fits by (auto simp: and_then_eq_Inl read_input_no_panic parse_sections_no_panic
      precompute_no_panic simp del: collect_results_Inr_iff)
qed simp

lemma inspect_rows_fit:
  assumes "parse_ccel log = Inr events"
  shows "collect_results inspect_row (enumerate 0 events) \<noteq> panic"
proof
  assume "collect_results inspect_row (enumerate 0 events) = panic"
  then obtain i ev where "(i, ev) \<in> set (enumerate 0 events)" "inspect_row (i, ev) = panic"
    using collect_results_panic by fastforce
  then show False
    using parsed_digest_length [OF assms, of ev]
    by (auto simp: inspect_row_def and_then_eq_Inl subslice_or_panic_def enumerate_eq_zip
        dest: set_zip_rightD)
qed

lemma cmd_verify_Inr:
  assumes "cmd_verify sha fs c t u = Inr r"
  obtains log report events hw where
    "fs c = Some log" "fs t = Some report" "parse_ccel log = Inr events"
    "extract_rtmrs_from_tdreport report = Inr hw" "verify_uki sha fs events u = Inr (uki_rows r)"
    "measure_log sha (logged 0 events) = hw ! 0" "measure_log sha (logged 1 events) = hw ! 1"
    "measure_log sha (logged 2 events) = hw ! 2"
    "uki_ok_count r = length (filter (\<lambda>(_, _, v). v = ''OK'') (uki_rows r))"
proof -
  obtain log report events hw where *: "fs c = Some log" "fs t = Some report"
      "parse_ccel log = Inr events" "extract_rtmrs_from_tdreport report = Inr hw"
      "verify_uki sha fs events u = Inr (uki_rows r)"
      "\<forall>i \<in> {0, 1, 2}. digests_equal (replay_rtmrs sha events ! i) (hw ! i)"
      "uki_ok_count r = length (filter (\<lambda>(_, _, v). v = ''OK'') (uki_rows r))"
    using assms
    by (auto simp: cmd_verify_def verify_report_of_def read_input_def Let_def split: if_splits)
  show ?thesis
    by (rule that [OF *(1-5)])
      (use * in \<open>simp_all add: digests_equal_def replayed_register [symmetric]\<close>)
qed

lemma acpi_extract_lengths:
  assumes "acpi_extract_from_ccel log = Inr h"
  shows "length (loader_hash h) = 48" "length (rsdp_hash h) = 48" "length (tables_hash h) = 48"
proof -
  obtain ds us where ds: "3 \<le> length ds"
      "list_all2 (\<lambda>x y. check_digest_len x = Inr y) (enumerate 0 (take 3 ds)) us"
      "h = \<lparr> loader_hash = ds ! 0, rsdp_hash = ds ! 1, tables_hash = ds ! 2 \<rparr>"
    using assms unfolding acpi_extract_from_ccel_def Let_def and_then_eq_Inr collect_results_Inr_iff
    by auto
  have "length (ds ! i) = 48" if "i < 3" for i
    using that ds(1,2) by (auto simp: list_all2_conv_all_nth check_digest_len_def nth_enumerate_eq)
  then show "length (loader_hash h) = 48" "length (rsdp_hash h) = 48" "length (tables_hash h) = 48"
    using ds(3) by simp_all
qed

lemma cmd_verify_intro:
  assumes "fs c = Some log" "fs t = Some report" "parse_ccel log = Inr events"
    and "extract_rtmrs_from_tdreport report = Inr hw" "verify_uki sha fs events u = Inr rows"
    and "measure_log sha (logged 0 events) = hw ! 0" "measure_log sha (logged 1 events) = hw ! 1"
    and "measure_log sha (logged 2 events) = hw ! 2"
  shows "\<exists>r. cmd_verify sha fs c t u = Inr r \<and> uki_rows r = rows
    \<and> uki_ok_count r = length (filter (\<lambda>(_, _, v). v = ''OK'') rows)"
  using assms by (simp add: cmd_verify_def verify_report_of_def read_input_def Let_def
      digests_equal_def replayed_register del: and_then_eq_Inr)

section \<open>Properties\<close>




text \<open>
  C28. \<open>verify\<close> and \<open>inspect\<close> take untrusted logs, reports and images: no input makes them panic.
\<close>

theorem verify_and_inspect_never_panic:
  "cmd_verify sha fs c t u \<noteq> panic \<and> cmd_inspect sha fs c t' \<noteq> panic"
proof
  note outcomes = and_then_eq_Inl parse_ccel_no_panic read_input_no_panic extract_rtmrs_no_panic
  show "cmd_inspect sha fs c t' \<noteq> panic"
    using inspect_rows_fit
    by (auto simp: cmd_inspect_def outcomes split: option.splits simp del: collect_results_Inr_iff)
  show "cmd_verify sha fs c t u \<noteq> panic"
    using verify_uki_no_panic
    by (auto simp: cmd_verify_def verify_report_of_def outcomes Let_def split: if_splits)
qed

text \<open>
  Memory sizes: a decimal number with one of the suffixes K, M, G, T (either case) or none denotes that many
  bytes; a size that does not fit 64 bits is an error, never a wrapped value.
\<close>

theorem parse_memory_size_value:
  assumes "suf = [] \<and> m = 1 \<or> (\<exists>ch. suf = [ch] \<and> size_multiplier ch = Some m)"
  shows "parse_memory_size (nat_digits 10 n @ suf) =
    (if n < u64_limit then if n * m < u64_limit then Inr (n * m) else bail MemorySizeOverflow
     else bail InvalidNumber)"
proof -
  let ?d = "nat_digits 10 n"
  note d = decimal_digits [of n]
  have g: "trim (?d @ suf) = ?d @ suf"
    using assms d graphic_digits [of ?d] graphic_suffix
    by (intro trim_graphic) (auto simp: graphic_def)
  have l: "size_multiplier (last ?d) = None" "is_ascii_digit (last ?d)"
    using d digit_no_multiplier by (auto simp: list_all_iff)
  consider "suf = []" "m = 1" | ch where "suf = [ch]" "size_multiplier ch = Some m"
    using assms by blast
  then show ?thesis
  proof cases
    case 1
    then show ?thesis
      using g l d by (simp add: parse_memory_size_def Let_def parse_u64_decimal checked_mul_def
          del: checked_mul_eq)
  next
    case 2
    then show ?thesis
      using g d by (simp add: parse_memory_size_def Let_def parse_u64_decimal checked_mul_def
          del: checked_mul_eq)
  qed
qed

text \<open>
  The library entry point and the command agree: on the same files, \<open>tdx-measure measure\<close> either prints exactly
  the three registers \<open>measure_uki_topology_invariant\<close> returns, or fails on the platform data, which the
  library does not look at.
\<close>

theorem library_agrees_with_command:
  assumes "measure_uki_topology_invariant sha fat firmware uki disk = Some (Inr u)"
    and "fs up = Some uki" and "fs fp = Some firmware"
    and "dp = None \<and> disk = None \<or> (\<exists>p. dp = Some p \<and> disk = fs p \<and> disk \<noteq> None)"
  shows "(\<exists>m. cmd_measure sha fat fs read_str Uki (Some up) kp cf (Some fp) dp memory args = Some (Inr m)
      \<and> map_option hex_encode (m_mrtd m) = Some (mrtd_hex u)
      \<and> hex_encode (m_rtmr1 m) = rtmr1_hex u \<and> hex_encode (m_rtmr2 m) = rtmr2_hex u)
    \<or> (\<exists>e t. cmd_measure sha fat fs read_str Uki (Some up) kp cf (Some fp) dp memory args = Some (Inl e)
      \<and> measure_platform sha fs read_str args memory t = Inl e)"
proof -
  obtain t m secs r1 r2 n where lib: "tdvf_parse firmware = Some (Inr t)" "mrtd sha t = Inr m"
      "parse_sections uki = Inr secs" "compute_rtmr1_uki sha fat uki secs disk = Inr r1"
      "compute_rtmr2_uki sha secs = Inr (r2, n)"
      "u = \<lparr> mrtd_hex = hex_encode m, rtmr1_hex = hex_encode r1, rtmr2_hex = hex_encode r2 \<rparr>"
    using assms(1) by (auto simp: measure_uki_topology_invariant_def)
  have "read_optional fs dp = Inr disk"
    using assms(4) by (auto simp: read_optional_def read_input_def)
  then have inputs: "measure_inputs sha fat fs (Some up) dp (Some fp) = Inr (r1, r2, n, Some firmware)"
    using assms(2,3) lib by (simp add: measure_inputs_def read_optional_def read_input_def
        del: and_then_eq_Inr)
  show ?thesis
  proof (cases "measure_platform sha fs read_str args memory (Some t)")
    case (Inl e)
    then show ?thesis
      using inputs lib(1) by (auto simp: cmd_measure_def cmd_measure_uki_def parse_firmware_def)
  next
    case (Inr x)
    then have "fst x = Some m"
      using lib(2) by (auto simp: measure_platform_def opt_mrtd_def)
    with Inr show ?thesis
      using inputs lib(1,6)
      by (cases x) (auto simp: cmd_measure_def cmd_measure_uki_def parse_firmware_def)
  qed
qed

text \<open>
  Platform data extracted once can be reused: measuring with the extracted \<open>acpi_hashes.txt\<close> uses the same ACPI
  digests as measuring with the log itself.
\<close>

theorem extracted_acpi_hashes_are_reusable:
  assumes "cmd_extract_platform fs c dir = Inr (content, writes)"
    and "fs c = Some log" and "read_str hp = Some content"
  shows "resolve_acpi sha fs' read_str (args \<lparr> acpi_hashes_path := Some hp \<rparr>) None
    = resolve_acpi sha fs read_str args' (Some log)"
proof -
  obtain h where h: "acpi_extract_from_ccel log = Inr h" "content = acpi_save h"
    using assms(1,2) by (auto simp: cmd_extract_platform_def read_input_def)
  then have "acpi_load content = Inr h" using acpi_load_save [OF acpi_extract_lengths [OF h(1)]] by simp
  then show ?thesis using h(1) assms(3) by (simp add: resolve_acpi_def del: and_then_eq_Inr)
qed

text \<open>
  C29. The boot variable files of \<open>extract-platform\<close> are named by the log: a variable whose name starts with a slash
  is written outside the output directory, to any file ending in \<open>.bin\<close>.
\<close>

theorem extract_platform_escapes:
  assumes "event_type ev = 0x80000002" "mr_index ev = 1"
    and "event_data ev = guid @ le_bytes 8 (length name) @ le_bytes 8 (length val)
      @ concat (map (\<lambda>ch. le_bytes 2 (of_char ch)) name) @ val"
    and "length guid = 16" "32 + 2 * length name + length val < u64_limit"
    and "list_all (\<lambda>ch. of_char ch < (128 :: nat)) name" and "prefix ''/'' name"
  shows "boot_var_write boot_dir ev = [(name @ ''.bin'', val)]"
proof -
  let ?units = "map (of_char :: char \<Rightarrow> nat) name"
  have ascii: "\<forall>u \<in> set ?units. u < 128" using assms(6) by (auto simp: list_all_iff)
  then have "filter (\<lambda>u. \<not> (0xD800 \<le> u \<and> u < 0xE000)) ?units = ?units"
    by (auto simp: filter_id_conv)
  moreover have "\<forall>u \<in> set ?units. u < 2 ^ 16" using ascii by fastforce
  ultimately have parsed: "parse_uefi_variable_data (event_data ev) = Some (?units, val)"
    using parse_uefi_variable_encoded [of guid ?units val "[]"] assms(3-5) by (simp add: o_def)
  have "concat (map utf8_char ?units) = ?units" using ascii by (induction name) (auto simp: utf8_char_def)
  then have "utf8_string ?units = name" by (simp add: utf8_string_def o_def)
  moreover have "prefix ''/'' (name @ ''.bin'')" using assms(7) by (auto simp: prefix_def)
  ultimately show ?thesis
    using assms(1,2) parsed by (simp add: boot_var_write_def path_join_def)
qed

section \<open>Witnesses\<close>

text \<open>
  An image with one section \<open>.linux\<close>, a log with the two RTMR[2] events the constant hash function
  predicts for it, and the report of a machine whose registers are all zero.
\<close>

definition linux_pe :: bytes where
  "linux_pe = zeros 60 @ [64, 0, 0, 0, 0x50, 0x45, 0, 0, 0, 0, 1, 0] @ zeros 12 @ [0, 0, 0, 0]
     @ [0x2e, 0x6c, 0x69, 0x6e, 0x75, 0x78, 0, 0, 3, 0, 0, 0, 0, 0, 0, 0, 8, 0, 0, 0, 128, 0, 0, 0]
     @ zeros 16 @ [1, 2, 3]"

lemma linux_pe_sections: "parse_sections linux_pe = Inr [(''.linux'', [1, 2, 3])]"
proof -
  let ?d = "linux_pe"
  have a: "read_le 4 ?d 60 = Inr 64" "subslice ?d 64 68 = [0x50, 0x45, 0, 0]" "length ?d = 131"
    "read_le 2 ?d 70 = Inr 1" "read_le 2 ?d 84 = Inr 0"
    by (simp_all add: linux_pe_def exec_simps del: read_le_Inr)
  have b: "read_le 4 ?d 96 = Inr 3" "read_le 4 ?d 108 = Inr 128"
    "section_name (subslice ?d 88 96) = ''.linux''" "subslice ?d 128 131 = [1, 2, 3]"
    by (simp_all add: linux_pe_def exec_simps section_name_def Let_def char_of_eq_iff
        take_bit_eq_mod del: read_le_Inr)
  have "parse_section_table ?d 88 1 0 = Inr [(''.linux'', [1, 2, 3])]"
    using a b by (subst parse_section_table.simps, subst parse_section_table.simps)
      (simp add: Let_def del: read_le_Inr)
  then show ?thesis using a by (simp add: parse_sections_def Let_def del: read_le_Inr)
qed

definition zero_event :: raw_event where
  "zero_event = \<lparr> raw_mr = 3, raw_type = 13, raw_digests = [(0x000C, zeros 48)], raw_data = [] \<rparr>"

definition linux_log :: bytes where
  "linux_log = encode_header (zeros 4) (zeros 20) [] @ encode_event zero_event @ encode_event zero_event"

definition linux_events :: "ccel_event list" where
  "linux_events = replicate 2 \<lparr> mr_index = 3, event_type = 13, sha384_digest = zeros 48, event_data = [] \<rparr>"

lemma linux_log_events: "parse_ccel linux_log = Inr linux_events"
proof -
  have "valid_raw zero_event" "valid_header (zeros 4) (zeros 20) []"
    by (simp_all add: valid_raw_def zero_event_def valid_digest_def digest_size_def
        MAX_DIGEST_ALGORITHMS_def valid_header_def)
  moreover have k: "kept [zero_event, zero_event] = linux_events"
    by (simp add: kept_def decoded_def zero_event_def kept_digest_def linux_events_def
        numeral_2_eq_2 zeros_def)
  ultimately show ?thesis
    using parse_ccel_encoded [of "zeros 4" "zeros 20" "[]" "[zero_event, zero_event]" linux_log "[]"]
      ends_log_terminates [of "[]" linux_log linux_events]
    by (simp add: linux_log_def ends_log_def MAX_EVENTS_def linux_events_def)
qed

definition sample_files :: files where
  "sample_files = [''log'' \<mapsto> linux_log, ''empty'' \<mapsto> encode_header (zeros 4) (zeros 20) [],
     ''report'' \<mapsto> zeros 1024, ''uki'' \<mapsto> linux_pe]"

abbreviation sha_0 :: "bytes \<Rightarrow> digest" where "sha_0 \<equiv> \<lambda>_. 0"

lemma sample_report: "extract_rtmrs_from_tdreport (zeros 1024) = Inr (replicate 4 (zeros 48))"
  by (simp add: extract_rtmrs_from_tdreport_def subslice_def zeros_def numeral_eq_Suc)

lemma measure_log_sha_0: "measure_log sha_0 ds = zeros 48"
  by (induction ds rule: rev_induct) (simp_all add: measure_log_def rtmr_extend_def sha384_def)

lemma sample_verify_uki:
  "verify_uki sha_0 sample_files linux_events (Some ''uki'')
     = Inr [(''name'', ''.linux'', ''OK''), (''data'', ''.linux'', ''OK'')]"
proof -
  have "precompute_rtmr2_digests sha_0 [(''.linux'', [1, 2, 3])]
      = Inr [(''name'', ''.linux'', zeros 48), (''data'', ''.linux'', zeros 48)]"
    by (simp add: precompute_rtmr2_digests_def section_map_def UKI_MEASUREMENT_ORDER_def
        section_events_def loadopts_events_def initrd_events_def sha384_def)
  then show ?thesis
    by (simp add: verify_uki_def read_input_def sample_files_def linux_pe_sections linux_events_def
        uki_row_def digests_equal_def Let_def numeral_2_eq_2 enumerate_eq_zip upt_rec
        del: and_then_eq_Inr collect_results_Inr_iff)
qed

lemma sample_verified:
  "\<exists>r. cmd_verify sha_0 sample_files ''log'' ''report'' (Some ''uki'') = Inr r
    \<and> uki_rows r = [(''name'', ''.linux'', ''OK''), (''data'', ''.linux'', ''OK'')] \<and> uki_ok_count r = 2"
  using cmd_verify_intro [of sample_files "''log''" linux_log "''report''" "zeros 1024",
      OF _ _ linux_log_events sample_report sample_verify_uki]
  by (simp add: sample_files_def measure_log_sha_0 numeral_2_eq_2)


lemma empty_log_events: "parse_ccel (encode_header (zeros 4) (zeros 20) []) = Inr []"
  using parse_ccel_encoded [of "zeros 4" "zeros 20" "[]" "[]" "encode_header (zeros 4) (zeros 20) []" "[]"]
    ends_log_terminates [of "[]" "encode_header (zeros 4) (zeros 20) []" "[]"]
  by (simp add: ends_log_def valid_header_def kept_def)


lemma parse_memory_size_value_witness:
  "parse_memory_size (nat_digits 10 2 @ ''G'') = Inr 2147483648"
  using parse_memory_size_value [of "''G''" 1073741824 2]
  by (simp add: size_multiplier_def u64_limit_def)

lemma extract_platform_escapes_witness:
  "boot_var_write ''/tmp/out/boot-vars'' \<lparr> mr_index = 1, event_type = 0x80000002, sha384_digest = [],
      event_data = zeros 16 @ le_bytes 8 6 @ le_bytes 8 1
        @ concat (map (\<lambda>ch. le_bytes 2 (of_char ch)) ''/etc/x'') @ [7] \<rparr>
    = [(''/etc/x.bin'', [7])]"
proof -
  have len: "length ''/etc/x'' = 6" "length [7 :: byte] = 1" by simp_all
  have "(45 :: nat) < u64_limit" by (simp add: u64_limit_def)
  then show ?thesis
    using extract_platform_escapes [of
        "\<lparr> mr_index = 1, event_type = 0x80000002, sha384_digest = [],
          event_data = zeros 16 @ le_bytes 8 6 @ le_bytes 8 1
            @ concat (map (\<lambda>ch. le_bytes 2 (of_char ch)) ''/etc/x'') @ [7] \<rparr>"
        "zeros 16" "''/etc/x''" "[7]" "''/tmp/out/boot-vars''", unfolded len]
    by simp
qed

lemma sample_pe_sections: "parse_sections (sample_pe 9 0 0 []) = Inr [(''.t'', [1, 2, 3])]"
proof -
  let ?d = "sample_pe 9 0 0 []"
  have a: "read_le 4 ?d 60 = Inr 64" "subslice ?d 64 68 = [0x50, 0x45, 0, 0]" "length ?d = 288"
    "read_le 2 ?d 70 = Inr 1" "read_le 2 ?d 84 = Inr 152"
    by (simp_all add: sample_pe_def exec_simps del: read_le_Inr)
  have b: "read_le 4 ?d 248 = Inr 3" "read_le 4 ?d 260 = Inr 280"
    "section_name (subslice ?d 240 248) = ''.t''" "subslice ?d 280 283 = [1, 2, 3]"
    by (simp_all add: sample_pe_def exec_simps section_name_def Let_def char_of_eq_iff
        take_bit_eq_mod del: read_le_Inr)
  have "parse_section_table ?d 240 1 0 = Inr [(''.t'', [1, 2, 3])]"
    using a b by (subst parse_section_table.simps, subst parse_section_table.simps)
      (simp add: Let_def del: read_le_Inr)
  then show ?thesis using a by (simp add: parse_sections_def Let_def del: read_le_Inr)
qed

definition no_platform :: platform_args where
  "no_platform = \<lparr> platform_ccel = None, acpi_hashes_path = None, acpi_tables_path = None,
     acpi_rsdp_path = None, acpi_loader_path = None, boot_vars_dir = None \<rparr>"

lemma library_agrees_with_command_witness:
  "\<exists>r. cmd_measure sha_0 sample_fat [''uki'' \<mapsto> sample_pe 9 0 0 [], ''fw'' \<mapsto> sample_fw 7] (\<lambda>_. None) Uki
     (Some ''uki'') None None (Some ''fw'') None ''2G'' no_platform = Some r"
proof -
  have "\<exists>m. mrtd sha_0 \<lparr> fw = sample_fw 7, sections = [sample_section] \<rparr> = Inr m"
    using mrtd_input_eq [of "\<lparr> fw = sample_fw 7, sections = [sample_section] \<rparr>"] sample_fits
    by (auto simp: mrtd_def)
  then obtain u where u: "measure_uki_topology_invariant sha_0 sample_fat (sample_fw 7) (sample_pe 9 0 0 []) None
      = Some (Inr u)"
    by (auto simp: measure_uki_topology_invariant_def sample_parse sample_pe_sections
        compute_rtmr1_uki_def disk_events_def authenticode_sha384_def sample_input
        compute_rtmr2_uki_def precompute_rtmr2_digests_def section_map_def UKI_MEASUREMENT_ORDER_def
        section_events_def loadopts_events_def initrd_events_def)
  show ?thesis
    using library_agrees_with_command [OF u, of "[''uki'' \<mapsto> sample_pe 9 0 0 [], ''fw'' \<mapsto> sample_fw 7]"
        "''uki''" "''fw''" None "\<lambda>_. None" None None "''2G''" no_platform]
    by auto
qed

definition acpi_event :: "nat \<Rightarrow> byte \<Rightarrow> raw_event" where
  "acpi_event ty b = \<lparr> raw_mr = 1, raw_type = ty, raw_digests = [(0x000C, b # zeros 47)], raw_data = [] \<rparr>"

definition acpi_log :: bytes where
  "acpi_log = encode_header (zeros 4) (zeros 20) []
     @ concat (map encode_event [acpi_event 4 0, acpi_event 10 1, acpi_event 10 2, acpi_event 10 3])"

definition acpi_sample :: acpi_hashes where
  "acpi_sample = \<lparr> loader_hash = 1 # zeros 47, rsdp_hash = 2 # zeros 47, tables_hash = 3 # zeros 47 \<rparr>"

lemma acpi_log_extract: "acpi_extract_from_ccel acpi_log = Inr acpi_sample"
  and acpi_log_events: "\<exists>evs. parse_ccel acpi_log = Inr evs"
proof -
  let ?es = "[acpi_event 4 0, acpi_event 10 1, acpi_event 10 2, acpi_event 10 3]"
  have "valid_raw (acpi_event 4 b)" "valid_raw (acpi_event 10 b)" for b
    by (simp_all add: valid_raw_def acpi_event_def valid_digest_def digest_size_def MAX_DIGEST_ALGORITHMS_def)
  moreover have k: "kept ?es = map decoded ?es"
    by (simp add: kept_def decoded_def acpi_event_def kept_digest_def)
  ultimately have evs: "parse_ccel acpi_log = Inr (map decoded ?es)"
    using parse_ccel_encoded [of "zeros 4" "zeros 20" "[]" ?es acpi_log "[]"]
      ends_log_terminates [of "[]" acpi_log "map decoded ?es"]
    by (simp add: acpi_log_def ends_log_def MAX_EVENTS_def valid_header_def)
  then show "\<exists>evs. parse_ccel acpi_log = Inr evs" by blast
  show "acpi_extract_from_ccel acpi_log = Inr acpi_sample"
    using evs by (simp add: acpi_extract_from_ccel_def Let_def acpi_event_def decoded_def
        kept_digest_def acpi_sample_def check_digest_len_def enumerate_eq_zip upt_rec
        numeral_2_eq_2 numeral_3_eq_3 del: and_then_eq_Inr collect_results_Inr_iff)
qed

lemma extracted_acpi_hashes_are_reusable_witness:
  "\<forall>sha. resolve_acpi sha Map.empty (\<lambda>_. Some (acpi_save acpi_sample))
       (no_platform \<lparr> acpi_hashes_path := Some ''acpi_hashes.txt'' \<rparr>) None
     = resolve_acpi sha [''ccel'' \<mapsto> acpi_log] (\<lambda>_. Some (acpi_save acpi_sample)) no_platform (Some acpi_log)"
proof (rule allI)
  fix sha
  obtain writes where "cmd_extract_platform [''ccel'' \<mapsto> acpi_log] ''ccel'' ''out''
      = Inr (acpi_save acpi_sample, writes)"
    using acpi_log_events by (auto simp: cmd_extract_platform_def read_input_def acpi_log_extract)
  from extracted_acpi_hashes_are_reusable [OF this, of acpi_log "\<lambda>_. Some (acpi_save acpi_sample)"
      "''acpi_hashes.txt''" sha Map.empty no_platform no_platform]
  show "resolve_acpi sha Map.empty (\<lambda>_. Some (acpi_save acpi_sample))
       (no_platform \<lparr> acpi_hashes_path := Some ''acpi_hashes.txt'' \<rparr>) None
     = resolve_acpi sha [''ccel'' \<mapsto> acpi_log] (\<lambda>_. Some (acpi_save acpi_sample)) no_platform (Some acpi_log)"
    by simp
qed

end
