(* ===== verification/X86Regs.thy ===== *)
theory X86Regs
  imports Prelude
begin

text \<open>
  \<open>crates/igvm-tools/src/x86regs.rs\<close>: the initial register state of a virtual CPU and its conversion to
  the native context and to the VMSA.  The bit fields are the ones the source declares with
  \<open>bitfield\<close>: a list of fields with their widths, the first at bit 0.  The register and VMSA types belong
  to the \<open>igvm\<close> crate; the model has the variants and fields the source uses, every other VMSA field
  stays zero.
\<close>

section \<open>Bit fields\<close>

type_synonym layout = "(string \<times> nat) list"

fun field_offset :: "layout \<Rightarrow> string \<Rightarrow> nat" where
  "field_offset [] name = 0"
| "field_offset ((f, w) # fs) name = (if f = name then 0 else w + field_offset fs name)"

definition with_flag :: "layout \<Rightarrow> string \<Rightarrow> bool \<Rightarrow> 'w::len word \<Rightarrow> 'w word" where
  "with_flag l name b x =
     (if b then set_bit (field_offset l name) x else unset_bit (field_offset l name) x)"

definition flag :: "layout \<Rightarrow> string \<Rightarrow> 'w::len word \<Rightarrow> bool" where
  "flag l name x \<longleftrightarrow> bit x (field_offset l name)"

definition layout_width :: "layout \<Rightarrow> nat" where
  "layout_width l = sum_list (map snd l)"

section \<open>Segment attributes\<close>

definition segment_layout :: layout where
  "segment_layout =
     [(''accessed'', 1), (''rw'', 1), (''ce'', 1), (''code'', 1), (''system'', 1), (''dpl'', 2),
      (''present'', 1), (''_limit1619'', 4), (''avl'', 1), (''long'', 1), (''db'', 1),
      (''granularity'', 1)]"

abbreviation with_seg :: "string \<Rightarrow> bool \<Rightarrow> 16 word \<Rightarrow> 16 word" where
  "with_seg \<equiv> with_flag segment_layout"

text \<open>\<open>new\<close>: the two fields with a default.\<close>

definition segment_new :: "16 word" where
  "segment_new = with_seg ''accessed'' True (with_seg ''system'' True 0)"

definition code16 :: "16 word" where
  "code16 = with_seg ''present'' True (with_seg ''code'' True (with_seg ''rw'' True segment_new))"

definition data16 :: "16 word" where
  "data16 = with_seg ''present'' True (with_seg ''code'' False (with_seg ''rw'' True segment_new))"

definition code32 :: "16 word" where
  "code32 = with_seg ''granularity'' True (with_seg ''db'' True (with_seg ''present'' True
     (with_seg ''code'' True (with_seg ''rw'' True segment_new))))"

definition data32 :: "16 word" where
  "data32 = with_seg ''granularity'' True (with_seg ''db'' True (with_seg ''present'' True
     (with_seg ''code'' False (with_seg ''rw'' True segment_new))))"

definition code64 :: "16 word" where
  "code64 = with_seg ''long'' True (with_seg ''present'' True (with_seg ''code'' True segment_new))"

definition data64 :: "16 word" where
  "data64 = with_seg ''present'' True segment_new"

definition system_segment :: "16 word \<Rightarrow> 16 word" where
  "system_segment systype = with_seg ''present'' True (with_seg ''system'' False (systype AND 0x0f))"

definition seg_ldt :: "16 word" where "seg_ldt = system_segment 0x02"

definition tss16 :: "16 word" where "tss16 = system_segment 0x03"

definition tss3264 :: "16 word" where "tss3264 = system_segment 0x0b"

section \<open>Control registers\<close>

definition cr0_layout :: layout where
  "cr0_layout =
     [(''pe'', 1), (''mp'', 1), (''em'', 1), (''ts'', 1), (''et'', 1), (''ne'', 1), (''_pad0'', 10),
      (''wp'', 1), (''_pad1'', 1), (''am'', 1), (''_pad2'', 10), (''nw'', 1), (''cd'', 1), (''pg'', 1),
      (''_pad3'', 32)]"

abbreviation with_cr0 :: "string \<Rightarrow> bool \<Rightarrow> 64 word \<Rightarrow> 64 word" where
  "with_cr0 \<equiv> with_flag cr0_layout"

definition cr0_reset :: "64 word" where
  "cr0_reset = with_cr0 ''cd'' True (with_cr0 ''nw'' True (with_cr0 ''et'' True 0))"

definition cr0_reset_fast :: "64 word" where
  "cr0_reset_fast = with_cr0 ''et'' True 0"

definition cr4_layout :: layout where
  "cr4_layout =
     [(''vme'', 1), (''pvi'', 1), (''tsd'', 1), (''de'', 1), (''pse'', 1), (''pae'', 1), (''mce'', 1),
      (''pge'', 1), (''pce'', 1), (''osfxsr'', 1), (''osmmexcept'', 1), (''unip'', 1), (''la57'', 1),
      (''vmxe'', 1), (''smxr'', 1), (''_pad0'', 1), (''fsgsbase'', 1), (''pcide'', 1), (''osxsave'', 1),
      (''_pad1'', 1), (''smep'', 1), (''smap'', 1), (''pke'', 1), (''cet'', 1), (''pks'', 1),
      (''_pad2'', 39)]"

definition efer_layout :: layout where
  "efer_layout =
     [(''sce'', 1), (''_pad0'', 7), (''lme'', 1), (''_pad1'', 1), (''lma'', 1), (''nxe'', 1),
      (''svme'', 1), (''lmsle'', 1), (''ffxsr'', 1), (''tce'', 1), (''_pad2'', 48)]"

section \<open>Register lists\<close>

record segment_register =
  seg_base :: "64 word"
  seg_limit :: "32 word"
  seg_selector :: "16 word"
  seg_attributes :: "16 word"

record table_register =
  tab_base :: "64 word"
  tab_limit :: "16 word"

datatype x86_register =
    Cr0 "64 word"
  | Rip "64 word"
  | Pat "64 word"
  | Gdtr table_register
  | Idtr table_register
  | Cs segment_register
  | Ss segment_register
  | Ds segment_register
  | Es segment_register
  | Fs segment_register
  | Gs segment_register
  | Tr segment_register
  | OtherRegister nat

definition common_regs :: "x86_register list" where
  "common_regs =
     (let tab = \<lparr> tab_base = 0, tab_limit = 0xffff \<rparr> in
      [Pat 0x0007040600070406, Gdtr tab, Idtr tab])"

definition real_mode_regs_at :: "32 word \<Rightarrow> x86_register list" where
  "real_mode_regs_at reset_addr =
     (let code = \<lparr> seg_base = ucast (reset_addr AND 0xffff0000), seg_limit = 0xffff,
                   seg_selector = 0xf000, seg_attributes = code16 \<rparr>;
          data = \<lparr> seg_base = 0, seg_limit = 0xffff, seg_selector = 0, seg_attributes = data16 \<rparr>;
          tss = \<lparr> seg_base = 0, seg_limit = 0xffff, seg_selector = 0, seg_attributes = tss16 \<rparr> in
      [Cr0 cr0_reset_fast, Rip (ucast (reset_addr AND 0xffff)), Cs code, Ss data, Ds data, Es data,
       Fs data, Gs data, Tr tss] @ common_regs)"

definition flat32_mode_regs :: "64 word option \<Rightarrow> x86_register list" where
  "flat32_mode_regs rip =
     (let code = \<lparr> seg_base = 0, seg_limit = 0xffffffff, seg_selector = 0x08, seg_attributes = code32 \<rparr>;
          data = \<lparr> seg_base = 0, seg_limit = 0xffffffff, seg_selector = 0x10, seg_attributes = data32 \<rparr>;
          tss = \<lparr> seg_base = 0, seg_limit = 0xffff, seg_selector = 0, seg_attributes = tss3264 \<rparr> in
      [Cr0 (with_cr0 ''ne'' True (with_cr0 ''pe'' True cr0_reset_fast)),
       Rip (case rip of None \<Rightarrow> 0xfffffff0 | Some r \<Rightarrow> r), Cs code, Ss data, Ds data, Es data,
       Fs data, Gs data, Tr tss] @ common_regs)"

section \<open>Native context\<close>

record native_ctx =
  n_rip :: "64 word"
  n_cr0 :: "64 word"
  n_gdtr_base :: "64 word"
  n_gdtr_limit :: "16 word"
  n_idtr_base :: "64 word"
  n_idtr_limit :: "16 word"
  n_code_base :: "32 word"
  n_code_limit :: "32 word"
  n_code_selector :: "16 word"
  n_code_attributes :: "16 word"
  n_data_base :: "32 word"
  n_data_limit :: "32 word"
  n_data_selector :: "16 word"
  n_data_attributes :: "16 word"
  n_gs_base :: "64 word"

definition native_zeroed :: native_ctx where
  "native_zeroed = \<lparr> n_rip = 0, n_cr0 = 0, n_gdtr_base = 0, n_gdtr_limit = 0, n_idtr_base = 0,
     n_idtr_limit = 0, n_code_base = 0, n_code_limit = 0, n_code_selector = 0, n_code_attributes = 0,
     n_data_base = 0, n_data_limit = 0, n_data_selector = 0, n_data_attributes = 0, n_gs_base = 0 \<rparr>"

fun native_set :: "native_ctx \<Rightarrow> x86_register \<Rightarrow> string fault + native_ctx" where
  "native_set ctx (Rip r) = Inr (ctx \<lparr> n_rip := r \<rparr>)"
| "native_set ctx (Cr0 c) = Inr (ctx \<lparr> n_cr0 := c \<rparr>)"
| "native_set ctx (Gdtr tab) = Inr (ctx \<lparr> n_gdtr_base := tab_base tab, n_gdtr_limit := tab_limit tab \<rparr>)"
| "native_set ctx (Idtr tab) = Inr (ctx \<lparr> n_idtr_base := tab_base tab, n_idtr_limit := tab_limit tab \<rparr>)"
| "native_set ctx (Cs seg) = Inr (ctx \<lparr> n_code_base := ucast (seg_base seg),
     n_code_limit := seg_limit seg, n_code_selector := seg_selector seg,
     n_code_attributes := seg_attributes seg \<rparr>)"
| "native_set ctx (Ds seg) = Inr (ctx \<lparr> n_data_base := ucast (seg_base seg),
     n_data_limit := seg_limit seg, n_data_selector := seg_selector seg,
     n_data_attributes := seg_attributes seg \<rparr>)"
| "native_set ctx (Gs seg) = Inr (ctx \<lparr> n_gs_base := seg_base seg \<rparr>)"
| "native_set ctx (Ss _) = Inr ctx"
| "native_set ctx (Es _) = Inr ctx"
| "native_set ctx (Fs _) = Inr ctx"
| "native_set ctx (Tr _) = Inr ctx"
| "native_set ctx (Pat _) = Inr ctx"
| "native_set ctx (OtherRegister _) = panic"

fun native_fold :: "native_ctx \<Rightarrow> x86_register list \<Rightarrow> string fault + native_ctx" where
  "native_fold ctx [] = Inr ctx"
| "native_fold ctx (r # rs) = and_then (native_set ctx r) (\<lambda>ctx. native_fold ctx rs)"

definition native_context :: "x86_register list \<Rightarrow> string fault + native_ctx" where
  "native_context regs = native_fold native_zeroed regs"

section \<open>VMSA\<close>

record sev_selector =
  sel_base :: "64 word"
  sel_limit :: "32 word"
  sel_selector :: "16 word"
  sel_attrib :: "16 word"

record sev_features =
  feat_snp :: bool
  feat_debug_swap :: bool

record sev_vmsa =
  v_rip :: "64 word"
  v_cr0 :: "64 word"
  v_pat :: "64 word"
  v_gdtr :: sev_selector
  v_idtr :: sev_selector
  v_cs :: sev_selector
  v_ss :: sev_selector
  v_ds :: sev_selector
  v_es :: sev_selector
  v_fs :: sev_selector
  v_gs :: sev_selector
  v_tr :: sev_selector
  v_dr6 :: "64 word"
  v_dr7 :: "64 word"
  v_xcr0 :: "64 word"
  v_x87_fcw :: "16 word"
  v_mxcsr :: "32 word"
  v_efer :: "64 word"
  v_features :: sev_features

definition vmsa_segment :: "segment_register \<Rightarrow> sev_selector" where
  "vmsa_segment seg =
     \<lparr> sel_base = seg_base seg, sel_limit = seg_limit seg, sel_selector = seg_selector seg,
       sel_attrib = (seg_attributes seg AND 0xff) OR drop_bit 4 (seg_attributes seg AND 0xf000) \<rparr>"

definition vmsa_table :: "table_register \<Rightarrow> sev_selector" where
  "vmsa_table tab =
     \<lparr> sel_base = tab_base tab, sel_limit = ucast (tab_limit tab), sel_selector = 0, sel_attrib = 0 \<rparr>"

definition vmsa_reset :: "sev_features \<Rightarrow> sev_vmsa" where
  "vmsa_reset features =
     (let z = \<lparr> sel_base = 0, sel_limit = 0, sel_selector = 0, sel_attrib = 0 \<rparr> in
      \<lparr> v_rip = 0, v_cr0 = 0, v_pat = 0, v_gdtr = z, v_idtr = z, v_cs = z, v_ss = z, v_ds = z, v_es = z,
        v_fs = z, v_gs = z, v_tr = z, v_dr6 = 0xffff0ff0, v_dr7 = 0x400, v_xcr0 = 1, v_x87_fcw = 0x37f,
        v_mxcsr = 0x1f80, v_efer = 0, v_features = features \<rparr>)"

fun vmsa_set :: "sev_vmsa \<Rightarrow> x86_register \<Rightarrow> string fault + sev_vmsa" where
  "vmsa_set v (Rip r) = Inr (v \<lparr> v_rip := r \<rparr>)"
| "vmsa_set v (Cr0 c) = Inr (v \<lparr> v_cr0 := c \<rparr>)"
| "vmsa_set v (Pat p) = Inr (v \<lparr> v_pat := p \<rparr>)"
| "vmsa_set v (Gdtr tab) = Inr (v \<lparr> v_gdtr := vmsa_table tab \<rparr>)"
| "vmsa_set v (Idtr tab) = Inr (v \<lparr> v_idtr := vmsa_table tab \<rparr>)"
| "vmsa_set v (Cs seg) = Inr (v \<lparr> v_cs := vmsa_segment seg \<rparr>)"
| "vmsa_set v (Ss seg) = Inr (v \<lparr> v_ss := vmsa_segment seg \<rparr>)"
| "vmsa_set v (Ds seg) = Inr (v \<lparr> v_ds := vmsa_segment seg \<rparr>)"
| "vmsa_set v (Es seg) = Inr (v \<lparr> v_es := vmsa_segment seg \<rparr>)"
| "vmsa_set v (Fs seg) = Inr (v \<lparr> v_fs := vmsa_segment seg \<rparr>)"
| "vmsa_set v (Gs seg) = Inr (v \<lparr> v_gs := vmsa_segment seg \<rparr>)"
| "vmsa_set v (Tr seg) = Inr (v \<lparr> v_tr := vmsa_segment seg \<rparr>)"
| "vmsa_set v (OtherRegister _) = panic"

fun vmsa_fold :: "sev_vmsa \<Rightarrow> x86_register list \<Rightarrow> string fault + sev_vmsa" where
  "vmsa_fold v [] = Inr v"
| "vmsa_fold v (r # rs) = and_then (vmsa_set v r) (\<lambda>v. vmsa_fold v rs)"

definition vmsa_context :: "x86_register list \<Rightarrow> sev_features \<Rightarrow> string fault + sev_vmsa" where
  "vmsa_context regs features =
     and_then (vmsa_fold (vmsa_reset features) regs) (\<lambda>v.
     Inr (v \<lparr> v_efer := v_efer v OR with_flag efer_layout ''svme'' True 0 \<rparr>))"

section \<open>Facts\<close>

lemma layouts_fill_words:
  "layout_width segment_layout = 16" "layout_width cr0_layout = 64" "layout_width cr4_layout = 64"
  "layout_width efer_layout = 64"
  by (simp_all add: layout_width_def segment_layout_def cr0_layout_def cr4_layout_def efer_layout_def)

lemma segment_values:
  "code16 = 0x9b" "data16 = 0x93" "code32 = 0xc09b" "data32 = 0xc093" "code64 = 0x2099" "data64 = 0x91"
  "tss16 = 0x83" "tss3264 = 0x8b" "seg_ldt = 0x82"
  by (simp_all add: code16_def data16_def code32_def data32_def code64_def data64_def tss16_def
      tss3264_def seg_ldt_def system_segment_def segment_new_def with_flag_def segment_layout_def
      set_bit_eq unset_bit_eq)

lemma control_values: "cr0_reset_fast = 0x10" "cr0_reset = 0x60000010"
  "with_flag efer_layout ''svme'' True (0 :: 64 word) = 0x1000"
  by (simp_all add: cr0_reset_def cr0_reset_fast_def with_flag_def cr0_layout_def efer_layout_def set_bit_eq)

lemma mask_bits:
  "bit (0xff :: 16 word) n \<longleftrightarrow> n < 8" "bit (0xf000 :: 16 word) n \<longleftrightarrow> 12 \<le> n \<and> n < 16"
  "bit (0xffff :: 32 word) n \<longleftrightarrow> n < 16" "bit (0xffff0000 :: 32 word) n \<longleftrightarrow> 16 \<le> n \<and> n < 32"
proof -
  have m: "(0xff :: 16 word) = mask 8" "(0xf000 :: 16 word) = push_bit 12 (mask 4)"
    "(0xffff :: 32 word) = mask 16" "(0xffff0000 :: 32 word) = push_bit 16 (mask 16)"
    by (simp_all add: mask_eq_exp_minus_1 push_bit_eq_mult)
  note bits = bit_mask_iff bit_push_bit_iff possible_bit_word
  show "bit (0xff :: 16 word) n \<longleftrightarrow> n < 8"
    by (simp only: m(1) bits) auto
  show "bit (0xf000 :: 16 word) n \<longleftrightarrow> 12 \<le> n \<and> n < 16"
    by (simp only: m(2) bits) auto
  show "bit (0xffff :: 32 word) n \<longleftrightarrow> n < 16"
    by (simp only: m(3) bits) auto
  show "bit (0xffff0000 :: 32 word) n \<longleftrightarrow> 16 \<le> n \<and> n < 32"
    by (simp only: m(4) bits) auto
qed

lemma attrib_bits:
  "bit (sel_attrib (vmsa_segment seg)) n \<longleftrightarrow>
     n < 8 \<and> bit (seg_attributes seg) n \<or> 8 \<le> n \<and> n < 12 \<and> bit (seg_attributes seg) (n + 4)"
proof -
  let ?a = "seg_attributes seg"
  have "bit (drop_bit 4 (?a AND 0xf000)) n \<longleftrightarrow> bit (?a AND 0xf000) (4 + n)"
    by (simp only: bit_drop_bit_eq o_def)
  then have "bit (sel_attrib (vmsa_segment seg)) n \<longleftrightarrow>
      bit ?a n \<and> n < 8 \<or> bit ?a (4 + n) \<and> 12 \<le> 4 + n \<and> 4 + n < 16"
    by (simp only: vmsa_segment_def sev_selector.simps bit_or_iff bit_and_iff mask_bits)
  then show ?thesis by (auto simp: add.commute)
qed

lemma split_address: "(ucast (a AND 0xffff0000) :: 64 word) + ucast (a AND 0xffff) = ucast (a :: 32 word)"
proof -
  have bound: "n < 32" if "bit a n" for n using bit_imp_le_length [OF that] by simp
  have "(ucast (a AND 0xffff0000) :: 64 word) + ucast (a AND 0xffff)
      = ucast (a AND 0xffff0000) OR ucast (a AND 0xffff)"
    by (rule disjunctive_add) (simp only: bit_unsigned_iff bit_and_iff mask_bits, linarith)
  also have "\<dots> = ucast a"
    by (rule bit_eqI)
      (use bound in \<open>auto simp only: bit_unsigned_iff bit_and_iff bit_or_iff mask_bits not_less\<close>)
  finally show ?thesis .
qed

section \<open>Properties\<close>

text \<open>
  A virtual CPU starts at the reset vector: for every 32-bit address the VMSA built from the real-mode registers
  exists, its code segment base plus instruction pointer is that address, and SVM is enabled in EFER
  with the architectural reset values elsewhere.
\<close>

theorem vmsa_starts_at_reset_vector:
  "\<exists>v. vmsa_context (real_mode_regs_at a) f = Inr v \<and> sel_base (v_cs v) + v_rip v = ucast a
    \<and> sel_attrib (v_cs v) = 0x9b \<and> v_cr0 v = 0x10 \<and> v_efer v = 0x1000 \<and> v_features v = f"
  by (simp add: vmsa_context_def real_mode_regs_at_def common_regs_def Let_def vmsa_reset_def
      vmsa_segment_def segment_values control_values split_address)

lemma program_registers_ok:
  "\<exists>v. vmsa_context (real_mode_regs_at a) f = Inr v" "\<exists>v. vmsa_context (flat32_mode_regs r) f = Inr v"
  "\<exists>n. native_context (flat32_mode_regs r) = Inr n"
  by (simp_all add: vmsa_context_def native_context_def real_mode_regs_at_def flat32_mode_regs_def
      common_regs_def Let_def)

end
