(* ===== verification/OvmfMeta.thy ===== *)
theory OvmfMeta
  imports RustStr
begin

text \<open>
  \<open>crates/igvm-tools/src/ovmfmeta.rs\<close>: the metadata OVMF keeps behind its reset vector.  From the end of
  the image backwards there is a list of blocks, each followed by its size and GUID; two of the blocks
  point to tables of memory regions.  \<open>read_from_prefix\<close> and \<open>read_from_suffix\<close> of the \<open>zerocopy\<close> crate
  read a fixed-size structure and fail when there are too few bytes.
\<close>

section \<open>GUIDs\<close>

text \<open>\<open>guid!\<close> of the \<open>uguid\<close> crate: the first three groups are little-endian.\<close>

definition guid :: "string \<Rightarrow> bytes" where
  "guid s =
     (case hex_decode (filter (\<lambda>c. c \<noteq> CHR ''-'') s) of
        None \<Rightarrow> []
      | Some b \<Rightarrow> rev (subslice b 0 4) @ rev (subslice b 4 6) @ rev (subslice b 6 8) @ drop 8 b)"

definition OVMF_META_LIST :: bytes where
  "OVMF_META_LIST = guid ''96b582de-1fb2-45f7-baea-a366c55a082d''"

definition OVMF_META_SEV_RESET :: bytes where
  "OVMF_META_SEV_RESET = guid ''00f771de-1a7e-4fcb-890e-68c77e2fb44e''"

definition OVMF_META_SEV_SECRET :: bytes where
  "OVMF_META_SEV_SECRET = guid ''4c2eb361-7d9b-4cc3-8081-127c90d3d294''"

definition OVMF_META_SEV_HASHES :: bytes where
  "OVMF_META_SEV_HASHES = guid ''7255371f-3a3b-4b04-927b-1da6efa8d454''"

definition OVMF_META_SEV_LIST :: bytes where
  "OVMF_META_SEV_LIST = guid ''dc886566-984a-4798-a75e-5585a7bf67cc''"

definition OVMF_META_IGVM_PARAM :: bytes where
  "OVMF_META_IGVM_PARAM = guid ''784fa70e-3176-4677-8a20-04b68699e374''"

section \<open>Regions\<close>

datatype region_type =
    Undefined
  | SevMemory | SevSecrets | SevCpuid | SevSvsmCca | SevHashes
  | IgvmParamArea | IgvmParamMemoryMap | IgvmParamVpCount | IgvmHobArea

definition region_new_sev :: "nat \<Rightarrow> region_type" where
  "region_new_sev t =
     (if t = 0x01 then SevMemory else if t = 0x02 then SevSecrets else if t = 0x03 then SevCpuid
      else if t = 0x04 then SevSvsmCca else if t = 0x10 then SevHashes else Undefined)"

definition region_new_igvm :: "nat \<Rightarrow> region_type" where
  "region_new_igvm t =
     (if t = 0x100 then IgvmParamArea else if t = 0x101 then IgvmParamMemoryMap
      else if t = 0x102 then IgvmParamVpCount else if t = 0x200 then IgvmHobArea else Undefined)"

record ovmf_region =
  r_base :: nat
  r_size :: nat
  etype :: region_type

record ovmf_meta =
  meta_firmware :: bytes
  regions :: "ovmf_region list"
  sev_reset_addr :: "nat option"

text \<open>A table entry, \<open>OvmfMetaSevIgvmEntry\<close>, as a region; the two tables differ in the region types.\<close>

definition entry_region :: "(nat \<Rightarrow> region_type) \<Rightarrow> bytes \<Rightarrow> ovmf_region" where
  "entry_region kind items =
     \<lparr> r_base = u32_at items 0, r_size = u32_at items 4, etype = kind (u32_at items 8) \<rparr>"

section \<open>Blocks\<close>

text \<open>\<open>meta_blk\<close>: GUID, content and what lies before it, from the block that ends the blob.\<close>

definition meta_blk :: "bytes \<Rightarrow> (bytes \<times> bytes \<times> bytes) option" where
  "meta_blk blob =
     (if length blob < 18 then None
      else
        let n = length blob - 18; size = u16_at blob n; g = drop (n + 2) blob in
        if size < 18 then None
        else if n < size - 18 then None
        else Some (g, subslice blob (n - (size - 18)) n, take (n - (size - 18)) blob))"

lemma meta_blk_shorter: "meta_blk blob = Some (g, blk, other) \<Longrightarrow> length other + 18 \<le> length blob"
  by (auto simp: meta_blk_def Let_def split: if_splits)

text \<open>
  The loop over the entries of a table: an entry that is cut off ends the loop and the block, the
  regions before it stay.
\<close>

fun read_entries :: "(nat \<Rightarrow> region_type) \<Rightarrow> nat \<Rightarrow> bytes \<Rightarrow> ovmf_region list" where
  "read_entries kind 0 items = []"
| "read_entries kind (Suc n) items =
     (if length items < 12 then []
      else
        let r = entry_region kind items; rest = read_entries kind n (drop 12 items) in
        if r_size r \<noteq> 0 then r # rest else rest)"

definition table_regions :: "(nat \<Rightarrow> region_type) \<Rightarrow> bytes \<Rightarrow> bytes \<Rightarrow> ovmf_region list" where
  "table_regions kind firmware blk =
     (if length blk < 4 then []
      else
        let listbase = u32_at blk 0 in
        if length firmware < listbase then []
        else
          let table = drop (length firmware - listbase) firmware in
          if length table < 16 then []
          else read_entries kind (u32_at table 12) (drop 16 table))"

definition parse_blk :: "ovmf_meta \<Rightarrow> bytes \<Rightarrow> bytes \<Rightarrow> ovmf_meta" where
  "parse_blk m g blk =
     (if g = OVMF_META_SEV_RESET then
        if length blk < 4 then m else m \<lparr> sev_reset_addr := Some (u32_at blk 0) \<rparr>
      else if g = OVMF_META_SEV_SECRET \<or> g = OVMF_META_SEV_HASHES then m
      else if g = OVMF_META_SEV_LIST then
        m \<lparr> regions := regions m @ table_regions region_new_sev (meta_firmware m) blk \<rparr>
      else if g = OVMF_META_IGVM_PARAM then
        m \<lparr> regions := regions m @ table_regions region_new_igvm (meta_firmware m) blk \<rparr>
      else m)"

function walk_blocks :: "ovmf_meta \<Rightarrow> bytes \<Rightarrow> ovmf_meta" where
  "walk_blocks m m1 =
     (case meta_blk m1 of
        None \<Rightarrow> m
      | Some (g, b, m2) \<Rightarrow> walk_blocks (parse_blk m g b) m2)"
  by pat_completeness auto
termination
  by (relation "measure (\<lambda>(m, m1). length m1)") (auto dest: meta_blk_shorter)

declare walk_blocks.simps [simp del]

definition ovmf_meta_new :: "bytes \<Rightarrow> ovmf_meta option" where
  "ovmf_meta_new firmware =
     (if length firmware < 0x20 then None
      else
        case meta_blk (take (length firmware - 0x20) firmware) of
          None \<Rightarrow> None
        | Some (g, m1, _) \<Rightarrow>
            let m = \<lparr> meta_firmware = firmware, regions = [], sev_reset_addr = None \<rparr> in
            Some (if g = OVMF_META_LIST then walk_blocks m m1 else m))"

section \<open>The layout a firmware build writes\<close>

definition encode_block :: "bytes \<times> bytes \<Rightarrow> bytes" where
  "encode_block x = snd x @ le_bytes 2 (length (snd x) + 18) @ fst x"

definition valid_block :: "bytes \<times> bytes \<Rightarrow> bool" where
  "valid_block x \<longleftrightarrow> length (fst x) = 16 \<and> length (snd x) + 18 < 2 ^ 16"

definition encode_region :: "nat \<times> nat \<times> nat \<Rightarrow> bytes" where
  "encode_region r = (case r of (b, s, k) \<Rightarrow> le_bytes 4 b @ le_bytes 4 s @ le_bytes 4 k)"

definition valid_region :: "nat \<times> nat \<times> nat \<Rightarrow> bool" where
  "valid_region r = (case r of (b, s, k) \<Rightarrow> b < 2 ^ 32 \<and> s < 2 ^ 32 \<and> k < 2 ^ 32)"

definition region_of :: "(nat \<Rightarrow> region_type) \<Rightarrow> nat \<times> nat \<times> nat \<Rightarrow> ovmf_region" where
  "region_of kind r = (case r of (b, s, k) \<Rightarrow> \<lparr> r_base = b, r_size = s, etype = kind k \<rparr>)"

lemma meta_blk_encoded:
  assumes "valid_block x"
  shows "meta_blk (pre @ encode_block x) = Some (fst x, snd x, pre)"
proof -
  let ?n = "length pre + length (snd x)"
  have "u16_at (pre @ encode_block x) ?n = length (snd x) + 18"
    using u16_at_written [of "length (snd x) + 18" ?n "pre @ snd x" "fst x"] assms
    by (simp add: encode_block_def valid_block_def)
  then show ?thesis
    using assms by (simp add: meta_blk_def encode_block_def valid_block_def Let_def subslice_def)
qed

lemma walk_blocks_encoded:
  assumes "list_all valid_block bs"
  shows "walk_blocks m (concat (map encode_block bs)) = foldr (\<lambda>x m. parse_blk m (fst x) (snd x)) bs m"
  using assms
proof (induction bs arbitrary: m rule: rev_induct)
  case Nil
  then show ?case by (subst walk_blocks.simps) (simp add: meta_blk_def)
next
  case (snoc x bs)
  then show ?case by (subst walk_blocks.simps) (simp add: meta_blk_encoded)
qed

lemma read_entries_encoded:
  "list_all valid_region rs \<Longrightarrow>
     read_entries kind (length rs) (concat (map encode_region rs) @ post)
       = map (region_of kind) (filter (\<lambda>(_, s, _). s \<noteq> 0) rs)"
proof (induction rs)
  case (Cons r rs)
  obtain b s k where r: "r = (b, s, k)" by (cases r)
  let ?d = "concat (map encode_region (r # rs)) @ post"
  have d: "?d = le_bytes 4 b @ le_bytes 4 s @ le_bytes 4 k @ concat (map encode_region rs) @ post"
    by (simp add: encode_region_def r)
  have f: "u32_at ?d 0 = b" "u32_at ?d 4 = s" "u32_at ?d 8 = k"
    using u32_at_written [of b 0 "[]"] u32_at_written [of s 4 "le_bytes 4 b"]
      u32_at_written [of k 8 "le_bytes 4 b @ le_bytes 4 s"] Cons.prems
    unfolding d by (simp_all add: valid_region_def r)
  have "drop 12 ?d = concat (map encode_region rs) @ post" "12 \<le> length ?d"
    unfolding d by simp_all
  then show ?case
    using Cons f by (simp add: r Let_def entry_region_def region_of_def not_less)
qed simp

lemma table_regions_encoded:
  assumes "list_all valid_region rs" and "length rs < 2 ^ 32" and "length header = 12"
    and "table = header @ le_bytes 4 (length rs) @ concat (map encode_region rs) @ post"
    and "length table < 2 ^ 32"
  shows "table_regions kind (pre @ table) (le_bytes 4 (length table) @ rest)
    = map (region_of kind) (filter (\<lambda>(_, s, _). s \<noteq> 0) rs)"
proof -
  have base: "u32_at (le_bytes 4 (length table) @ rest) 0 = length table"
    using u32_at_written [of "length table" 0 "[]" rest] assms(5) by simp
  have n: "u32_at table 12 = length rs"
    using u32_at_written [of "length rs" 12 header] assms(2-4) by simp
  have "drop 16 table = concat (map encode_region rs) @ post" "16 \<le> length table"
    using assms(3,4) by simp_all
  then show ?thesis
    using base n read_entries_encoded [OF assms(1)] by (simp add: table_regions_def Let_def)
qed

lemma guid_lengths:
  "length OVMF_META_LIST = 16" "length OVMF_META_SEV_LIST = 16" "length OVMF_META_SEV_RESET = 16"
  "length OVMF_META_IGVM_PARAM = 16"
  by (simp_all add: OVMF_META_LIST_def OVMF_META_SEV_LIST_def OVMF_META_SEV_RESET_def
      OVMF_META_IGVM_PARAM_def guid_def hex_val_def subslice_def)

lemma ovmf_meta_new_encoded:
  assumes "list_all valid_block bs" and "length (concat (map encode_block bs)) + 18 < 2 ^ 16"
    and "length reset = 32"
    and "firmware = body @ encode_block (OVMF_META_LIST, concat (map encode_block bs)) @ reset"
  shows "ovmf_meta_new firmware
    = Some (foldr (\<lambda>x m. parse_blk m (fst x) (snd x)) bs
        \<lparr> meta_firmware = firmware, regions = [], sev_reset_addr = None \<rparr>)"
proof -
  let ?l = "(OVMF_META_LIST, concat (map encode_block bs))"
  have "take (length firmware - 32) firmware = body @ encode_block ?l"
    using assms(3,4) by simp
  moreover have "valid_block ?l" using assms(2) guid_lengths by (simp add: valid_block_def)
  ultimately show ?thesis
    using assms(3,4) walk_blocks_encoded [OF assms(1)]
    by (simp add: ovmf_meta_new_def meta_blk_encoded)
qed

lemma guids_distinct: "OVMF_META_SEV_LIST \<noteq> OVMF_META_SEV_RESET" "OVMF_META_IGVM_PARAM \<noteq> OVMF_META_SEV_RESET"
  "OVMF_META_SEV_LIST \<noteq> OVMF_META_SEV_SECRET" "OVMF_META_SEV_LIST \<noteq> OVMF_META_SEV_HASHES"
  "OVMF_META_IGVM_PARAM \<noteq> OVMF_META_SEV_SECRET" "OVMF_META_IGVM_PARAM \<noteq> OVMF_META_SEV_HASHES"
  "OVMF_META_IGVM_PARAM \<noteq> OVMF_META_SEV_LIST"
  by (simp_all add: OVMF_META_SEV_LIST_def OVMF_META_SEV_RESET_def OVMF_META_IGVM_PARAM_def
      OVMF_META_SEV_SECRET_def OVMF_META_SEV_HASHES_def guid_def hex_val_def subslice_def)

text \<open>A firmware image with the three blocks and the two tables, as it is parsed.\<close>

lemma firmware_layout:
  assumes "bs = [(OVMF_META_IGVM_PARAM, le_bytes 4 (length t2)), (OVMF_META_SEV_LIST, le_bytes 4 (length t1)),
      (OVMF_META_SEV_RESET, le_bytes 4 addr)]"
    and "tail = encode_block (OVMF_META_LIST, concat (map encode_block bs)) @ reset" "length reset = 32"
    and "t2 = h2 @ le_bytes 4 (length ps) @ concat (map encode_region ps) @ mid @ tail" "length h2 = 12"
    and "t1 = h1 @ le_bytes 4 (length ss) @ concat (map encode_region ss) @ t2" "length h1 = 12"
    and "list_all valid_region ss" "list_all valid_region ps" "addr < 2 ^ 32" "length t1 < 2 ^ 32"
  shows "\<exists>m. ovmf_meta_new (body @ t1) = Some m \<and> sev_reset_addr m = Some addr
    \<and> regions m = map (region_of region_new_sev) (filter (\<lambda>(_, s, _). s \<noteq> 0) ss)
        @ map (region_of region_new_igvm) (filter (\<lambda>(_, s, _). s \<noteq> 0) ps)"
proof -
  have blocks: "list_all valid_block bs" "length (concat (map encode_block bs)) = 66"
    by (simp_all add: assms(1) valid_block_def guid_lengths encode_block_def)
  define body' where "body' = body @ h1 @ le_bytes 4 (length ss) @ concat (map encode_region ss) @ h2
      @ le_bytes 4 (length ps) @ concat (map encode_region ps) @ mid"
  have split: "body @ t1 = body' @ tail" by (simp add: assms(4,6) body'_def)
  have small: "length ss < 2 ^ 32" "length ps < 2 ^ 32" "length t2 < 2 ^ 32"
  proof -
    have "length xs \<le> length (concat (map encode_region xs))" for xs
      by (induction xs) (auto simp: encode_region_def split: prod.splits)
    from this [of ss] this [of ps] show "length ss < 2 ^ 32" "length ps < 2 ^ 32" "length t2 < 2 ^ 32"
      using assms(11) by (auto simp: assms(4,6))
  qed
  have tab1: "table_regions region_new_sev (body @ t1) (le_bytes 4 (length t1))
      = map (region_of region_new_sev) (filter (\<lambda>(_, s, _). s \<noteq> 0) ss)"
    using table_regions_encoded [OF assms(8) small(1) assms(7,6,11), of region_new_sev body "[]"] by simp
  have "body @ t1 = (body @ h1 @ le_bytes 4 (length ss) @ concat (map encode_region ss)) @ t2"
    by (simp add: assms(6))
  then have tab2: "table_regions region_new_igvm (body @ t1) (le_bytes 4 (length t2))
      = map (region_of region_new_igvm) (filter (\<lambda>(_, s, _). s \<noteq> 0) ps)"
    using table_regions_encoded [OF assms(9) small(2) assms(5,4) small(3), of region_new_igvm
        "body @ h1 @ le_bytes 4 (length ss) @ concat (map encode_region ss)" "[]"]
    by (simp only: append_Nil2)
  have "u32_at (le_bytes 4 addr) 0 = addr"
    using u32_at_written [of addr 0 "[]" "[]"] assms(10) by simp
  moreover have "ovmf_meta_new (body @ t1) = Some (foldr (\<lambda>x m. parse_blk m (fst x) (snd x)) bs
        \<lparr> meta_firmware = body @ t1, regions = [], sev_reset_addr = None \<rparr>)"
    by (rule ovmf_meta_new_encoded [OF blocks(1) _ assms(3)]) (use blocks(2) split assms(2) in simp_all)
  ultimately show ?thesis
    using tab1 tab2 guids_distinct guids_distinct [symmetric]
    by (simp add: assms(1) parse_blk_def)
qed

text \<open>Sample firmware: one measured region, one region of the given type and a reset address.\<close>

lemma sample_firmware:
  assumes "region_new_igvm k = t" and "k < 2 ^ 32"
  shows "\<exists>firmware m. length firmware = 194 \<and> ovmf_meta_new firmware = Some m \<and> sev_reset_addr m = Some 0x80b004
    \<and> regions m = [\<lparr> r_base = 0x800000, r_size = 0x9000, etype = SevMemory \<rparr>,
        \<lparr> r_base = 0x809000, r_size = 0x1000, etype = t \<rparr>]"
proof -
  define ss ps :: "(nat \<times> nat \<times> nat) list" where "ss = [(0x800000, 0x9000, 1)]"
    and "ps = [(0x809000, 0x1000, k)]"
  define tail where "tail = encode_block (OVMF_META_LIST, concat (map encode_block
      [(OVMF_META_IGVM_PARAM, le_bytes 4 (166 :: nat)), (OVMF_META_SEV_LIST, le_bytes 4 (194 :: nat)),
       (OVMF_META_SEV_RESET, le_bytes 4 0x80b004)])) @ zeros 32"
  define t2 where "t2 = zeros 12 @ le_bytes 4 (length ps) @ concat (map encode_region ps) @ zeros 22 @ tail"
  define t1 where "t1 = zeros 12 @ le_bytes 4 (length ss) @ concat (map encode_region ss) @ t2"
  have len: "length t2 = 166" "length t1 = 194"
    by (simp_all add: t1_def t2_def tail_def ss_def ps_def encode_region_def encode_block_def guid_lengths)
  have "list_all valid_region ss" "list_all valid_region ps"
    using assms(2) by (simp_all add: ss_def ps_def valid_region_def)
  from firmware_layout [OF refl, of tail t2 t1 "0x80b004" "zeros 32" "zeros 12" ps "zeros 22" "zeros 12" ss "[]",
      unfolded len, OF tail_def _ t2_def _ t1_def _ this]
  obtain m where "ovmf_meta_new t1 = Some m" "sev_reset_addr m = Some 0x80b004"
      "regions m = map (region_of region_new_sev) ss @ map (region_of region_new_igvm) ps"
    by (auto simp: ss_def ps_def)
  then show ?thesis
    using len assms(1)
    by (intro exI [of _ t1] exI [of _ m]) (simp add: ss_def ps_def region_of_def region_new_sev_def)
qed

section \<open>Properties\<close>


section \<open>Witness\<close>


end
