(* ===== verification/Hob.thy ===== *)
theory Hob
  imports OvmfMeta
begin

text \<open>
  \<open>crates/igvm-tools/src/hob.rs\<close>: the list of data blobs (kernel, shim, secure boot databases) placed in
  guest memory and the hand-off blocks that tell OVMF where they are.  Addresses are sums of the
  start address and of lengths of buffers that exist in memory, so they stay below \<open>2^64\<close>.
\<close>

section \<open>Structures\<close>

definition EFI_HOB_TYPE_GUID_EXTENSION :: nat where "EFI_HOB_TYPE_GUID_EXTENSION = 0x0004"

definition EFI_HOB_TYPE_END_OF_HOB_LIST :: nat where "EFI_HOB_TYPE_END_OF_HOB_LIST = 0xFFFF"

definition EFI_IGVM_DATA_HOB_GUID :: bytes where
  "EFI_IGVM_DATA_HOB_GUID = guid ''3dd177ff-b632-4e25-bef3-065063d55fc4''"

record hob_header =
  hob_type :: nat
  hob_length :: nat

definition header_bytes :: "hob_header \<Rightarrow> bytes" where
  "header_bytes h = le_bytes 2 (hob_type h) @ le_bytes 2 (hob_length h) @ le_bytes 4 0"

definition end_of_list :: hob_header where
  "end_of_list = \<lparr> hob_type = EFI_HOB_TYPE_END_OF_HOB_LIST, hob_length = 8 \<rparr>"

datatype igvm_data_type = Pk | Kek | Db | Dbx | Shim | KernelData

definition data_type_code :: "igvm_data_type \<Rightarrow> nat" where
  "data_type_code t =
     (case t of Pk \<Rightarrow> 0x100 | Kek \<Rightarrow> 0x101 | Db \<Rightarrow> 0x102 | Dbx \<Rightarrow> 0x103 | Shim \<Rightarrow> 0x200
      | KernelData \<Rightarrow> 0x201)"

record data_hob =
  hdr :: hob_header
  guid_ext :: bytes
  hob_address :: nat
  hob_data_length :: nat
  hob_data_type :: nat
  hob_data_flags :: nat

definition data_hob_new :: "nat \<Rightarrow> nat \<Rightarrow> igvm_data_type \<Rightarrow> data_hob" where
  "data_hob_new address len t =
     \<lparr> hdr = \<lparr> hob_type = EFI_HOB_TYPE_GUID_EXTENSION, hob_length = 0x30 \<rparr>,
       guid_ext = EFI_IGVM_DATA_HOB_GUID, hob_address = address, hob_data_length = len,
       hob_data_type = data_type_code t, hob_data_flags = 0 \<rparr>"

definition data_hob_bytes :: "data_hob \<Rightarrow> bytes" where
  "data_hob_bytes h =
     header_bytes (hdr h) @ guid_ext h @ le_bytes 8 (hob_address h) @ le_bytes 8 (hob_data_length h)
       @ le_bytes 4 (hob_data_type h) @ le_bytes 4 (hob_data_flags h)"

section \<open>The list\<close>

record data_entry =
  entry_hob :: data_hob
  entry_addr :: nat
  entry_blob :: bytes
  entry_measured :: bool

record data_list =
  list_base :: nat
  list_data :: "data_entry list"

definition data_list_new :: "nat \<Rightarrow> data_list" where
  "data_list_new base = \<lparr> list_base = base, list_data = [] \<rparr>"

definition next_multiple_of :: "nat \<Rightarrow> nat \<Rightarrow> nat" where
  "next_multiple_of n m = (if n mod m = 0 then n else n + (m - n mod m))"

definition data_list_add :: "data_list \<Rightarrow> bytes \<Rightarrow> igvm_data_type \<Rightarrow> bool \<Rightarrow> data_list" where
  "data_list_add l blob t measured =
     \<lparr> list_base = list_base l + next_multiple_of (length blob) 4096,
       list_data = list_data l @
         [\<lparr> entry_hob = data_hob_new (list_base l) (length blob) t, entry_addr = list_base l,
            entry_blob = blob, entry_measured = measured \<rparr>] \<rparr>"

definition hobs :: "data_list \<Rightarrow> bytes" where
  "hobs l = concat (map (\<lambda>d. data_hob_bytes (entry_hob d)) (list_data l)) @ header_bytes end_of_list"

definition blobs :: "data_list \<Rightarrow> bool \<Rightarrow> (nat \<times> bytes) list" where
  "blobs l measured =
     map (\<lambda>d. (entry_addr d, entry_blob d)) (filter (\<lambda>d. entry_measured d = measured) (list_data l))"

definition data_list_is_empty :: "data_list \<Rightarrow> bool" where
  "data_list_is_empty l \<longleftrightarrow> list_data l = []"

definition entry_count :: "data_list \<Rightarrow> nat" where
  "entry_count l = length (list_data l)"

section \<open>Facts\<close>

text \<open>The list after adding blobs one after the other.\<close>

definition add_all :: "data_list \<Rightarrow> (bytes \<times> igvm_data_type \<times> bool) list \<Rightarrow> data_list" where
  "add_all l xs = foldl (\<lambda>l x. data_list_add l (fst x) (fst (snd x)) (snd (snd x))) l xs"

lemma next_multiple_of:
  assumes "0 < m"
  shows "m dvd next_multiple_of n m" "n \<le> next_multiple_of n m"
proof -
  show "n \<le> next_multiple_of n m" by (simp add: next_multiple_of_def)
  show "m dvd next_multiple_of n m"
  proof (cases "n mod m = 0")
    case False
    have "n + (m - n mod m) = m * (n div m) + m"
      using assms mult_div_mod_eq [of m n] mod_less_divisor [OF assms, of n] by linarith
    then show ?thesis using False by (simp add: next_multiple_of_def)
  qed (simp add: next_multiple_of_def mod_eq_0_iff_dvd)
qed

definition entry_end :: "data_entry \<Rightarrow> nat" where
  "entry_end d = entry_addr d + next_multiple_of (length (entry_blob d)) 4096"

fun contiguous :: "nat \<Rightarrow> data_entry list \<Rightarrow> nat \<Rightarrow> bool" where
  "contiguous a [] b \<longleftrightarrow> a = b"
| "contiguous a (d # ds) b \<longleftrightarrow> entry_addr d = a \<and> contiguous (entry_end d) ds b"

lemma contiguous_append: "contiguous a (ds @ es) c \<longleftrightarrow> (\<exists>b. contiguous a ds b \<and> contiguous b es c)"
  by (induction ds arbitrary: a) auto

lemma add_contiguous:
  "contiguous a (list_data l) (list_base l) \<Longrightarrow>
     contiguous a (list_data (data_list_add l b t m)) (list_base (data_list_add l b t m))"
  by (auto simp: data_list_add_def contiguous_append entry_end_def)

lemma add_all_contiguous:
  "contiguous a (list_data l) (list_base l) \<Longrightarrow>
     contiguous a (list_data (add_all l xs)) (list_base (add_all l xs))"
proof (induction xs arbitrary: l)
  case (Cons x xs)
  then show ?case using add_contiguous [OF Cons.prems] by (simp add: add_all_def)
qed (simp add: add_all_def)

lemma contiguous_aligned:
  "contiguous a ds b \<Longrightarrow> 4096 dvd a \<Longrightarrow> d \<in> set ds \<Longrightarrow>
     4096 dvd entry_addr d \<and> a \<le> entry_addr d \<and> entry_end d \<le> b"
proof (induction ds arbitrary: a)
  case (Cons e ds)
  have le: "contiguous x es y \<Longrightarrow> x \<le> y" for x y es
    by (induction es arbitrary: x) (fastforce simp: entry_end_def)+
  have "4096 dvd entry_end e"
    using Cons.prems next_multiple_of(1) [of 4096] by (simp add: entry_end_def)
  then show ?case
    using Cons.IH [of "entry_end e"] Cons.prems le
    by (auto simp: entry_end_def intro: order_trans)
qed simp

lemma contiguous_ge: "contiguous a ds b \<Longrightarrow> d \<in> set ds \<Longrightarrow> a \<le> entry_addr d"
  by (induction ds arbitrary: a) (fastforce simp: entry_end_def)+

lemma contiguous_disjoint:
  "contiguous a ds b \<Longrightarrow> i < j \<Longrightarrow> j < length ds \<Longrightarrow> entry_end (ds ! i) \<le> entry_addr (ds ! j)"
proof (induction ds arbitrary: a i j)
  case (Cons e ds)
  then obtain k where k: "j = Suc k" "k < length ds" by (cases j) auto
  show ?case
  proof (cases i)
    case 0
    then show ?thesis using k Cons.prems(1) contiguous_ge [of "entry_end e" ds b "ds ! k"] by simp
  next
    case (Suc i')
    then show ?thesis using k Cons.IH [of "entry_end e" i' k] Cons.prems by simp
  qed
qed simp

text \<open>What a reader of the list (OVMF) sees: address, length and type of each data block.\<close>

function read_hobs :: "bytes \<Rightarrow> (nat \<times> nat \<times> nat) list" where
  "read_hobs d =
     (if length d < 8 \<or> u16_at d 0 \<noteq> EFI_HOB_TYPE_GUID_EXTENSION \<or> length d < 48 then []
      else (u64_at d 24, u64_at d 32, u32_at d 40) # read_hobs (drop 48 d))"
  by pat_completeness auto
termination by (relation "measure length") auto

declare read_hobs.simps [simp del]

lemma length_guid_ext: "length EFI_IGVM_DATA_HOB_GUID = 16"
  by (simp add: EFI_IGVM_DATA_HOB_GUID_def guid_def hex_val_def subslice_def)

lemma data_type_code_less: "data_type_code t < 2 ^ 32"
  by (simp add: data_type_code_def split: igvm_data_type.splits)

lemma read_hobs_encoded:
  assumes "a < u64_limit" "n < u64_limit"
  shows "read_hobs (data_hob_bytes (data_hob_new a n t) @ rest) = (a, n, data_type_code t) # read_hobs rest"
proof -
  let ?d = "data_hob_bytes (data_hob_new a n t) @ rest"
  let ?h = "header_bytes \<lparr> hob_type = 4, hob_length = 48 \<rparr> @ EFI_IGVM_DATA_HOB_GUID"
  have d: "?d = ?h @ le_bytes 8 a @ le_bytes 8 n @ le_bytes 4 (data_type_code t) @ le_bytes 4 0 @ rest"
    by (simp add: data_hob_bytes_def data_hob_new_def EFI_HOB_TYPE_GUID_EXTENSION_def)
  have h: "length ?h = 24" by (simp add: header_bytes_def length_guid_ext)
  have "u64_at ?d 24 = a" "u64_at ?d 32 = n" "u32_at ?d 40 = data_type_code t"
    using u64_at_written [of a 24 ?h] u64_at_written [of n 32 "?h @ le_bytes 8 a"]
      u32_at_written [of "data_type_code t" 40 "?h @ le_bytes 8 a @ le_bytes 8 n"] assms h
      data_type_code_less
    unfolding d by simp_all
  moreover have "u16_at ?d 0 = EFI_HOB_TYPE_GUID_EXTENSION"
    using u16_at_written [of 4 0 "[]"] unfolding d
    by (simp add: header_bytes_def EFI_HOB_TYPE_GUID_EXTENSION_def)
  moreover have "drop 48 ?d = rest" "48 \<le> length ?d" using h unfolding d by simp_all
  ultimately show ?thesis by (subst read_hobs.simps) simp
qed

definition hob_consistent :: "data_entry \<Rightarrow> bool" where
  "hob_consistent d \<longleftrightarrow> (\<exists>t. entry_hob d = data_hob_new (entry_addr d) (length (entry_blob d)) t)"

lemma add_all_consistent:
  "list_all hob_consistent (list_data l) \<Longrightarrow> list_all hob_consistent (list_data (add_all l xs))"
proof (induction xs arbitrary: l)
  case (Cons x xs)
  have "list_all hob_consistent (list_data (data_list_add l (fst x) (fst (snd x)) (snd (snd x))))"
    using Cons.prems by (simp add: data_list_add_def) (auto simp: hob_consistent_def)
  then show ?case using Cons.IH by (simp add: add_all_def)
qed (simp add: add_all_def)

lemma read_hobs_of_list:
  assumes "list_all hob_consistent ds"
    and "list_all (\<lambda>d. entry_addr d < u64_limit \<and> length (entry_blob d) < u64_limit) ds"
  shows "read_hobs (concat (map (\<lambda>d. data_hob_bytes (entry_hob d)) ds) @ header_bytes end_of_list)
    = map (\<lambda>d. (entry_addr d, length (entry_blob d), hob_data_type (entry_hob d))) ds"
  using assms
proof (induction ds)
  case Nil
  have "u16_at (header_bytes end_of_list) 0 = 0xFFFF"
    using u16_at_written [of "0xFFFF" 0 "[]"]
    by (simp add: header_bytes_def end_of_list_def EFI_HOB_TYPE_END_OF_HOB_LIST_def)
  then show ?case by (subst read_hobs.simps) (simp add: EFI_HOB_TYPE_GUID_EXTENSION_def)
next
  case (Cons d ds)
  then obtain t where t: "entry_hob d = data_hob_new (entry_addr d) (length (entry_blob d)) t"
    by (auto simp: hob_consistent_def)
  then show ?case
    using Cons read_hobs_encoded [of "entry_addr d" "length (entry_blob d)" t]
    by (simp add: data_hob_new_def)
qed

lemma add_all_entries:
  "map (\<lambda>d. (entry_blob d, hob_data_type (entry_hob d), entry_measured d)) (list_data (add_all l xs))
    = map (\<lambda>d. (entry_blob d, hob_data_type (entry_hob d), entry_measured d)) (list_data l)
      @ map (\<lambda>(b, t, m). (b, data_type_code t, m)) xs"
proof (induction xs arbitrary: l)
  case (Cons x xs)
  then show ?case by (cases x) (simp add: add_all_def data_list_add_def data_hob_new_def)
qed (simp add: add_all_def)

section \<open>Properties\<close>

text \<open>
  The data blobs and their hand-off blocks agree: whatever blobs are added to a list that starts at a page
  boundary, each is placed at a page boundary, no two of them overlap (not even in their last page), and
  reading the serialised block list gives exactly address, length and type of every blob, in order.
\<close>

theorem data_list_places_blobs:
  assumes "4096 dvd base" and "l = add_all (data_list_new base) xs" and "list_base l < u64_limit"
    and "i < j" and "j < length xs"
  shows "4096 dvd entry_addr (list_data l ! i)
    \<and> entry_end (list_data l ! i) \<le> entry_addr (list_data l ! j)
    \<and> map (\<lambda>d. (entry_blob d, hob_data_type (entry_hob d), entry_measured d)) (list_data l)
      = map (\<lambda>(b, t, m). (b, data_type_code t, m)) xs
    \<and> read_hobs (hobs l)
      = map (\<lambda>d. (entry_addr d, length (entry_blob d), hob_data_type (entry_hob d))) (list_data l)"
proof -
  have c: "contiguous base (list_data l) (list_base l)"
    unfolding assms(2) by (rule add_all_contiguous) (simp add: data_list_new_def)
  have entries: "map (\<lambda>d. (entry_blob d, hob_data_type (entry_hob d), entry_measured d)) (list_data l)
      = map (\<lambda>(b, t, m). (b, data_type_code t, m)) xs"
    using add_all_entries [of "data_list_new base" xs] by (simp add: assms(2) data_list_new_def)
  have len: "length (list_data l) = length xs" using arg_cong [OF entries, of length] by simp
  have "entry_addr d < u64_limit \<and> length (entry_blob d) < u64_limit" if "d \<in> set (list_data l)" for d
    using contiguous_aligned [OF c assms(1) that] assms(3) next_multiple_of(2) [of 4096 "length (entry_blob d)"]
    by (simp add: entry_end_def)
  moreover have "list_all hob_consistent (list_data l)"
    unfolding assms(2) by (rule add_all_consistent) (simp add: data_list_new_def)
  ultimately have "read_hobs (hobs l)
      = map (\<lambda>d. (entry_addr d, length (entry_blob d), hob_data_type (entry_hob d))) (list_data l)"
    unfolding hobs_def by (intro read_hobs_of_list) (auto simp: list_all_iff)
  then show ?thesis
    using entries contiguous_aligned [OF c assms(1), of "list_data l ! i"]
      contiguous_disjoint [OF c assms(4)] assms(4,5) len by simp
qed

section \<open>Witness\<close>

lemma data_list_places_blobs_witness:
  "read_hobs (hobs (add_all (data_list_new 0x20000000) [([1, 2, 3], Pk, True), ([4], KernelData, True)]))
    = [(0x20000000, 3, 0x100), (0x20001000, 1, 0x201)]"
proof -
  let ?xs = "[([1, 2, 3], Pk, True), ([4], KernelData, True)] :: (bytes \<times> igvm_data_type \<times> bool) list"
  let ?l = "add_all (data_list_new 0x20000000) ?xs"
  have l: "list_base ?l = 0x20002000" "map entry_addr (list_data ?l) = [0x20000000, 0x20001000]"
    by (simp_all add: add_all_def data_list_add_def data_list_new_def next_multiple_of_def)
  have "read_hobs (hobs ?l)
      = map (\<lambda>d. (entry_addr d, length (entry_blob d), hob_data_type (entry_hob d))) (list_data ?l)"
    using data_list_places_blobs [of "0x20000000" ?l ?xs 0 1] l(1) by (simp add: u64_limit_def)
  then show ?thesis
    by (simp add: add_all_def data_list_add_def data_list_new_def next_multiple_of_def data_hob_new_def
        data_type_code_def)
qed

end
