(* ===== verification/Builder.thy ===== *)
theory Builder
  imports X86Regs Hob
begin

text \<open>
  \<open>crates/igvm-tools/src/builder.rs\<close>: the IGVM file under construction.  The header types belong to the
  \<open>igvm\<close> crate; the model has the variants and fields the source uses.  \<open>IgvmFile::new\<close> checks the
  headers and keeps them: the check is the parameter \<open>validate\<close>.  Guest addresses are sums of 32-bit
  fields and of lengths of buffers that exist in memory, so they stay below \<open>2^64\<close>.
\<close>

section \<open>Headers\<close>

definition NATIVE_COMPAT :: "32 word" where "NATIVE_COMPAT = push_bit 0 1"

definition SEV_SNP_COMPAT :: "32 word" where "SEV_SNP_COMPAT = push_bit 1 1"

definition PAGE_SIZE_4K :: nat where "PAGE_SIZE_4K = 4096"

datatype platform_type = PlatformNative | PlatformSevSnp | PlatformOther nat

record platform_header =
  compat_mask :: "32 word"
  highest_vtl :: nat
  platform_kind :: platform_type
  platform_version :: nat
  shared_gpa_boundary :: nat

record snp_policy =
  reserved_must_be_one :: nat
  policy_smt :: nat

datatype init_header = GuestPolicy snp_policy "32 word"

datatype page_data_type = PageNormal | PageSecrets | PageCpuidData | PageCpuidXf | PageOther nat

text \<open>
  Directives: page data has an address, a mask, the flag \<open>unmeasured\<close>, a type and the data; a VP context
  has a mask and an index; a parameter names its area and offset.
\<close>

datatype directive =
    PageData nat "32 word" bool page_data_type bytes
  | X64NativeVpContext "32 word" nat native_ctx
  | SnpVpContext nat "32 word" nat sev_vmsa
  | ParameterArea nat nat bytes
  | MemoryMap nat nat
  | VpCount nat nat
  | ParameterInsert nat nat "32 word"
  | OtherDirective nat

record igvm_file =
  file_revision :: "nat \<times> string \<times> nat"
  file_platforms :: "platform_header list"
  file_inits :: "init_header list"
  file_directives :: "directive list"

record builder =
  b_platforms :: "platform_header list"
  b_inits :: "init_header list"
  b_directives :: "directive list"
  compat_all :: "32 word"

definition igvm_revision :: "nat \<times> string \<times> nat" where
  "igvm_revision = (2, ''X64'', PAGE_SIZE_4K)"

definition builder_new :: builder where
  "builder_new = \<lparr> b_platforms = [], b_inits = [], b_directives = [], compat_all = 0 \<rparr>"

definition push_directives :: "builder \<Rightarrow> directive list \<Rightarrow> builder" where
  "push_directives b ds = b \<lparr> b_directives := b_directives b @ ds \<rparr>"

section \<open>Platforms and processors\<close>

definition add_platform :: "builder \<Rightarrow> platform_type \<Rightarrow> 32 word \<Rightarrow> builder" where
  "add_platform b kind cm =
     b \<lparr> compat_all := compat_all b OR cm,
         b_platforms := b_platforms b @
           [\<lparr> compat_mask = cm, highest_vtl = 2, platform_kind = kind, platform_version = 1,
              shared_gpa_boundary = 0 \<rparr>] \<rparr>"

definition add_native_platform :: "builder \<Rightarrow> builder" where
  "add_native_platform b = add_platform b PlatformNative NATIVE_COMPAT"

definition add_snp_platform :: "builder \<Rightarrow> builder" where
  "add_snp_platform b = add_platform b PlatformSevSnp SEV_SNP_COMPAT"

definition add_native_context :: "builder \<Rightarrow> x86_register list \<Rightarrow> string fault + builder" where
  "add_native_context b regs =
     and_then (native_context regs) (\<lambda>native.
     Inr (push_directives b [X64NativeVpContext NATIVE_COMPAT 0 native]))"

definition add_snp_vmsa_context ::
  "builder \<Rightarrow> x86_register list \<Rightarrow> bool \<Rightarrow> nat \<Rightarrow> string fault + builder" where
  "add_snp_vmsa_context b regs debug vp_index =
     and_then (vmsa_context regs \<lparr> feat_snp = True, feat_debug_swap = debug \<rparr>) (\<lambda>vmsa.
     Inr (push_directives b [SnpVpContext 0xFFFFFFFFF000 SEV_SNP_COMPAT vp_index vmsa]))"

definition add_snp_policy :: "builder \<Rightarrow> snp_policy option \<Rightarrow> builder" where
  "add_snp_policy b policy =
     (let default = \<lparr> reserved_must_be_one = 1, policy_smt = 1 \<rparr> in
      b \<lparr> b_inits := b_inits b @
        [GuestPolicy (case policy of None \<Rightarrow> default | Some p \<Rightarrow> p) SEV_SNP_COMPAT] \<rparr>)"

section \<open>Pages\<close>

definition add_empty_pages :: "builder \<Rightarrow> nat \<Rightarrow> nat \<Rightarrow> 32 word \<Rightarrow> page_data_type \<Rightarrow> builder" where
  "add_empty_pages b base len cm t =
     push_directives b
       (map (\<lambda>pg. PageData (base + pg * PAGE_SIZE_4K) cm False t []) [0..<div_ceil len PAGE_SIZE_4K])"

definition add_empty_normal_pages :: "builder \<Rightarrow> nat \<Rightarrow> nat \<Rightarrow> builder" where
  "add_empty_normal_pages b base len = add_empty_pages b base len (compat_all b) PageNormal"

definition param_gpas :: "ovmf_meta \<Rightarrow> (nat \<times> nat) list" where
  "param_gpas m = map (\<lambda>r. (r_base r, r_size r)) (filter (\<lambda>r. etype r = IgvmParamArea) (regions m))"

definition region_page_type :: "region_type \<Rightarrow> page_data_type option" where
  "region_page_type t =
     (case t of
        SevMemory \<Rightarrow> Some PageNormal | SevSvsmCca \<Rightarrow> Some PageNormal | SevHashes \<Rightarrow> Some PageNormal
      | SevSecrets \<Rightarrow> Some PageSecrets | SevCpuid \<Rightarrow> Some PageCpuidData | _ \<Rightarrow> None)"

definition add_region_page ::
  "(nat \<times> nat) list \<Rightarrow> page_data_type \<Rightarrow> builder \<Rightarrow> nat \<Rightarrow> builder" where
  "add_region_page params t b gpa =
     (if list_ex (\<lambda>(base, len). base \<le> gpa \<and> gpa < base + len) params then b
      else add_empty_pages b gpa PAGE_SIZE_4K SEV_SNP_COMPAT t)"

definition add_region_pages :: "(nat \<times> nat) list \<Rightarrow> builder \<Rightarrow> ovmf_region \<Rightarrow> builder" where
  "add_region_pages params b r =
     (case region_page_type (etype r) of
        None \<Rightarrow> b
      | Some t \<Rightarrow>
          foldl (add_region_page params t) b
            (map (\<lambda>pg. r_base r + pg * PAGE_SIZE_4K) [0..<div_ceil (r_size r) PAGE_SIZE_4K]))"

definition add_ovmf_snp_pages :: "builder \<Rightarrow> ovmf_meta \<Rightarrow> builder" where
  "add_ovmf_snp_pages b m = foldl (add_region_pages (param_gpas m)) b (regions m)"

section \<open>Parameters\<close>

definition add_igvm_param_area :: "builder \<Rightarrow> nat \<Rightarrow> nat \<Rightarrow> builder" where
  "add_igvm_param_area b index len = push_directives b [ParameterArea index len []]"

definition add_igvm_param :: "builder \<Rightarrow> (nat \<Rightarrow> nat \<Rightarrow> directive) \<Rightarrow> nat \<Rightarrow> nat \<Rightarrow> builder" where
  "add_igvm_param b mkdirective index offset = push_directives b [mkdirective index offset]"

definition add_igvm_param_memmap :: "builder \<Rightarrow> nat \<Rightarrow> nat \<Rightarrow> builder" where
  "add_igvm_param_memmap b index offset = add_igvm_param b MemoryMap index offset"

definition add_igvm_param_vpcount :: "builder \<Rightarrow> nat \<Rightarrow> nat \<Rightarrow> builder" where
  "add_igvm_param_vpcount b index offset = add_igvm_param b VpCount index offset"

definition add_igvm_param_insert :: "builder \<Rightarrow> nat \<Rightarrow> nat \<Rightarrow> builder" where
  "add_igvm_param_insert b index gpa = push_directives b [ParameterInsert index gpa (compat_all b)]"

definition add_region_param :: "builder \<Rightarrow> ovmf_region \<Rightarrow> builder" where
  "add_region_param b r =
     (case etype r of
        IgvmParamMemoryMap \<Rightarrow> add_igvm_param_memmap b 0 (r_base r mod 2 ^ 32)
      | IgvmParamVpCount \<Rightarrow> add_igvm_param_vpcount b 0 (r_base r mod 2 ^ 32)
      | _ \<Rightarrow> b)"

definition add_ovmf_igvm_params :: "builder \<Rightarrow> ovmf_meta \<Rightarrow> builder" where
  "add_ovmf_igvm_params b m =
     (case find (\<lambda>r. etype r = IgvmParamArea) (regions m) of
        None \<Rightarrow> b
      | Some area \<Rightarrow>
          add_igvm_param_insert
            (foldl add_region_param (add_igvm_param_area b 0 (r_size area)) (regions m))
            0 (r_base area))"

section \<open>Data\<close>

definition add_data_pages_flags :: "builder \<Rightarrow> nat \<Rightarrow> bytes \<Rightarrow> bool \<Rightarrow> builder" where
  "add_data_pages_flags b base data unmeasured =
     push_directives b
       (map (\<lambda>pg. let start = pg * PAGE_SIZE_4K; stop = min (start + PAGE_SIZE_4K) (length data) in
               PageData (base + start) (compat_all b) unmeasured PageNormal (subslice data start stop))
         [0..<div_ceil (length data) PAGE_SIZE_4K])"

definition add_data_pages :: "builder \<Rightarrow> nat \<Rightarrow> bytes \<Rightarrow> builder" where
  "add_data_pages b base data = add_data_pages_flags b base data False"

definition add_data_pages_unmeasured :: "builder \<Rightarrow> nat \<Rightarrow> bytes \<Rightarrow> builder" where
  "add_data_pages_unmeasured b base data = add_data_pages_flags b base data True"

definition page_in_range :: "nat \<Rightarrow> nat \<Rightarrow> directive \<Rightarrow> bool" where
  "page_in_range base len d =
     (case d of
        PageData gpa _ _ _ _ \<Rightarrow> base \<le> gpa \<and> gpa < base + max len PAGE_SIZE_4K
      | _ \<Rightarrow> False)"

definition remove_page_data_in_range :: "builder \<Rightarrow> nat \<Rightarrow> nat \<Rightarrow> builder" where
  "remove_page_data_in_range b base len =
     b \<lparr> b_directives := filter (\<lambda>d. \<not> page_in_range base len d) (b_directives b) \<rparr>"

text \<open>Firmware of more than four gigabytes makes the subtraction panic.\<close>

definition add_firmware_4g :: "builder \<Rightarrow> bytes \<Rightarrow> string fault + builder" where
  "add_firmware_4g b firmware =
     and_then (sub_u64 (2 ^ 32) (length firmware)) (\<lambda>fwbase. Inr (add_data_pages b fwbase firmware))"

definition add_firmware_1m :: "builder \<Rightarrow> bytes \<Rightarrow> builder" where
  "add_firmware_1m b firmware =
     (let lowsize = min (128 * 1024) (length firmware);
          lowbase = 2 ^ 20 - lowsize;
          offset = length firmware - lowsize in
      add_data_pages b lowbase (drop offset firmware))"

definition add_uefivars :: "builder \<Rightarrow> bytes \<Rightarrow> nat \<Rightarrow> string fault + builder" where
  "add_uefivars b uefivars fwsize =
     and_then (sub_u64 (2 ^ 32) (length uefivars)) (\<lambda>top.
     and_then (sub_u64 top fwsize) (\<lambda>varsbase. Inr (add_data_pages b varsbase uefivars)))"

section \<open>Finalization\<close>

definition sort_gpa :: "directive \<Rightarrow> nat" where
  "sort_gpa d = (case d of PageData gpa _ _ _ _ \<Rightarrow> gpa | _ \<Rightarrow> 0)"

definition finalize :: "(igvm_file \<Rightarrow> string option) \<Rightarrow> builder \<Rightarrow> string fault + igvm_file" where
  "finalize validate b =
     (let file = \<lparr> file_revision = igvm_revision, file_platforms = b_platforms b,
                   file_inits = b_inits b, file_directives = sort_key sort_gpa (b_directives b) \<rparr> in
      case validate file of None \<Rightarrow> Inr file | Some e \<Rightarrow> bail e)"

end
