(* ===== verification/SnpMeasure.thy ===== *)
theory SnpMeasure
  imports Builder HashChain
begin

text \<open>
  \<open>crates/igvm-tools/src/measure.rs\<close> and \<open>hypervisor.rs\<close>: the SNP launch digest of an IGVM file, with the
  batching of QEMU and the VMSA changes of KVM.  The layout of a VMSA in memory belongs to the \<open>igvm\<close>
  crate: the parameter \<open>vmsa_bytes\<close>.
\<close>

section \<open>PAGE_INFO\<close>

definition SNP_PAGE_TYPE_NORMAL :: nat where "SNP_PAGE_TYPE_NORMAL = 0x01"
definition SNP_PAGE_TYPE_VMSA :: nat where "SNP_PAGE_TYPE_VMSA = 0x02"
definition SNP_PAGE_TYPE_UNMEASURED :: nat where "SNP_PAGE_TYPE_UNMEASURED = 0x04"
definition SNP_PAGE_TYPE_SECRETS :: nat where "SNP_PAGE_TYPE_SECRETS = 0x05"
definition SNP_PAGE_TYPE_CPUID :: nat where "SNP_PAGE_TYPE_CPUID = 0x06"

definition VMSA_GPA :: nat where "VMSA_GPA = 0xFFFFFFFFF000"

definition page_info :: "bytes \<Rightarrow> bytes \<Rightarrow> nat \<Rightarrow> nat \<Rightarrow> bytes" where
  "page_info digest_cur contents page_type gpa =
     overwrite (overwrite (overwrite (overwrite (overwrite (zeros 0x70)
       0x00 digest_cur) 0x30 contents) 0x60 (le_bytes 2 0x0070)) 0x62 [of_nat page_type])
       0x68 (le_bytes 8 gpa)"

definition update_page_info ::
  "(bytes \<Rightarrow> digest) \<Rightarrow> bytes \<Rightarrow> bytes \<Rightarrow> nat \<Rightarrow> nat \<Rightarrow> bytes" where
  "update_page_info sha digest_cur contents page_type gpa =
     sha384 sha (page_info digest_cur contents page_type gpa)"

text \<open>The first page of some data, filled up with zeros.\<close>

definition padded_page :: "bytes \<Rightarrow> bytes" where
  "padded_page data = take 4096 data @ zeros (4096 - length data)"

definition classify_page_data ::
  "(bytes \<Rightarrow> digest) \<Rightarrow> page_data_type \<Rightarrow> bool \<Rightarrow> bytes \<Rightarrow> nat \<times> bytes \<times> bool" where
  "classify_page_data sha t unmeasured data =
     (case t of
        PageSecrets \<Rightarrow> (SNP_PAGE_TYPE_SECRETS, zeros 48, False)
      | PageCpuidData \<Rightarrow> (SNP_PAGE_TYPE_CPUID, zeros 48, False)
      | PageCpuidXf \<Rightarrow> (SNP_PAGE_TYPE_CPUID, zeros 48, False)
      | _ \<Rightarrow>
          if unmeasured then (SNP_PAGE_TYPE_UNMEASURED, zeros 48, False)
          else (SNP_PAGE_TYPE_NORMAL, sha384 sha (padded_page data), data \<noteq> []))"

section \<open>KVM\<close>

definition apply_kvm_vmsa_overrides :: "bytes \<Rightarrow> bytes" where
  "apply_kvm_vmsa_overrides vmsa = vmsa[0x148 := 0x40, 0x170 := 0x02]"

definition vmsa_page :: "(sev_vmsa \<Rightarrow> bytes) \<Rightarrow> sev_vmsa \<Rightarrow> bytes" where
  "vmsa_page vmsa_bytes v = apply_kvm_vmsa_overrides (padded_page (vmsa_bytes v))"

section \<open>The measurement loop\<close>

text \<open>The four \<open>prev_\<close> and \<open>last_\<close> variables of the source are set together: one optional tuple.\<close>

record measure_state =
  ld :: bytes
  page_count :: nat
  vmsa_pages :: "(nat \<times> bytes) list"
  pending :: "(nat \<times> nat \<times> bytes) list"
  prev_page :: "(nat \<times> nat \<times> bool \<times> nat) option"

definition measure_init :: measure_state where
  "measure_init = \<lparr> ld = zeros 48, page_count = 0, vmsa_pages = [], pending = [], prev_page = None \<rparr>"

definition flush_batch :: "(bytes \<Rightarrow> digest) \<Rightarrow> measure_state \<Rightarrow> measure_state" where
  "flush_batch sha st =
     st \<lparr> ld := foldl (\<lambda>d (gpa, t, c). update_page_info sha d c t gpa) (ld st) (pending st),
          page_count := page_count st + length (pending st), pending := [] \<rparr>"

definition should_flush :: "measure_state \<Rightarrow> nat \<Rightarrow> nat \<Rightarrow> nat \<Rightarrow> bool \<Rightarrow> string fault + bool" where
  "should_flush st idx gpa t has_data =
     (case prev_page st of
        None \<Rightarrow> Inr False
      | Some (prev_gpa, prev_type, prev_has, last_idx) \<Rightarrow>
          if t \<noteq> prev_type \<or> has_data \<noteq> prev_has then Inr True
          else and_then (add_u64 prev_gpa 4096) (\<lambda>next_gpa.
            Inr (gpa \<noteq> next_gpa \<or> idx \<noteq> last_idx + 1)))"

definition measure_page_data ::
  "(bytes \<Rightarrow> digest) \<Rightarrow> nat \<Rightarrow> nat \<Rightarrow> bool \<Rightarrow> page_data_type \<Rightarrow> bytes \<Rightarrow> measure_state
     \<Rightarrow> string fault + measure_state" where
  "measure_page_data sha idx gpa unmeasured dt data st =
     (case classify_page_data sha dt unmeasured data of (t, contents, has_data) \<Rightarrow>
        and_then (should_flush st idx gpa t has_data) (\<lambda>flush.
        let st = (if flush \<and> pending st \<noteq> [] then flush_batch sha st else st) in
        Inr (st \<lparr> pending := pending st @ [(gpa, t, contents)],
                  prev_page := Some (gpa, t, has_data, idx) \<rparr>)))"

fun measure_insert_pages ::
  "(bytes \<Rightarrow> digest) \<Rightarrow> nat \<Rightarrow> nat list \<Rightarrow> measure_state \<Rightarrow> string fault + measure_state" where
  "measure_insert_pages sha gpa [] st = Inr st"
| "measure_insert_pages sha gpa (pg # pgs) st =
     and_then (add_u64 gpa (pg * 4096)) (\<lambda>page_gpa.
     measure_insert_pages sha gpa pgs
       (st \<lparr> ld := update_page_info sha (ld st) (zeros 48) SNP_PAGE_TYPE_UNMEASURED page_gpa,
             page_count := page_count st + 1 \<rparr>))"

definition find_snp_compat :: "igvm_file \<Rightarrow> string fault + 32 word" where
  "find_snp_compat igvm =
     ok_or (Err ''No SEV_SNP platform found in IGVM file'')
       (map_option compat_mask (find (\<lambda>p. platform_kind p = PlatformSevSnp) (file_platforms igvm)))"

text \<open>\<open>HashMap::insert\<close>: the last area with an index wins.\<close>

definition collect_param_areas :: "igvm_file \<Rightarrow> (nat \<rightharpoonup> nat)" where
  "collect_param_areas igvm =
     foldl (\<lambda>areas d. case d of ParameterArea index len _ \<Rightarrow> areas(index \<mapsto> len) | _ \<Rightarrow> areas)
       Map.empty (file_directives igvm)"

fun measure_directive ::
  "(bytes \<Rightarrow> digest) \<Rightarrow> (sev_vmsa \<Rightarrow> bytes) \<Rightarrow> 32 word \<Rightarrow> (nat \<rightharpoonup> nat) \<Rightarrow> nat \<Rightarrow> directive
     \<Rightarrow> measure_state \<Rightarrow> string fault + measure_state" where
  "measure_directive sha vmsa_bytes snp_mask areas idx (PageData gpa cm unmeasured dt data) st =
     (if cm AND snp_mask = 0 then Inr st else measure_page_data sha idx gpa unmeasured dt data st)"
| "measure_directive sha vmsa_bytes snp_mask areas idx (SnpVpContext gpa cm vp vmsa) st =
     (if cm AND snp_mask = 0 then Inr st
      else Inr (st \<lparr> vmsa_pages := vmsa_pages st @ [(gpa, vmsa_page vmsa_bytes vmsa)] \<rparr>))"
| "measure_directive sha vmsa_bytes snp_mask areas idx (ParameterInsert index gpa cm) st =
     (if cm AND snp_mask = 0 then Inr st
      else
        and_then (ok_or (Err (''ParameterInsert references unknown area '' @ nat_digits 10 index)) (areas index)) (\<lambda>area_size.
        measure_insert_pages sha gpa [0..<div_ceil area_size 4096] st))"
| "measure_directive sha vmsa_bytes snp_mask areas idx _ st = Inr st"

fun measure_loop ::
  "(bytes \<Rightarrow> digest) \<Rightarrow> (sev_vmsa \<Rightarrow> bytes) \<Rightarrow> 32 word \<Rightarrow> (nat \<rightharpoonup> nat) \<Rightarrow> nat \<Rightarrow> directive list
     \<Rightarrow> measure_state \<Rightarrow> string fault + measure_state" where
  "measure_loop sha vmsa_bytes snp_mask areas idx [] st = Inr st"
| "measure_loop sha vmsa_bytes snp_mask areas idx (d # ds) st =
     and_then (measure_directive sha vmsa_bytes snp_mask areas idx d st)
       (measure_loop sha vmsa_bytes snp_mask areas (idx + 1) ds)"

definition measure_vmsa_pages :: "(bytes \<Rightarrow> digest) \<Rightarrow> measure_state \<Rightarrow> measure_state" where
  "measure_vmsa_pages sha st =
     st \<lparr> ld := foldl (\<lambda>d (_, p). update_page_info sha d (sha384 sha p) SNP_PAGE_TYPE_VMSA VMSA_GPA)
            (ld st) (vmsa_pages st),
          page_count := page_count st + length (vmsa_pages st) \<rparr>"

record measure_result =
  launch_digest :: bytes
  result_pages :: nat
  vmsa_count :: nat

definition measure_snp ::
  "(bytes \<Rightarrow> digest) \<Rightarrow> (sev_vmsa \<Rightarrow> bytes) \<Rightarrow> igvm_file \<Rightarrow> string fault + measure_result" where
  "measure_snp sha vmsa_bytes igvm =
     and_then (find_snp_compat igvm) (\<lambda>snp_mask.
     and_then (measure_loop sha vmsa_bytes snp_mask (collect_param_areas igvm) 0 (file_directives igvm)
         measure_init) (\<lambda>st.
     let st = (if pending st \<noteq> [] then flush_batch sha st else st);
         fin = measure_vmsa_pages sha st in
     Inr \<lparr> launch_digest = ld fin, result_pages = page_count fin,
           vmsa_count = length (vmsa_pages st) mod 2 ^ 32 \<rparr>))"

section \<open>The launch digest as a chain\<close>

type_synonym page_event = "nat \<times> nat \<times> bytes"

definition page_message :: "bytes \<Rightarrow> page_event \<Rightarrow> bytes" where
  "page_message d e = (case e of (gpa, t, c) \<Rightarrow> page_info d c t gpa)"

definition page_event_ok :: "page_event \<Rightarrow> bool" where
  "page_event_ok e \<longleftrightarrow> (case e of (gpa, t, c) \<Rightarrow> gpa < u64_limit \<and> t < 256 \<and> length c = 48)"

lemma overwrite_append:
  "p = length a \<Longrightarrow> length f = length b \<Longrightarrow> overwrite (a @ b @ c) p f = a @ f @ c"
  by (simp add: overwrite_def)

lemma page_info_layout:
  assumes "length d = 48" "length c = 48"
  shows "page_info d c t g = d @ c @ le_bytes 2 0x70 @ [of_nat t] @ zeros 5 @ le_bytes 8 g"
proof -
  have z: "zeros 0x70 = [] @ zeros 48 @ zeros 64" "zeros 64 = zeros 48 @ zeros 16"
    "zeros 16 = zeros 2 @ zeros 14" "zeros 14 = zeros 1 @ zeros 13" "zeros 13 = zeros 5 @ zeros 8"
    by (simp_all add: exec_simps)
  have 1: "overwrite (zeros 0x70) 0 d = d @ zeros 64"
    unfolding z(1) by (subst overwrite_append) (use assms in simp_all)
  have 2: "overwrite (d @ zeros 64) 0x30 c = d @ c @ zeros 16"
    unfolding z(2) by (subst overwrite_append) (use assms in simp_all)
  have 3: "overwrite (d @ c @ zeros 16) 0x60 (le_bytes 2 0x70) = d @ c @ le_bytes 2 0x70 @ zeros 14"
    unfolding z(3) using overwrite_append [of "0x60" "d @ c" "le_bytes 2 0x70" "zeros 2" "zeros 14"] assms
    by simp
  have 4: "overwrite (d @ c @ le_bytes 2 0x70 @ zeros 14) 0x62 [of_nat t]
      = d @ c @ le_bytes 2 0x70 @ [of_nat t] @ zeros 13"
    unfolding z(4)
    using overwrite_append [of "0x62" "d @ c @ le_bytes 2 0x70" "[of_nat t]" "zeros 1" "zeros 13"] assms
    by simp
  have 5: "overwrite (d @ c @ le_bytes 2 0x70 @ [of_nat t] @ zeros 13) 0x68 (le_bytes 8 g)
      = d @ c @ le_bytes 2 0x70 @ [of_nat t] @ zeros 5 @ le_bytes 8 g"
    unfolding z(5)
    using overwrite_append [of "0x68" "d @ c @ le_bytes 2 0x70 @ [of_nat t] @ zeros 5" "le_bytes 8 g"
        "zeros 8" "[]"] assms
    by simp
  show ?thesis unfolding page_info_def 1 2 3 4 5 ..
qed

interpretation snp_chain: digest_chain page_message "sha384 sha" "\<lambda>d. length d = 48" page_event_ok for sha
proof
  fix d d' e e'
  assume a: "length d = 48" "length d' = 48" "page_event_ok e" "page_event_ok e'"
    "page_message d e = page_message d' e'"
  obtain g t c g' t' c' where e: "e = (g, t, c)" "e' = (g', t', c')" by (cases e, cases e')
  have "t mod 256 = t'  mod 256 \<Longrightarrow> t = t'" using a(3,4) e by (simp add: page_event_ok_def)
  moreover have "(of_nat t :: byte) = of_nat t' \<Longrightarrow> t mod 256 = t' mod 256"
    by (simp add: word_unat_eq_iff unat_of_nat)
  ultimately show "d = d' \<and> e = e'"
    using a e by (auto simp: page_message_def page_event_ok_def page_info_layout le64.encode_inject)
qed simp

abbreviation page_chain :: "(bytes \<Rightarrow> digest) \<Rightarrow> bytes \<Rightarrow> page_event list \<Rightarrow> bytes" where
  "page_chain sha \<equiv> chain page_message (sha384 sha)"

lemma update_page_info_chain: "update_page_info sha d c t g = page_chain sha d [(g, t, c)]"
  by (simp add: update_page_info_def page_message_def)

lemma foldl_pages: "foldl (\<lambda>d (gpa, t, c). update_page_info sha d c t gpa) d ps = page_chain sha d ps"
  by (induction ps arbitrary: d) (auto simp: update_page_info_def page_message_def)

section \<open>What the loop measures\<close>

text \<open>
  A measured page: address, type, and the bytes whose hash is its contents (none where the contents are
  zero).
\<close>

type_synonym measured_page = "nat \<times> nat \<times> bytes option"

definition hash_page :: "(bytes \<Rightarrow> digest) \<Rightarrow> measured_page \<Rightarrow> page_event" where
  "hash_page sha p =
     (case p of (gpa, t, m) \<Rightarrow> (gpa, t, case m of None \<Rightarrow> zeros 48 | Some d \<Rightarrow> sha384 sha d))"

definition data_page :: "nat \<Rightarrow> bool \<Rightarrow> page_data_type \<Rightarrow> bytes \<Rightarrow> measured_page" where
  "data_page gpa unmeasured dt data =
     (case dt of
        PageSecrets \<Rightarrow> (gpa, SNP_PAGE_TYPE_SECRETS, None)
      | PageCpuidData \<Rightarrow> (gpa, SNP_PAGE_TYPE_CPUID, None)
      | PageCpuidXf \<Rightarrow> (gpa, SNP_PAGE_TYPE_CPUID, None)
      | _ \<Rightarrow> if unmeasured then (gpa, SNP_PAGE_TYPE_UNMEASURED, None)
             else (gpa, SNP_PAGE_TYPE_NORMAL, Some (padded_page data)))"

definition insert_pages :: "nat \<Rightarrow> nat \<Rightarrow> measured_page list" where
  "insert_pages gpa area_size =
     map (\<lambda>pg. (gpa + pg * 4096, SNP_PAGE_TYPE_UNMEASURED, None)) [0..<div_ceil area_size 4096]"

fun directive_pages :: "32 word \<Rightarrow> (nat \<rightharpoonup> nat) \<Rightarrow> directive \<Rightarrow> measured_page list" where
  "directive_pages snp_mask areas (PageData gpa cm unmeasured dt data) =
     (if cm AND snp_mask = 0 then [] else [data_page gpa unmeasured dt data])"
| "directive_pages snp_mask areas (ParameterInsert index gpa cm) =
     (if cm AND snp_mask = 0 then [] else insert_pages gpa (case areas index of None \<Rightarrow> 0 | Some n \<Rightarrow> n))"
| "directive_pages snp_mask areas _ = []"

fun vmsa_contents :: "(sev_vmsa \<Rightarrow> bytes) \<Rightarrow> 32 word \<Rightarrow> directive \<Rightarrow> bytes list" where
  "vmsa_contents vmsa_bytes snp_mask (SnpVpContext gpa cm vp vmsa) =
     (if cm AND snp_mask = 0 then [] else [vmsa_page vmsa_bytes vmsa])"
| "vmsa_contents vmsa_bytes snp_mask _ = []"

definition vmsa_measured :: "bytes \<Rightarrow> measured_page" where
  "vmsa_measured p = (VMSA_GPA, SNP_PAGE_TYPE_VMSA, Some p)"

definition pages_of :: "32 word \<Rightarrow> (nat \<rightharpoonup> nat) \<Rightarrow> directive list \<Rightarrow> measured_page list" where
  "pages_of snp_mask areas ds = concat (map (directive_pages snp_mask areas) ds)"

definition vmsas_of :: "(sev_vmsa \<Rightarrow> bytes) \<Rightarrow> 32 word \<Rightarrow> directive list \<Rightarrow> bytes list" where
  "vmsas_of vmsa_bytes snp_mask ds = concat (map (vmsa_contents vmsa_bytes snp_mask) ds)"

definition file_pages :: "(sev_vmsa \<Rightarrow> bytes) \<Rightarrow> 32 word \<Rightarrow> igvm_file \<Rightarrow> measured_page list" where
  "file_pages vmsa_bytes snp_mask f =
     pages_of snp_mask (collect_param_areas f) (file_directives f)
     @ map vmsa_measured (vmsas_of vmsa_bytes snp_mask (file_directives f))"

fun is_insert :: "directive \<Rightarrow> bool" where
  "is_insert (ParameterInsert _ _ _) = True"
| "is_insert _ = False"

fun is_page :: "directive \<Rightarrow> bool" where
  "is_page (PageData _ _ _ _ _) = True"
| "is_page _ = False"

text \<open>Every parameter page comes before every data page.\<close>

fun inserts_first :: "directive list \<Rightarrow> bool" where
  "inserts_first [] \<longleftrightarrow> True"
| "inserts_first (d # ds) \<longleftrightarrow> (if is_page d then \<not> list_ex is_insert ds else inserts_first ds)"

text \<open>
  The abstract state of the loop: the digest and page count as if the pending batch had been flushed,
  and the VMSA pages.  A flush does not change it.
\<close>

definition abs_state :: "(bytes \<Rightarrow> digest) \<Rightarrow> measure_state \<Rightarrow> bytes \<times> nat \<times> bytes list" where
  "abs_state sha st =
     (page_chain sha (ld st) (pending st), page_count st + length (pending st), map snd (vmsa_pages st))"

lemma abs_flush: "abs_state sha (flush_batch sha st) = abs_state sha st"
  by (simp add: abs_state_def flush_batch_def foldl_pages)

definition absorb ::
  "(bytes \<Rightarrow> digest) \<Rightarrow> measured_page list \<Rightarrow> bytes list \<Rightarrow> bytes \<times> nat \<times> bytes list
     \<Rightarrow> bytes \<times> nat \<times> bytes list" where
  "absorb sha ps vs a =
     (case a of (d, n, ws) \<Rightarrow> (page_chain sha d (map (hash_page sha) ps), n + length ps, ws @ vs))"

lemma absorb_simps [simp]:
  "absorb sha [] [] a = a"
  "absorb sha ps vs (absorb sha ps' vs' a) = absorb sha (ps' @ ps) (vs' @ vs) a"
  by (simp_all add: absorb_def split: prod.splits)

lemma classify_page:
  "classify_page_data sha dt u data = (t, c, h) \<Longrightarrow> (gpa, t, c) = hash_page sha (data_page gpa u dt data)"
  by (auto simp: classify_page_data_def data_page_def hash_page_def split: page_data_type.splits if_splits)

lemma measure_page_data_abs:
  assumes "measure_page_data sha idx gpa u dt data st = Inr st'"
  shows "abs_state sha st' = absorb sha [data_page gpa u dt data] [] (abs_state sha st)"
proof -
  obtain t c h where cl: "classify_page_data sha dt u data = (t, c, h)" by (metis prod_cases3)
  obtain flush where *: "st' = (let st = (if flush \<and> pending st \<noteq> [] then flush_batch sha st else st) in
      st \<lparr> pending := pending st @ [(gpa, t, c)], prev_page := Some (gpa, t, h, idx) \<rparr>)"
    using assms by (auto simp: measure_page_data_def cl Let_def)
  define st1 where "st1 = (if flush \<and> pending st \<noteq> [] then flush_batch sha st else st)"
  have "abs_state sha st1 = abs_state sha st" by (simp add: st1_def abs_flush)
  moreover have "abs_state sha st' = absorb sha [data_page gpa u dt data] [] (abs_state sha st1)"
    unfolding * st1_def [symmetric]
    by (simp add: Let_def abs_state_def absorb_def classify_page [OF cl, symmetric])
  ultimately show ?thesis by simp
qed

lemma measure_insert_abs:
  assumes "measure_insert_pages sha gpa pgs st = Inr st'" and "pending st = []"
  shows "pending st' = [] \<and>
    abs_state sha st' = absorb sha (map (\<lambda>pg. (gpa + pg * 4096, SNP_PAGE_TYPE_UNMEASURED, None)) pgs) []
      (abs_state sha st) \<and> list_all (\<lambda>pg. gpa + pg * 4096 < u64_limit) pgs"
  using assms
proof (induction pgs arbitrary: st)
  case (Cons pg pgs)
  let ?p = "(gpa + pg * 4096, SNP_PAGE_TYPE_UNMEASURED, None)"
  define st1 where "st1 = st \<lparr> ld := update_page_info sha (ld st) (zeros 48) SNP_PAGE_TYPE_UNMEASURED
      (gpa + pg * 4096), page_count := page_count st + 1 \<rparr>"
  have step: "gpa + pg * 4096 < u64_limit" "measure_insert_pages sha gpa pgs st1 = Inr st'" "pending st1 = []"
    using Cons.prems by (auto simp: st1_def)
  have "abs_state sha st1 = absorb sha [?p] [] (abs_state sha st)"
    using Cons.prems(2)
    by (simp add: st1_def abs_state_def absorb_def update_page_info_chain hash_page_def)
  then show ?case using Cons.IH [OF step(2,3)] step(1) by simp
qed simp

lemma measure_directive_abs:
  assumes "measure_directive sha vmsa_bytes snp_mask areas idx d st = Inr st'"
    and "is_insert d \<Longrightarrow> pending st = []"
  shows "abs_state sha st' = absorb sha (directive_pages snp_mask areas d) (vmsa_contents vmsa_bytes snp_mask d)
      (abs_state sha st)"
    and "\<not> is_page d \<Longrightarrow> pending st = [] \<Longrightarrow> pending st' = []"
proof (atomize (full), cases d)
  case (PageData gpa cm u dt data)
  then show "abs_state sha st' = absorb sha (directive_pages snp_mask areas d)
      (vmsa_contents vmsa_bytes snp_mask d) (abs_state sha st)
    \<and> (\<not> is_page d \<longrightarrow> pending st = [] \<longrightarrow> pending st' = [])"
    using assms(1) measure_page_data_abs by (auto split: if_splits)
next
  case (ParameterInsert index gpa cm)
  then show "abs_state sha st' = absorb sha (directive_pages snp_mask areas d)
      (vmsa_contents vmsa_bytes snp_mask d) (abs_state sha st)
    \<and> (\<not> is_page d \<longrightarrow> pending st = [] \<longrightarrow> pending st' = [])"
    using assms measure_insert_abs [of sha gpa _ st st']
    by (auto simp: insert_pages_def split: if_splits)
qed (use assms(1) in \<open>auto simp: abs_state_def absorb_def split: if_splits\<close>)

lemma measure_loop_abs:
  assumes "measure_loop sha vmsa_bytes snp_mask areas idx ds st = Inr st'"
    and "inserts_first ds" and "list_ex is_insert ds \<Longrightarrow> pending st = []"
  shows "abs_state sha st' = absorb sha (pages_of snp_mask areas ds) (vmsas_of vmsa_bytes snp_mask ds)
    (abs_state sha st)"
  using assms
proof (induction ds arbitrary: idx st)
  case (Cons d ds)
  then obtain st1 where st1: "measure_directive sha vmsa_bytes snp_mask areas idx d st = Inr st1"
      "measure_loop sha vmsa_bytes snp_mask areas (idx + 1) ds st1 = Inr st'"
    by auto
  note step = measure_directive_abs [OF st1(1)]
  have "inserts_first ds"
    using Cons.prems(2) by (induction ds) (auto split: if_splits)
  moreover have "list_ex is_insert ds \<Longrightarrow> pending st1 = []"
    using Cons.prems step(2) by (auto split: if_splits)
  ultimately have "abs_state sha st' = absorb sha (pages_of snp_mask areas ds)
      (vmsas_of vmsa_bytes snp_mask ds) (abs_state sha st1)"
    by (rule Cons.IH [OF st1(2)])
  then show ?case
    using step(1) Cons.prems(3) by (simp add: pages_of_def vmsas_of_def)
qed (simp add: pages_of_def vmsas_of_def)

lemma foldl_vmsas:
  "foldl (\<lambda>d (_, p). update_page_info sha d (sha384 sha p) SNP_PAGE_TYPE_VMSA VMSA_GPA) d vs
    = page_chain sha d (map (hash_page sha) (map vmsa_measured (map snd vs)))"
  by (induction vs arbitrary: d) (auto simp: update_page_info_chain hash_page_def vmsa_measured_def)

lemma measure_snp_pages:
  assumes "measure_snp sha vmsa_bytes f = Inr r" and "inserts_first (file_directives f)"
  shows "\<exists>snp_mask. find_snp_compat f = Inr snp_mask
    \<and> launch_digest r = page_chain sha (zeros 48) (map (hash_page sha) (file_pages vmsa_bytes snp_mask f))
    \<and> result_pages r = length (file_pages vmsa_bytes snp_mask f)
    \<and> vmsa_count r = length (vmsas_of vmsa_bytes snp_mask (file_directives f)) mod 2 ^ 32"
proof -
  obtain snp_mask st where *: "find_snp_compat f = Inr snp_mask"
      "measure_loop sha vmsa_bytes snp_mask (collect_param_areas f) 0 (file_directives f) measure_init = Inr st"
      "(let st = (if pending st \<noteq> [] then flush_batch sha st else st); fin = measure_vmsa_pages sha st in
        Inr \<lparr> launch_digest = ld fin, result_pages = page_count fin,
          vmsa_count = length (vmsa_pages st) mod 2 ^ 32 \<rparr>) = (Inr r :: string fault + measure_result)"
    using assms(1) unfolding measure_snp_def and_then_eq_Inr by blast
  have loop: "abs_state sha st = absorb sha (pages_of snp_mask (collect_param_areas f) (file_directives f))
      (vmsas_of vmsa_bytes snp_mask (file_directives f)) (abs_state sha measure_init)"
    by (rule measure_loop_abs [OF *(2) assms(2)]) (simp add: measure_init_def)
  define st1 where "st1 = (if pending st \<noteq> [] then flush_batch sha st else st)"
  have st1: "abs_state sha st1 = abs_state sha st" "pending st1 = []"
    by (auto simp: st1_def abs_flush) (simp add: flush_batch_def)
  then have st1_eq: "ld st1 = page_chain sha (zeros 48)
        (map (hash_page sha) (pages_of snp_mask (collect_param_areas f) (file_directives f)))"
      "page_count st1 = length (pages_of snp_mask (collect_param_areas f) (file_directives f))"
      "map snd (vmsa_pages st1) = vmsas_of vmsa_bytes snp_mask (file_directives f)"
    using loop by (auto simp: abs_state_def absorb_def measure_init_def)
  have len: "length (vmsa_pages st1) = length (vmsas_of vmsa_bytes snp_mask (file_directives f))"
    using arg_cong [OF st1_eq(3), of length] by simp
  show ?thesis
    using *(1,3) st1_eq len
    unfolding st1_def [symmetric] Let_def
    by (auto simp: measure_vmsa_pages_def foldl_vmsas file_pages_def)
qed

text \<open>A break of the hash function exhibited by two measured images.\<close>

definition page_messages :: "(bytes \<Rightarrow> digest) \<Rightarrow> measured_page list \<Rightarrow> bytes list" where
  "page_messages sha ps =
     chain_messages page_message (sha384 sha) (zeros 48) (map (hash_page sha) ps)
     @ concat (map (\<lambda>(_, _, m). case m of None \<Rightarrow> [] | Some d \<Rightarrow> [d]) ps)"

definition launch_break :: "(bytes \<Rightarrow> digest) \<Rightarrow> measured_page list \<Rightarrow> measured_page list \<Rightarrow> bool" where
  "launch_break sha ps qs \<longleftrightarrow>
     (let all = page_messages sha ps @ page_messages sha qs in
      collision_in sha all \<or> preimage_in sha 0 all)"

definition page_ok :: "measured_page \<Rightarrow> bool" where
  "page_ok p \<longleftrightarrow> (case p of (gpa, t, m) \<Rightarrow> gpa < u64_limit
     \<and> (m = None \<and> t \<in> {SNP_PAGE_TYPE_UNMEASURED, SNP_PAGE_TYPE_SECRETS, SNP_PAGE_TYPE_CPUID}
       \<or> m \<noteq> None \<and> t \<in> {SNP_PAGE_TYPE_NORMAL, SNP_PAGE_TYPE_VMSA}))"

lemmas page_types = SNP_PAGE_TYPE_NORMAL_def SNP_PAGE_TYPE_VMSA_def SNP_PAGE_TYPE_UNMEASURED_def
  SNP_PAGE_TYPE_SECRETS_def SNP_PAGE_TYPE_CPUID_def

lemma hash_page_ok: "page_ok p \<Longrightarrow> page_event_ok (hash_page sha p)"
  by (auto simp: page_ok_def page_event_ok_def hash_page_def page_types split: option.splits)

lemma hash_page_eq:
  assumes "page_ok p" "page_ok q" "hash_page sha p = hash_page sha q" "p \<noteq> q"
  obtains d e where "snd (snd p) = Some d" "snd (snd q) = Some e" "d \<noteq> e" "sha d = sha e"
proof -
  obtain g t m g' t' m' where p: "p = (g, t, m)" "q = (g', t', m')" by (cases p, cases q)
  have "g = g'" "t = t'" using assms(3) by (simp_all add: p hash_page_def)
  moreover have "m = None \<longleftrightarrow> m' = None"
    using assms(1,2) \<open>t = t'\<close> by (auto simp: p page_ok_def page_types)
  ultimately obtain d e where "m = Some d" "m' = Some e" "d \<noteq> e"
    using assms(4) by (auto simp: p)
  moreover have "sha d = sha e" using assms(3) calculation by (simp add: p hash_page_def)
  ultimately show ?thesis using that by (simp add: p)
qed

lemma page_content_hashed:
  "p \<in> set ps \<Longrightarrow> snd (snd p) = Some x \<Longrightarrow> x \<in> set (page_messages sha ps)"
  by (cases p) (force simp: page_messages_def)

lemma page_lists_bind:
  assumes "list_all page_ok ps" "list_all page_ok qs"
    and "page_chain sha (zeros 48) (map (hash_page sha) ps) = page_chain sha (zeros 48) (map (hash_page sha) qs)"
  shows "ps = qs \<or> launch_break sha ps qs"
proof -
  let ?m = "\<lambda>ps. chain_messages page_message (sha384 sha) (zeros 48) (map (hash_page sha) ps)"
  have sub: "set (?m ps @ ?m qs) \<subseteq> set (page_messages sha ps @ page_messages sha qs)"
    by (auto simp: page_messages_def)
  have ok: "list_all page_event_ok (map (hash_page sha) ps)" "list_all page_event_ok (map (hash_page sha) qs)"
    using assms(1,2) by (auto simp: list_all_iff hash_page_ok)
  consider "map (hash_page sha) ps = map (hash_page sha) qs" | "collision_in (sha384 sha) (?m ps @ ?m qs)"
    | "preimage_in (sha384 sha) (zeros 48) (?m ps @ ?m qs)"
    using snp_chain.chain_binds [of "zeros 48", OF _ ok assms(3)] by auto
  then show ?thesis
  proof cases
    case 1
    show ?thesis
    proof (cases "ps = qs")
      case False
      have len: "length ps = length qs" using arg_cong [OF 1, of length] by simp
      then obtain i where i: "i < length ps" "ps ! i \<noteq> qs ! i"
        using False by (auto simp: list_eq_iff_nth_eq)
      have "hash_page sha (ps ! i) = hash_page sha (qs ! i)"
        using arg_cong [OF 1, of "\<lambda>xs. xs ! i"] i len by simp
      then obtain d e where de: "snd (snd (ps ! i)) = Some d" "snd (snd (qs ! i)) = Some e" "d \<noteq> e" "sha d = sha e"
        using hash_page_eq i len assms(1,2) by (metis list_all_length)
      have "ps ! i \<in> set ps" "qs ! i \<in> set qs" using i len by simp_all
      from page_content_hashed [OF this(1) de(1), of sha] page_content_hashed [OF this(2) de(2), of sha]
      have "collision_in sha (page_messages sha ps @ page_messages sha qs)"
        using de unfolding collision_in_def by (intro exI [of _ d] exI [of _ e]) simp
      then show ?thesis by (simp add: launch_break_def)
    qed simp
  next
    case 2
    then show ?thesis
      using collision_in_mono [OF _ sub, of sha] by (simp add: collision_sha384 launch_break_def)
  next
    case 3
    then have "preimage_in sha 0 (?m ps @ ?m qs)"
      by (simp add: preimage_in_def sha384_def digest_bytes_0 [symmetric] del: digest_bytes_0)
    then show ?thesis using preimage_in_mono [OF _ sub, of sha 0] by (simp add: launch_break_def)
  qed
qed

text \<open>Addresses of page data are 64-bit fields of the file.\<close>

fun gpa_fits :: "directive \<Rightarrow> bool" where
  "gpa_fits (PageData gpa _ _ _ _) \<longleftrightarrow> gpa < u64_limit"
| "gpa_fits _ \<longleftrightarrow> True"

lemma insert_pages_fit:
  assumes "measure_insert_pages sha gpa pgs st = Inr st'"
  shows "list_all (\<lambda>pg. gpa + pg * 4096 < u64_limit) pgs"
  using assms by (induction pgs arbitrary: st) auto

lemma directive_pages_ok:
  assumes "measure_directive sha vmsa_bytes snp_mask areas idx d st = Inr st'" and "gpa_fits d"
  shows "list_all page_ok (directive_pages snp_mask areas d)"
proof (cases d)
  case (ParameterInsert index gpa cm)
  then show ?thesis
    using assms(1) insert_pages_fit [of sha gpa _ st st']
    by (auto simp: insert_pages_def list_all_iff page_ok_def split: if_splits)
qed (use assms(2) in \<open>auto simp: data_page_def page_ok_def split: page_data_type.splits\<close>)

lemma pages_of_ok:
  "measure_loop sha vmsa_bytes snp_mask areas idx ds st = Inr st' \<Longrightarrow> list_all gpa_fits ds \<Longrightarrow>
    list_all page_ok (pages_of snp_mask areas ds)"
  by (induction ds arbitrary: idx st) (auto simp: pages_of_def dest: directive_pages_ok)

lemma file_pages_ok:
  assumes "measure_snp sha vmsa_bytes f = Inr r" and "find_snp_compat f = Inr snp_mask"
    and "list_all gpa_fits (file_directives f)"
  shows "list_all page_ok (file_pages vmsa_bytes snp_mask f)"
proof -
  have "list_all page_ok (pages_of snp_mask (collect_param_areas f) (file_directives f))"
    using assms pages_of_ok by (fastforce simp: measure_snp_def)
  moreover have "list_all page_ok (map vmsa_measured vs)" for vs
    by (auto simp: list_all_iff vmsa_measured_def page_ok_def VMSA_GPA_def u64_limit_def)
  ultimately show ?thesis by (simp add: file_pages_def)
qed

section \<open>Properties\<close>


text \<open>
  The launch digest commits to the image: two files with the same digest measure the same pages, that is the same
  addresses, page types, page contents and VMSA pages in the same order, or they expose a collision or a
  preimage of zero of the hash function.
\<close>

theorem launch_digest_binds_pages:
  assumes "measure_snp sha vmsa_bytes f = Inr r" and "measure_snp sha vmsa_bytes g = Inr r'"
    and "launch_digest r = launch_digest r'"
    and "find_snp_compat f = Inr mf" "find_snp_compat g = Inr mg"
    and "inserts_first (file_directives f)" "inserts_first (file_directives g)"
    and "list_all gpa_fits (file_directives f)" "list_all gpa_fits (file_directives g)"
  shows "file_pages vmsa_bytes mf f = file_pages vmsa_bytes mg g
    \<or> launch_break sha (file_pages vmsa_bytes mf f) (file_pages vmsa_bytes mg g)"
  by (rule page_lists_bind)
    (use assms measure_snp_pages [OF assms(1,6)] measure_snp_pages [OF assms(2,7)] in
      \<open>auto intro: file_pages_ok\<close>)

section \<open>Witnesses\<close>

definition sample_vmsa :: sev_vmsa where
  "sample_vmsa = vmsa_reset \<lparr> feat_snp = True, feat_debug_swap = False \<rparr>"

definition sample_igvm :: "byte \<Rightarrow> igvm_file" where
  "sample_igvm b =
     \<lparr> file_revision = igvm_revision,
       file_platforms = [\<lparr> compat_mask = 2, highest_vtl = 2, platform_kind = PlatformSevSnp,
         platform_version = 1, shared_gpa_boundary = 0 \<rparr>],
       file_inits = [],
       file_directives = [SnpVpContext 0xFFFFFFFFF000 2 0 sample_vmsa, ParameterArea 0 4096 [],
         ParameterInsert 0 0x1000 2, PageData 0x2000 2 False PageNormal [b],
         PageData 0x3000 1 False PageNormal [b]] \<rparr>"

lemma sample_igvm_measured:
  "\<exists>r. measure_snp sha vb (sample_igvm b) = Inr r
    \<and> launch_digest r = page_chain sha (zeros 48) (map (hash_page sha) (file_pages vb 2 (sample_igvm b)))"
  "find_snp_compat (sample_igvm b) = Inr 2" "inserts_first (file_directives (sample_igvm b))"
  "list_all gpa_fits (file_directives (sample_igvm b))"
  "file_pages vb 2 (sample_igvm b) = [(0x1000, 4, None), (0x2000, 1, Some (padded_page [b])),
     (VMSA_GPA, 2, Some (vmsa_page vb sample_vmsa))]"
proof -
  show f: "find_snp_compat (sample_igvm b) = Inr 2"
    by (simp add: find_snp_compat_def sample_igvm_def)
  show i: "inserts_first (file_directives (sample_igvm b))"
    "list_all gpa_fits (file_directives (sample_igvm b))"
    by (simp_all add: sample_igvm_def u64_limit_def)
  show "file_pages vb 2 (sample_igvm b) = [(0x1000, 4, None), (0x2000, 1, Some (padded_page [b])),
     (VMSA_GPA, 2, Some (vmsa_page vb sample_vmsa))]"
    by (simp add: file_pages_def pages_of_def vmsas_of_def sample_igvm_def collect_param_areas_def
        insert_pages_def div_ceil_def data_page_def vmsa_measured_def page_types)
  have "\<exists>r. measure_snp sha vb (sample_igvm b) = Inr r"
    by (simp add: measure_snp_def f del: and_then_eq_Inr)
      (simp add: sample_igvm_def collect_param_areas_def div_ceil_def add_u64_def checked_add_def
        measure_page_data_def classify_page_data_def should_flush_def measure_init_def Let_def
        u64_limit_def del: and_then_eq_Inr)
  then show "\<exists>r. measure_snp sha vb (sample_igvm b) = Inr r
    \<and> launch_digest r = page_chain sha (zeros 48) (map (hash_page sha) (file_pages vb 2 (sample_igvm b)))"
    using measure_snp_pages [OF _ i(1)] f by fastforce
qed

text \<open>A hash function without any security: every digest is zero.\<close>

lemma page_chain_zero: "page_chain (\<lambda>_. 0) (zeros 48) es = zeros 48"
  by (induction es rule: rev_induct) (simp_all add: sha384_def)


lemma launch_digest_binds_pages_witness:
  "launch_break (\<lambda>_. 0) (file_pages (\<lambda>_. []) 2 (sample_igvm 7)) (file_pages (\<lambda>_. []) 2 (sample_igvm 8))"
proof -
  let ?sha = "(\<lambda>_. 0) :: bytes \<Rightarrow> digest" and ?vb = "(\<lambda>_. []) :: sev_vmsa \<Rightarrow> bytes"
  note const = page_chain_zero
  obtain r where r: "measure_snp ?sha ?vb (sample_igvm 7) = Inr r" "launch_digest r = zeros 48"
    using sample_igvm_measured(1) [of ?sha ?vb 7] const by auto
  obtain r' where r': "measure_snp ?sha ?vb (sample_igvm 8) = Inr r'" "launch_digest r' = zeros 48"
    using sample_igvm_measured(1) [of ?sha ?vb 8] const by auto
  have "padded_page [7] \<noteq> padded_page [8]" by (simp add: padded_page_def)
  then show ?thesis
    using launch_digest_binds_pages [OF r(1) r'(1) _ sample_igvm_measured(2) sample_igvm_measured(2)
        sample_igvm_measured(3) sample_igvm_measured(3) sample_igvm_measured(4) sample_igvm_measured(4)] r r'
    by (simp add: sample_igvm_measured(5))
qed

end
