(* ===== verification/IgvmBuild.thy ===== *)
theory IgvmBuild
  imports SnpMeasure "HOL-Library.Multiset"
begin

text \<open>
  \<open>crates/igvm-tools/src/build.rs\<close> and \<open>main.rs\<close>: building an IGVM image from firmware, kernel and
  certificates, and the two commands of the tool.  \<open>validate\<close>, \<open>serialize\<close>, \<open>parse_igvm\<close> and the VMSA layout
  belong to the \<open>igvm\<close> crate, \<open>ukify\<close> is an external program, files are a parameter.
\<close>

section \<open>Configuration\<close>

datatype platform = Snp | Native | SnpNative

datatype vcpu_boot = Real16 | Flat32

record build_config =
  cfg_firmware :: bytes
  cfg_vars :: "bytes option"
  cfg_kernel :: "bytes option"
  cfg_shim :: "bytes option"
  cfg_pk :: "bytes option"
  cfg_kek :: "bytes option"
  cfg_db :: "bytes option"
  cfg_dbx :: "bytes option"
  cfg_platform :: platform
  cfg_boot :: vcpu_boot
  cfg_smp :: nat

record build_result =
  igvm_bytes :: bytes
  result_measurement :: measure_result

section \<open>Data blobs\<close>

definition has_data :: "build_config \<Rightarrow> bool" where
  "has_data c \<longleftrightarrow> cfg_kernel c \<noteq> None \<or> cfg_shim c \<noteq> None \<or> cfg_pk c \<noteq> None \<or> cfg_kek c \<noteq> None
     \<or> cfg_db c \<noteq> None \<or> cfg_dbx c \<noteq> None"

definition opt_blob :: "bytes option \<Rightarrow> igvm_data_type \<Rightarrow> bool \<Rightarrow> data_list \<Rightarrow> data_list" where
  "opt_blob blob t measured l = (case blob of None \<Rightarrow> l | Some b \<Rightarrow> data_list_add l b t measured)"

definition config_blobs :: "build_config \<Rightarrow> data_list" where
  "config_blobs c =
     opt_blob (cfg_kernel c) KernelData True
      (opt_blob (cfg_shim c) Shim False
      (opt_blob (cfg_dbx c) Dbx True
      (opt_blob (cfg_db c) Db True
      (opt_blob (cfg_kek c) Kek True
      (opt_blob (cfg_pk c) Pk True (data_list_new 0x20000000))))))"

definition place_blob :: "bool \<Rightarrow> builder \<Rightarrow> nat \<times> bytes \<Rightarrow> builder" where
  "place_blob unmeasured b x =
     add_data_pages_flags (remove_page_data_in_range b (fst x) (length (snd x))) (fst x) (snd x) unmeasured"

definition add_hob_data ::
  "builder \<Rightarrow> ovmf_meta option \<Rightarrow> build_config \<Rightarrow> string fault + builder" where
  "add_hob_data b meta c =
     (if \<not> has_data c then Inr b
      else
        and_then (ok_or (Err ''OVMF firmware has no IgvmHobArea region (needed for kernel/shim/cert injection)'')
          (Option.bind meta (\<lambda>m. find (\<lambda>r. etype r = IgvmHobArea) (regions m)))) (\<lambda>hobarea.
        let l = config_blobs c;
            b1 = add_data_pages (remove_page_data_in_range b (r_base hobarea) (r_size hobarea))
              (r_base hobarea) (hobs l);
            b2 = foldl (place_blob False) b1 (blobs l True) in
        Inr (foldl (place_blob True) b2 (blobs l False))))"

section \<open>Building\<close>

definition use_snp :: "build_config \<Rightarrow> bool" where
  "use_snp c \<longleftrightarrow> cfg_platform c = Snp \<or> cfg_platform c = SnpNative"

definition use_native :: "build_config \<Rightarrow> bool" where
  "use_native c \<longleftrightarrow> cfg_platform c = Native \<or> cfg_platform c = SnpNative"

definition add_native_part :: "build_config \<Rightarrow> builder \<Rightarrow> string fault + builder" where
  "add_native_part c b =
     (if use_native c then
        let b = add_native_platform b in
        if cfg_boot c = Flat32 then add_native_context b (flat32_mode_regs None) else Inr b
      else Inr b)"

fun add_aps :: "x86_register list \<Rightarrow> nat list \<Rightarrow> builder \<Rightarrow> string fault + builder" where
  "add_aps regs [] b = Inr b"
| "add_aps regs (vp # vps) b =
     (if vp < 2 ^ 16 then and_then (add_snp_vmsa_context b regs False vp) (add_aps regs vps)
      else bail ''vCPU index exceeds u16 range'')"

definition add_snp_part ::
  "build_config \<Rightarrow> ovmf_meta option \<Rightarrow> builder \<Rightarrow> string fault + builder" where
  "add_snp_part c meta b =
     (if use_snp c then
        and_then (add_snp_vmsa_context (add_snp_platform b)
            (case cfg_boot c of Flat32 \<Rightarrow> flat32_mode_regs None | Real16 \<Rightarrow> real_mode_regs_at 0xFFFFFFF0)
            False 0) (\<lambda>b.
        and_then (if 1 < cfg_smp c then
            and_then (ok_or (Err ''OVMF firmware does not contain SEV-ES reset address (needed for --smp > 1)'')
              (Option.bind meta sev_reset_addr)) (\<lambda>ap_reset_addr.
            add_aps (real_mode_regs_at (of_nat ap_reset_addr)) [1..<cfg_smp c] b)
          else Inr b) (\<lambda>b.
        Inr (add_snp_policy (case meta of None \<Rightarrow> b | Some m \<Rightarrow> add_ovmf_snp_pages b m) None)))
      else Inr b)"

definition add_firmware_part ::
  "build_config \<Rightarrow> ovmf_meta option \<Rightarrow> builder \<Rightarrow> string fault + builder" where
  "add_firmware_part c meta b =
     (let b = (case meta of None \<Rightarrow> b | Some m \<Rightarrow> add_ovmf_igvm_params b m);
          b = (if cfg_boot c = Real16 then add_firmware_1m b (cfg_firmware c) else b) in
      and_then (add_firmware_4g b (cfg_firmware c)) (\<lambda>b.
      case cfg_vars c of
        None \<Rightarrow> Inr b
      | Some vars \<Rightarrow> add_uefivars b vars (length (cfg_firmware c))))"

definition build_file ::
  "(igvm_file \<Rightarrow> string option) \<Rightarrow> build_config \<Rightarrow> string fault + igvm_file" where
  "build_file validate c =
     (let meta = ovmf_meta_new (cfg_firmware c) in
      and_then (add_native_part c builder_new) (\<lambda>b.
      and_then (add_snp_part c meta b) (\<lambda>b.
      and_then (add_firmware_part c meta b) (\<lambda>b.
      and_then (add_hob_data b meta c) (\<lambda>b.
      map_err (\<lambda>e. ''finalize igvm: '' @ e) (finalize validate b))))))"

definition build_igvm ::
  "(bytes \<Rightarrow> digest) \<Rightarrow> (sev_vmsa \<Rightarrow> bytes) \<Rightarrow> (igvm_file \<Rightarrow> string option) \<Rightarrow> (igvm_file \<Rightarrow> string + bytes)
     \<Rightarrow> build_config \<Rightarrow> string fault + build_result" where
  "build_igvm sha vmsa_bytes validate serialize c =
     and_then (build_file validate c) (\<lambda>igvm.
     and_then (measure_snp sha vmsa_bytes igvm) (\<lambda>measurement.
     case serialize igvm of
       Inl e \<Rightarrow> bail (''serialize igvm: '' @ e)
     | Inr bs \<Rightarrow> Inr \<lparr> igvm_bytes = bs, result_measurement = measurement \<rparr>))"

section \<open>What building keeps\<close>

fun is_vp :: "directive \<Rightarrow> bool" where
  "is_vp (SnpVpContext _ _ _ _) = True"
| "is_vp _ = False"

text \<open>Page data lies above address zero and inside the 64-bit range.\<close>

definition page_range :: "directive \<Rightarrow> bool" where
  "page_range d \<longleftrightarrow> (is_page d \<longrightarrow> 0 < sort_gpa d \<and> sort_gpa d + 4096 < u64_limit)"

lemma page_range_simps [simp]:
  "page_range (PageData gpa cm u t d) \<longleftrightarrow> 0 < gpa \<and> gpa + 4096 < u64_limit"
  "page_range (X64NativeVpContext cm i ctx)" "page_range (SnpVpContext g cm i v)"
  "page_range (ParameterArea i n d)" "page_range (MemoryMap i n)" "page_range (VpCount i n)"
  "page_range (ParameterInsert i n cm)"
  by (simp_all add: page_range_def sort_gpa_def)

text \<open>A step that only adds or removes data: platforms, masks and processors stay.\<close>

definition data_step :: "builder \<Rightarrow> builder \<Rightarrow> bool" where
  "data_step b b' \<longleftrightarrow> b_platforms b' = b_platforms b \<and> compat_all b' = compat_all b
     \<and> filter is_vp (b_directives b') = filter is_vp (b_directives b)
     \<and> (list_all page_range (b_directives b) \<longrightarrow> list_all page_range (b_directives b'))"

lemma data_step_refl [simp, intro]: "data_step b b"
  by (simp add: data_step_def)

lemma data_step_trans: "data_step a b \<Longrightarrow> data_step b c \<Longrightarrow> data_step a c"
  by (simp add: data_step_def)

lemma data_step_push:
  "list_all (\<lambda>d. \<not> is_vp d \<and> page_range d) ds \<Longrightarrow> data_step b (push_directives b ds)"
  by (auto simp: data_step_def push_directives_def list_all_iff filter_empty_conv)

lemma data_step_foldl:
  "(\<And>b x. x \<in> set xs \<Longrightarrow> data_step b (f b x)) \<Longrightarrow> data_step b (foldl f b xs)"
proof (induction xs arbitrary: b)
  case (Cons x xs)
  have "data_step b (f b x)" by (rule Cons.prems) simp
  moreover have "data_step (f b x) (foldl f (f b x) xs)" by (rule Cons.IH) (use Cons.prems in simp)
  ultimately show ?case by (auto intro: data_step_trans)
qed simp

lemma div_ceil_bound: "pg < div_ceil n 4096 \<Longrightarrow> pg * 4096 < n"
proof -
  assume "pg < div_ceil n 4096"
  then have "Suc pg * 4096 \<le> (n + 4096 - 1) div 4096 * 4096"
    unfolding div_ceil_def by (intro mult_le_mono1) simp
  also have "\<dots> \<le> n + 4096 - 1" by (rule div_times_less_eq_dividend)
  finally show ?thesis by simp
qed

lemma add_data_step:
  "0 < base \<Longrightarrow> base + length data + 4096 \<le> u64_limit \<Longrightarrow> data_step b (add_data_pages_flags b base data u)"
  unfolding add_data_pages_flags_def
  by (rule data_step_push)
    (auto simp: list_all_iff Let_def PAGE_SIZE_4K_def dest!: div_ceil_bound)

lemma remove_step: "data_step b (remove_page_data_in_range b base n)"
proof -
  have "filter is_vp (filter (\<lambda>d. \<not> page_in_range base n d) ds) = filter is_vp ds" for ds
    by (induction ds) (auto simp: page_in_range_def split: directive.splits)
  then show ?thesis
    by (auto simp: data_step_def remove_page_data_in_range_def list_all_iff)
qed

definition regions_small :: "ovmf_meta \<Rightarrow> bool" where
  "regions_small m \<longleftrightarrow> list_all (\<lambda>r. r_base r < 2 ^ 32 \<and> r_size r < 2 ^ 32) (regions m)"

definition regions_above_zero :: "ovmf_meta \<Rightarrow> bool" where
  "regions_above_zero m \<longleftrightarrow> list_all (\<lambda>r. 0 < r_base r) (regions m)"

lemma read_entries_small:
  "list_all (\<lambda>r. r_base r < 2 ^ 32 \<and> r_size r < 2 ^ 32) (read_entries kind n items)"
proof (induction kind n items rule: read_entries.induct)
  case (2 kind n items)
  have "r_base (entry_region kind items) < 2 ^ 32" "r_size (entry_region kind items) < 2 ^ 32"
    using u32_at_less by (simp_all add: entry_region_def del: numeral_power_eq_of_nat_cancel_iff)
  then show ?case using 2 by (simp add: Let_def)
qed simp

lemma parse_blk_small: "regions_small m \<Longrightarrow> regions_small (parse_blk m g blk)"
  using read_entries_small
  by (auto simp: regions_small_def parse_blk_def table_regions_def Let_def)

lemma walk_blocks_small: "regions_small m \<Longrightarrow> regions_small (walk_blocks m d)"
proof (induction m d rule: walk_blocks.induct)
  case (1 m m1)
  show ?case
  proof (cases "meta_blk m1")
    case None
    then show ?thesis using 1 by (subst walk_blocks.simps) simp
  next
    case (Some x)
    obtain g blk other where x: "x = (g, blk, other)" by (metis prod_cases3)
    show ?thesis
      using Some x 1 parse_blk_small by (subst walk_blocks.simps) auto
  qed
qed

lemma ovmf_regions_small:
  assumes "ovmf_meta_new firmware = Some m"
  shows "regions_small m"
proof -
  let ?m = "\<lparr> meta_firmware = firmware, regions = [], sev_reset_addr = None \<rparr>"
  have empty: "regions_small ?m" by (simp add: regions_small_def)
  have "m = ?m \<or> (\<exists>d. m = walk_blocks ?m d)"
    using assms by (auto simp: ovmf_meta_new_def Let_def split: if_splits option.splits)
  then show ?thesis using empty walk_blocks_small by blast
qed

lemma add_ovmf_snp_pages_step:
  assumes "regions_small m" "regions_above_zero m"
  shows "data_step b (add_ovmf_snp_pages b m)"
  unfolding add_ovmf_snp_pages_def
proof (rule data_step_foldl)
  fix b r assume "r \<in> set (regions m)"
  then have r: "0 < r_base r" "r_base r < 2 ^ 32" "r_size r < 2 ^ 32"
    using assms by (auto simp: regions_small_def regions_above_zero_def list_all_iff)
  have page: "data_step b (add_region_page ps t b gpa)" if "0 < gpa" "gpa + 4096 < u64_limit" for b ps t gpa
    using that by (auto simp: add_region_page_def add_empty_pages_def div_ceil_def PAGE_SIZE_4K_def
        intro!: data_step_push)
  have "data_step b (foldl (add_region_page ps t) b
      (map (\<lambda>pg. r_base r + pg * PAGE_SIZE_4K) [0..<div_ceil (r_size r) PAGE_SIZE_4K]))" for ps t
  proof (rule data_step_foldl)
    fix b gpa
    assume "gpa \<in> set (map (\<lambda>pg. r_base r + pg * PAGE_SIZE_4K) [0..<div_ceil (r_size r) PAGE_SIZE_4K])"
    then have "gpa < 2 ^ 32 + 2 ^ 32" "0 < gpa"
      using r by (auto simp: PAGE_SIZE_4K_def dest!: div_ceil_bound)
    then show "data_step b (add_region_page ps t b gpa)" by (intro page) (simp_all add: u64_limit_def)
  qed
  then show "data_step b (add_region_pages (param_gpas m) b r)"
    by (auto simp: add_region_pages_def split: option.splits)
qed

lemma add_ovmf_igvm_params_step: "data_step b (add_ovmf_igvm_params b m)"
proof -
  have "data_step b (add_region_param b r)" for b r
    by (auto simp: add_region_param_def add_igvm_param_memmap_def add_igvm_param_vpcount_def
        add_igvm_param_def split: region_type.splits intro!: data_step_push)
  then have params: "data_step b (foldl add_region_param b rs)" for b rs
    by (rule data_step_foldl)
  have area: "data_step b (add_igvm_param_area b i n)" for b i n
    by (auto simp: add_igvm_param_area_def intro!: data_step_push)
  have insert: "data_step b (add_igvm_param_insert b i n)" for b i n
    by (auto simp: add_igvm_param_insert_def intro!: data_step_push)
  show ?thesis
    unfolding add_ovmf_igvm_params_def
    by (auto split: option.splits intro: data_step_trans [OF area data_step_trans [OF params insert]])
qed

text \<open>The two mappings of the firmware and the variable store, below four gigabytes.\<close>

definition config_fits :: "build_config \<Rightarrow> bool" where
  "config_fits c \<longleftrightarrow>
     length (cfg_firmware c) + (case cfg_vars c of None \<Rightarrow> 0 | Some v \<Rightarrow> length v) < 2 ^ 32
     \<and> (let l = config_blobs c in list_base l + 4096 \<le> u64_limit \<and> length (hobs l) < 2 ^ 32)"

lemma add_firmware_part_step:
  assumes "add_firmware_part c meta b = Inr b'" and "config_fits c"
  shows "data_step b b'"
proof -
  define b1 where "b1 = (case meta of None \<Rightarrow> b | Some m \<Rightarrow> add_ovmf_igvm_params b m)"
  define b2 where "b2 = (if cfg_boot c = Real16 then add_firmware_1m b1 (cfg_firmware c) else b1)"
  have 1: "data_step b b1"
    by (auto simp: b1_def add_ovmf_igvm_params_step split: option.splits)
  have 2: "data_step b1 b2"
    by (auto simp: b2_def add_firmware_1m_def Let_def add_data_pages_def u64_limit_def
        intro!: add_data_step)
  obtain b3 where 3: "add_firmware_4g b2 (cfg_firmware c) = Inr b3"
      "(case cfg_vars c of None \<Rightarrow> Inr b3
        | Some vars \<Rightarrow> add_uefivars b3 vars (length (cfg_firmware c))) = Inr b'"
    using assms(1) unfolding add_firmware_part_def Let_def and_then_eq_Inr b1_def [symmetric]
      b2_def [symmetric] by blast
  have "data_step b2 b3"
    using 3(1) assms(2)
    by (auto simp: add_firmware_4g_def add_data_pages_def u64_limit_def config_fits_def intro!: add_data_step)
  moreover have "data_step b3 b'"
    using 3(2) assms(2)
    by (auto simp: add_uefivars_def add_data_pages_def u64_limit_def config_fits_def Let_def
        split: option.splits intro!: add_data_step)
  ultimately show ?thesis using 1 2 data_step_trans by blast
qed

lemma opt_blob_add:
  assumes "\<exists>xs. l = add_all l0 xs"
  shows "\<exists>xs. opt_blob x t m l = add_all l0 xs"
proof (cases x)
  case None
  then show ?thesis using assms by (simp add: opt_blob_def)
next
  case (Some b)
  from assms obtain xs where "l = add_all l0 xs" ..
  then have "opt_blob x t m l = add_all l0 (xs @ [(b, t, m)])"
    using Some by (simp add: opt_blob_def add_all_def)
  then show ?thesis ..
qed

lemma config_blobs_add_all: "\<exists>xs. config_blobs c = add_all (data_list_new 0x20000000) xs"
proof -
  have "\<exists>xs. data_list_new 0x20000000 = add_all (data_list_new 0x20000000) xs"
    by (intro exI [of _ "[]"]) (simp add: add_all_def)
  then show ?thesis unfolding config_blobs_def by (intro opt_blob_add)
qed

lemma blob_range:
  assumes "config_fits c" and "(addr, blob) \<in> set (blobs (config_blobs c) m)"
  shows "0 < addr" "addr + length blob + 4096 \<le> u64_limit"
proof -
  obtain xs where xs: "config_blobs c = add_all (data_list_new 0x20000000) xs"
    using config_blobs_add_all by blast
  have c: "contiguous 0x20000000 (list_data (config_blobs c)) (list_base (config_blobs c))"
    unfolding xs by (rule add_all_contiguous) (simp add: data_list_new_def)
  obtain d where d: "d \<in> set (list_data (config_blobs c))" "addr = entry_addr d" "blob = entry_blob d"
    using assms(2) by (auto simp: blobs_def)
  have "0x20000000 \<le> entry_addr d" "entry_end d \<le> list_base (config_blobs c)"
    using contiguous_aligned [OF c _ d(1)] by auto
  then show "0 < addr" "addr + length blob + 4096 \<le> u64_limit"
    using d assms(1) next_multiple_of(2) [of 4096 "length blob"]
    by (auto simp: entry_end_def config_fits_def Let_def)
qed

lemma add_hob_data_step:
  assumes "add_hob_data b meta c = Inr b'" and "config_fits c"
    and "\<And>m. meta = Some m \<Longrightarrow> regions_small m \<and> regions_above_zero m"
  shows "data_step b b'"
proof (cases "has_data c")
  case True
  obtain m area where area: "meta = Some m" "find (\<lambda>r. etype r = IgvmHobArea) (regions m) = Some area"
    using assms(1) True by (auto simp: add_hob_data_def bind_eq_Some_conv)
  let ?l = "config_blobs c"
  define b1 where "b1 = add_data_pages (remove_page_data_in_range b (r_base area) (r_size area))
      (r_base area) (hobs ?l)"
  have b': "b' = foldl (place_blob True) (foldl (place_blob False) b1 (blobs ?l True)) (blobs ?l False)"
    using assms(1) True area by (simp add: add_hob_data_def Let_def b1_def)
  have "area \<in> set (regions m)" using area(2) by (metis find_Some_iff nth_mem)
  then have r: "0 < r_base area" "r_base area < 2 ^ 32"
    using assms(3) area(1) by (auto simp: regions_small_def regions_above_zero_def list_all_iff)
  have "length (hobs ?l) < 2 ^ 32" using assms(2) by (simp add: config_fits_def Let_def)
  then have 1: "data_step b b1"
    unfolding b1_def add_data_pages_def using r
    by (intro data_step_trans [OF remove_step add_data_step]) (simp_all add: u64_limit_def)
  have "data_step b (place_blob u b x)" if "x \<in> set (blobs ?l m)" for b u x m
    using that blob_range [OF assms(2), of "fst x" "snd x"] unfolding place_blob_def
    by (intro data_step_trans [OF remove_step add_data_step]) auto
  then have "data_step b1 b'"
    unfolding b' by (intro data_step_trans [OF data_step_foldl data_step_foldl]) auto
  with 1 show ?thesis by (rule data_step_trans)
qed (use assms(1) in \<open>simp add: add_hob_data_def\<close>)

lemma find_snoc: "find P xs = None \<Longrightarrow> find P (xs @ [x]) = (if P x then Some x else None)"
  by (induction xs) (auto split: if_splits)

lemma masks: "SEV_SNP_COMPAT = 2" "NATIVE_COMPAT = 1"
  by (simp_all add: SEV_SNP_COMPAT_def NATIVE_COMPAT_def push_bit_eq_mult)

lemma add_native_part_facts:
  assumes "add_native_part c builder_new = Inr b"
  shows "find (\<lambda>p. platform_kind p = PlatformSevSnp) (b_platforms b) = None"
    and "filter is_vp (b_directives b) = []" and "list_all page_range (b_directives b)"
  using assms
  by (auto simp: add_native_part_def add_native_platform_def add_platform_def builder_new_def
      add_native_context_def push_directives_def Let_def split: if_splits)

lemma add_aps_facts:
  assumes "add_aps regs vps b = Inr b'"
  shows "b_platforms b' = b_platforms b \<and> compat_all b' = compat_all b
    \<and> length (filter is_vp (b_directives b')) = length (filter is_vp (b_directives b)) + length vps
    \<and> vmsas_of vb SEV_SNP_COMPAT (b_directives b')
      = vmsas_of vb SEV_SNP_COMPAT (b_directives b) @ replicate (length vps) (vmsa_page vb (projr (vmsa_context regs
          \<lparr> feat_snp = True, feat_debug_swap = False \<rparr>)))
    \<and> (list_all page_range (b_directives b) \<longrightarrow> list_all page_range (b_directives b'))
    \<and> list_all (\<lambda>vp. vp < 2 ^ 16) vps"
  using assms
proof (induction vps arbitrary: b)
  case (Cons vp vps)
  obtain v where v: "vmsa_context regs \<lparr> feat_snp = True, feat_debug_swap = False \<rparr> = Inr v"
    using Cons.prems by (auto simp: add_snp_vmsa_context_def split: if_splits)
  define b1 where "b1 = push_directives b [SnpVpContext 0xFFFFFFFFF000 SEV_SNP_COMPAT vp v]"
  have b1: "add_aps regs vps b1 = Inr b'" "vp < 2 ^ 16"
    using Cons.prems v by (auto simp: add_snp_vmsa_context_def b1_def split: if_splits)
  have step: "b_platforms b1 = b_platforms b" "compat_all b1 = compat_all b"
    "length (filter is_vp (b_directives b1)) = length (filter is_vp (b_directives b)) + 1"
    "vmsas_of vb SEV_SNP_COMPAT (b_directives b1) = vmsas_of vb SEV_SNP_COMPAT (b_directives b) @ [vmsa_page vb v]"
    "list_all page_range (b_directives b1) = list_all page_range (b_directives b)"
    by (simp_all add: b1_def push_directives_def vmsas_of_def masks)
  show ?case
    using Cons.IH [OF b1(1)] b1(2) by (simp add: step v)
qed simp

lemma vmsas_of_data_step:
  assumes "filter is_vp ds = filter is_vp es"
  shows "vmsas_of vb m ds = vmsas_of vb m es"
proof -
  have f: "vmsas_of vb m xs = vmsas_of vb m (filter is_vp xs)" for xs
  proof (induction xs)
    case (Cons x xs)
    then show ?case by (cases x) (simp_all add: vmsas_of_def)
  qed simp
  show ?thesis using assms f [of ds] f [of es] by simp
qed

text \<open>The processors of an SNP build: the boot processor and one context per further processor.\<close>

lemma add_snp_part_facts:
  assumes "add_snp_part c meta b = Inr b'" and "use_snp c"
    and "filter is_vp (b_directives b) = []" "list_all page_range (b_directives b)"
    and "\<And>m. meta = Some m \<Longrightarrow> regions_small m \<and> regions_above_zero m"
  shows "b_platforms b' = b_platforms (add_snp_platform b)" "compat_all b' = compat_all b OR SEV_SNP_COMPAT"
    "length (vmsas_of vb SEV_SNP_COMPAT (b_directives b')) = max 1 (cfg_smp c)" "cfg_smp c \<le> 2 ^ 16"
    "list_all page_range (b_directives b')"
proof -
  let ?regs = "case cfg_boot c of Flat32 \<Rightarrow> flat32_mode_regs None | Real16 \<Rightarrow> real_mode_regs_at 0xFFFFFFF0"
  obtain b1 b2 where 1: "add_snp_vmsa_context (add_snp_platform b) ?regs False 0 = Inr b1"
    and 2: "(if 1 < cfg_smp c then
        and_then (ok_or (Err ''OVMF firmware does not contain SEV-ES reset address (needed for --smp > 1)'')
          (Option.bind meta sev_reset_addr)) (\<lambda>ap_reset_addr.
        add_aps (real_mode_regs_at (of_nat ap_reset_addr)) [1..<cfg_smp c] b1)
      else Inr b1) = Inr b2"
    and 3: "b' = add_snp_policy (case meta of None \<Rightarrow> b2 | Some m \<Rightarrow> add_ovmf_snp_pages b2 m) None"
    using assms(1,2) unfolding add_snp_part_def by auto
  have none: "vmsas_of vb SEV_SNP_COMPAT (b_directives b) = []"
    using vmsas_of_data_step [of "b_directives b" "[]" vb] assms(3) by (simp add: vmsas_of_def)
  obtain v where "b1 = push_directives (add_snp_platform b) [SnpVpContext 0xFFFFFFFFF000 SEV_SNP_COMPAT 0 v]"
    using 1 by (auto simp: add_snp_vmsa_context_def)
  then have b1: "b_platforms b1 = b_platforms (add_snp_platform b)" "compat_all b1 = compat_all b OR SEV_SNP_COMPAT"
    "length (vmsas_of vb SEV_SNP_COMPAT (b_directives b1)) = 1" "list_all page_range (b_directives b1)"
    using none assms(4)
    by (simp_all add: push_directives_def add_snp_platform_def add_platform_def vmsas_of_def masks)
  have b2: "b_platforms b2 = b_platforms b1 \<and> compat_all b2 = compat_all b1
      \<and> length (vmsas_of vb SEV_SNP_COMPAT (b_directives b2)) = max 1 (cfg_smp c)
      \<and> cfg_smp c \<le> 2 ^ 16 \<and> list_all page_range (b_directives b2)"
  proof (cases "1 < cfg_smp c")
    case True
    then obtain a where a: "add_aps (real_mode_regs_at (of_nat a)) [1..<cfg_smp c] b1 = Inr b2"
      using 2 by auto
    have "cfg_smp c - 1 \<in> set [1..<cfg_smp c]" using True by simp
    then have "cfg_smp c - 1 < 2 ^ 16"
      using add_aps_facts [OF a] unfolding list_all_iff by blast
    then show ?thesis using add_aps_facts [OF a] b1 True by simp
  qed (use 2 b1 in simp)
  have 4: "data_step b2 (case meta of None \<Rightarrow> b2 | Some m \<Rightarrow> add_ovmf_snp_pages b2 m)" (is "data_step b2 ?b3")
    using assms(5) by (auto split: option.splits intro: add_ovmf_snp_pages_step)
  have b': "b_platforms b' = b_platforms ?b3" "compat_all b' = compat_all ?b3" "b_directives b' = b_directives ?b3"
    by (simp_all add: 3 add_snp_policy_def Let_def)
  show "b_platforms b' = b_platforms (add_snp_platform b)" "compat_all b' = compat_all b OR SEV_SNP_COMPAT"
    "length (vmsas_of vb SEV_SNP_COMPAT (b_directives b')) = max 1 (cfg_smp c)" "cfg_smp c \<le> 2 ^ 16"
    "list_all page_range (b_directives b')"
    using 4 b1 b2 vmsas_of_data_step [of "b_directives ?b3" "b_directives b2" vb]
    unfolding b' data_step_def by auto
qed

lemma sorted_inserts_first:
  assumes "sorted (map sort_gpa ds)" and "list_all page_range ds"
  shows "inserts_first ds"
  using assms
proof (induction ds)
  case (Cons d ds)
  have "\<not> list_ex is_insert ds" if "is_page d"
  proof
    assume "list_ex is_insert ds"
    then obtain e where "e \<in> set ds" "is_insert e" by (auto simp: list_ex_iff)
    moreover have "sort_gpa e = 0" if "is_insert e" for e using that by (cases e) (simp_all add: sort_gpa_def)
    ultimately show False
      using Cons.prems that by (fastforce simp: page_range_def)
  qed
  then show ?case using Cons by simp
qed simp

lemma page_range_fits: "page_range d \<Longrightarrow> gpa_fits d"
  by (cases d) auto

text \<open>The file of an SNP build, before validation and measurement.\<close>

lemma build_file_snp:
  assumes "build_file validate c = Inr f" and "use_snp c" and "config_fits c"
    and "\<And>m. ovmf_meta_new (cfg_firmware c) = Some m \<Longrightarrow> regions_above_zero m"
  shows "find_snp_compat f = Inr SEV_SNP_COMPAT" "inserts_first (file_directives f)"
    "list_all gpa_fits (file_directives f)"
    "length (vmsas_of vb SEV_SNP_COMPAT (file_directives f)) = max 1 (cfg_smp c)" "cfg_smp c \<le> 2 ^ 16"
    "sorted (map sort_gpa (file_directives f))" "list_all page_range (file_directives f)"
proof -
  let ?meta = "ovmf_meta_new (cfg_firmware c)"
  obtain b1 b2 b3 b4 where b: "add_native_part c builder_new = Inr b1" "add_snp_part c ?meta b1 = Inr b2"
      "add_firmware_part c ?meta b2 = Inr b3" "add_hob_data b3 ?meta c = Inr b4"
      "finalize validate b4 = Inr f"
    using assms(1) by (auto simp: build_file_def Let_def)
  note native = add_native_part_facts [OF b(1)]
  have meta: "?meta = Some m \<Longrightarrow> regions_small m \<and> regions_above_zero m" for m
    using assms(4) ovmf_regions_small by blast
  note snp = add_snp_part_facts [OF b(2) assms(2) native(2,3) meta]
  have step: "data_step b2 b4"
    using add_firmware_part_step [OF b(3) assms(3)] add_hob_data_step [OF b(4) assms(3) meta]
    by (rule data_step_trans)
  have f: "file_platforms f = b_platforms b4" "file_directives f = sort_key sort_gpa (b_directives b4)"
    using b(5) by (auto simp: finalize_def Let_def split: option.splits)
  show range: "list_all page_range (file_directives f)"
    using step snp(5) by (simp add: data_step_def f list_all_iff)
  have "b_platforms b4 = b_platforms (add_snp_platform b1)"
    using step snp(1) by (simp add: data_step_def)
  then have "find (\<lambda>p. platform_kind p = PlatformSevSnp) (b_platforms b4)
      = Some \<lparr> compat_mask = SEV_SNP_COMPAT, highest_vtl = 2, platform_kind = PlatformSevSnp,
          platform_version = 1, shared_gpa_boundary = 0 \<rparr>"
    using native(1) by (simp add: add_snp_platform_def add_platform_def find_snoc)
  then show "find_snp_compat f = Inr SEV_SNP_COMPAT" by (simp add: find_snp_compat_def f)
  show sorted: "sorted (map sort_gpa (file_directives f))" by (simp add: f)
  show "inserts_first (file_directives f)" by (rule sorted_inserts_first [OF sorted range])
  show "list_all gpa_fits (file_directives f)" using range page_range_fits by (auto simp: list_all_iff)
  show "cfg_smp c \<le> 2 ^ 16" by (rule snp(4))
  have "length (vmsas_of vb m ds) = size (filter_mset (\<lambda>d. vmsa_contents vb m d \<noteq> []) (mset ds))" for ds m
  proof (induction ds)
    case (Cons d ds)
    then show ?case by (cases d) (simp_all add: vmsas_of_def)
  qed (simp add: vmsas_of_def)
  then have "length (vmsas_of vb SEV_SNP_COMPAT (file_directives f))
      = length (vmsas_of vb SEV_SNP_COMPAT (b_directives b4))"
    by (simp add: f)
  also have "\<dots> = length (vmsas_of vb SEV_SNP_COMPAT (b_directives b2))"
    using step vmsas_of_data_step [of "b_directives b4" "b_directives b2" vb] by (simp add: data_step_def)
  finally show "length (vmsas_of vb SEV_SNP_COMPAT (file_directives f)) = max 1 (cfg_smp c)"
    using snp(3) by simp
qed

lemma foldl_platforms:
  "(\<And>b x. b_platforms (g b x) = b_platforms b) \<Longrightarrow> b_platforms (foldl g b xs) = b_platforms b"
  by (induction xs arbitrary: b) auto

text \<open>A native build has no SNP platform, so the measurement refuses it.\<close>

lemma build_file_native:
  assumes "build_file validate c = Inr f" and "\<not> use_snp c"
  shows "find_snp_compat f = bail ''No SEV_SNP platform found in IGVM file''"
proof -
  let ?meta = "ovmf_meta_new (cfg_firmware c)"
  have push: "b_platforms (push_directives b ds) = b_platforms b" for b ds
    by (simp add: push_directives_def)
  note ops = add_ovmf_igvm_params_step [unfolded data_step_def]
  obtain b1 b3 b4 where b: "add_native_part c builder_new = Inr b1"
      "add_firmware_part c ?meta b1 = Inr b3" "add_hob_data b3 ?meta c = Inr b4"
      "finalize validate b4 = Inr f"
    using assms by (auto simp: build_file_def Let_def add_snp_part_def)
  have "b_platforms b3 = b_platforms b1"
    using b(2) ops
    by (auto simp: add_firmware_part_def Let_def add_firmware_4g_def add_firmware_1m_def add_uefivars_def
        add_data_pages_def add_data_pages_flags_def push split: option.splits if_splits)
  moreover have "b_platforms (place_blob u b x) = b_platforms b" for u b x
    by (simp add: place_blob_def add_data_pages_flags_def push remove_page_data_in_range_def)
  then have "b_platforms (foldl (place_blob u) b xs) = b_platforms b" for u b xs
    by (rule foldl_platforms)
  then have "b_platforms b4 = b_platforms b3"
    using b(3)
    by (auto simp: add_hob_data_def Let_def add_data_pages_def add_data_pages_flags_def push
        remove_page_data_in_range_def split: if_splits)
  ultimately show ?thesis
    using b(4) add_native_part_facts(1) [OF b(1)]
    by (auto simp: finalize_def Let_def find_snp_compat_def split: option.splits)
qed

text \<open>The pages of a blob stay until a later blob removes the range they are in.\<close>

definition blob_pages :: "nat \<Rightarrow> bytes \<Rightarrow> measured_page list" where
  "blob_pages addr blob =
     map (\<lambda>pg. (addr + pg * 4096, SNP_PAGE_TYPE_NORMAL,
             Some (padded_page (subslice blob (pg * 4096) (min (pg * 4096 + 4096) (length blob))))))
       [0..<div_ceil (length blob) 4096]"

lemma pages_of_member:
  "d \<in> set ds \<Longrightarrow> p \<in> set (directive_pages m areas d) \<Longrightarrow> p \<in> set (pages_of m areas ds)"
  by (auto simp: pages_of_def)

lemma data_pages_measured:
  assumes "compat_all b AND m \<noteq> 0" and "p \<in> set (blob_pages addr blob)"
  shows "p \<in> set (pages_of m areas (b_directives (add_data_pages b addr blob)))"
proof -
  obtain pg where pg: "pg < div_ceil (length blob) 4096"
      "p = (addr + pg * 4096, SNP_PAGE_TYPE_NORMAL,
        Some (padded_page (subslice blob (pg * 4096) (min (pg * 4096 + 4096) (length blob)))))"
    using assms(2) by (auto simp: blob_pages_def)
  let ?d = "PageData (addr + pg * 4096) (compat_all b) False PageNormal
      (subslice blob (pg * 4096) (min (pg * 4096 + 4096) (length blob)))"
  show ?thesis
  proof (rule pages_of_member)
    show "?d \<in> set (b_directives (add_data_pages b addr blob))"
      using pg(1) by (force simp: add_data_pages_def add_data_pages_flags_def push_directives_def
          PAGE_SIZE_4K_def Let_def)
    show "p \<in> set (directive_pages m areas ?d)"
      using assms(1) pg(2) by (simp add: data_page_def)
  qed
qed

lemma place_blob_keeps:
  assumes "d \<in> set (b_directives b)" and "\<not> page_in_range (fst x) (length (snd x)) d"
  shows "d \<in> set (b_directives (place_blob u b x))"
  using assms
  by (simp add: place_blob_def add_data_pages_flags_def push_directives_def remove_page_data_in_range_def)

lemma foldl_place_keeps:
  "d \<in> set (b_directives b) \<Longrightarrow> (\<And>x. x \<in> set xs \<Longrightarrow> \<not> page_in_range (fst x) (length (snd x)) d) \<Longrightarrow>
     d \<in> set (b_directives (foldl (place_blob u) b xs))"
proof (induction xs arbitrary: b)
  case (Cons x xs)
  have "d \<in> set (b_directives (place_blob u b x))"
    by (rule place_blob_keeps) (use Cons.prems in simp_all)
  then show ?case using Cons.IH Cons.prems(2) by simp
qed simp

text \<open>The kernel is the last blob, so only the unmeasured shim is placed after it, and it lies below.\<close>

lemma kernel_blob:
  assumes "cfg_kernel c = Some k"
  obtains l where "\<exists>xs. l = add_all (data_list_new 0x20000000) xs"
    "blobs (config_blobs c) True = blobs l True @ [(list_base l, k)]"
    "blobs (config_blobs c) False = blobs l False"
    "\<And>a x. (a, x) \<in> set (blobs l False) \<Longrightarrow> cfg_shim c = Some x"
proof -
  define l where "l = opt_blob (cfg_shim c) Shim False (opt_blob (cfg_dbx c) Dbx True
      (opt_blob (cfg_db c) Db True (opt_blob (cfg_kek c) Kek True (opt_blob (cfg_pk c) Pk True
      (data_list_new 0x20000000)))))"
  have l: "config_blobs c = data_list_add l k KernelData True"
    using assms by (simp add: config_blobs_def l_def opt_blob_def)
  have "\<exists>xs. data_list_new 0x20000000 = add_all (data_list_new 0x20000000) xs"
    by (intro exI [of _ "[]"]) (simp add: add_all_def)
  then have "\<exists>xs. l = add_all (data_list_new 0x20000000) xs"
    unfolding l_def by (intro opt_blob_add)
  moreover have measured: "blobs (opt_blob x t True l0) False = blobs l0 False" for x t l0
    by (simp add: opt_blob_def data_list_add_def blobs_def split: option.splits)
  have "cfg_shim c = Some x" if "(a, x) \<in> set (blobs l False)" for a x
  proof -
    have "blobs (data_list_new 0x20000000) False = []" by (simp add: data_list_new_def blobs_def)
    then have "blobs (opt_blob (cfg_dbx c) Dbx True (opt_blob (cfg_db c) Db True
        (opt_blob (cfg_kek c) Kek True (opt_blob (cfg_pk c) Pk True (data_list_new 0x20000000))))) False = []"
      (is "blobs ?l0 False = []") by (simp add: measured)
    then show ?thesis
      using that unfolding l_def opt_blob_def [of "cfg_shim c"]
      by (cases "cfg_shim c") (auto simp: data_list_add_def blobs_def)
  qed
  ultimately show ?thesis
    using that [of l] by (auto simp: l data_list_add_def blobs_def)
qed

lemma kernel_pages_stay:
  assumes "add_hob_data b meta c = Inr b'" and "cfg_kernel c = Some k" and "cfg_shim c \<noteq> Some []"
    and "compat_all b AND m \<noteq> 0"
  shows "\<exists>addr. set (blob_pages addr k) \<subseteq> set (pages_of m areas (b_directives b'))"
proof -
  obtain l where l: "\<exists>xs. l = add_all (data_list_new 0x20000000) xs"
      "blobs (config_blobs c) True = blobs l True @ [(list_base l, k)]"
      "blobs (config_blobs c) False = blobs l False"
      "\<And>a x. (a, x) \<in> set (blobs l False) \<Longrightarrow> cfg_shim c = Some x"
    using kernel_blob [OF assms(2)] by metis
  have "\<exists>area :: ovmf_region. b' = foldl (place_blob True) (foldl (place_blob False)
      (add_data_pages (remove_page_data_in_range b (r_base area) (r_size area)) (r_base area)
        (hobs (config_blobs c))) (blobs (config_blobs c) True)) (blobs (config_blobs c) False)"
  proof -
    have "has_data c" using assms(2) by (simp add: has_data_def)
    show ?thesis
    proof (cases "Option.bind meta (\<lambda>m. find (\<lambda>r. etype r = IgvmHobArea) (regions m))")
      case None
      then show ?thesis using assms(1) \<open>has_data c\<close> by (simp add: add_hob_data_def ok_or_def)
    next
      case (Some area)
      show ?thesis
        by (intro exI [of _ area]) (use assms(1) \<open>has_data c\<close> Some in \<open>simp add: add_hob_data_def Let_def ok_or_def\<close>)
    qed
  qed
  then obtain area :: ovmf_region where area: "b' = foldl (place_blob True) (foldl (place_blob False)
      (add_data_pages (remove_page_data_in_range b (r_base area) (r_size area)) (r_base area)
        (hobs (config_blobs c))) (blobs (config_blobs c) True)) (blobs (config_blobs c) False)"
    by blast
  define b1 where "b1 = foldl (place_blob False)
      (add_data_pages (remove_page_data_in_range b (r_base area) (r_size area)) (r_base area)
        (hobs (config_blobs c))) (blobs l True)"
  define b2 where "b2 = remove_page_data_in_range b1 (list_base l) (length k)"
  have b': "b' = foldl (place_blob True) (add_data_pages b2 (list_base l) k) (blobs l False)"
    using area l(2,3) by (simp add: b1_def b2_def place_blob_def add_data_pages_def)
  have foldl_compat: "compat_all (foldl (place_blob u) b xs) = compat_all b" for u b xs
    by (induction xs arbitrary: b)
      (auto simp: place_blob_def add_data_pages_flags_def push_directives_def remove_page_data_in_range_def)
  have compat: "compat_all b2 AND m \<noteq> 0"
    using assms(4) by (simp add: b2_def b1_def foldl_compat remove_page_data_in_range_def
        add_data_pages_def add_data_pages_flags_def push_directives_def)
  have c: "contiguous 0x20000000 (list_data l) (list_base l)"
    using l(1) add_all_contiguous by (auto simp: data_list_new_def)
  have below: "a + max (length x) 4096 \<le> list_base l" if ax: "(a, x) \<in> set (blobs l False)" for a x
  proof -
    obtain d where d: "d \<in> set (list_data l)" "a = entry_addr d" "x = entry_blob d"
      using ax unfolding blobs_def by fastforce
    have "x \<noteq> []" using l(4) [OF ax] assms(3) by auto
    then have "max (length x) 4096 \<le> next_multiple_of (length x) 4096"
      using next_multiple_of [of 4096 "length x"] dvd_imp_le [of 4096 "next_multiple_of (length x) 4096"]
      by (cases x) auto
    then show ?thesis
      using contiguous_aligned [OF c _ d(1)] d by (auto simp: entry_end_def)
  qed
  have "p \<in> set (pages_of m areas (b_directives b'))" if p: "p \<in> set (blob_pages (list_base l) k)" for p
  proof -
    obtain pg where pg: "pg < div_ceil (length k) 4096"
        "p = (list_base l + pg * 4096, SNP_PAGE_TYPE_NORMAL,
          Some (padded_page (subslice k (pg * 4096) (min (pg * 4096 + 4096) (length k)))))"
      using p by (auto simp: blob_pages_def)
    let ?d = "PageData (list_base l + pg * 4096) (compat_all b2) False PageNormal
        (subslice k (pg * 4096) (min (pg * 4096 + 4096) (length k)))"
    have "?d \<in> set (b_directives (add_data_pages b2 (list_base l) k))"
      using pg(1) by (force simp: add_data_pages_def add_data_pages_flags_def push_directives_def
          PAGE_SIZE_4K_def Let_def)
    then have "?d \<in> set (b_directives b')"
      unfolding b'
      by (rule foldl_place_keeps) (use below in \<open>fastforce simp: page_in_range_def PAGE_SIZE_4K_def\<close>)
    then show ?thesis
      by (rule pages_of_member) (use compat pg(2) in \<open>simp add: data_page_def\<close>)
  qed
  then show ?thesis by blast
qed

lemma build_file_kernel:
  assumes "build_file validate c = Inr f" and "use_snp c" and "config_fits c"
    and "\<And>m. ovmf_meta_new (cfg_firmware c) = Some m \<Longrightarrow> regions_above_zero m"
    and "cfg_kernel c = Some k" and "cfg_shim c \<noteq> Some []"
  shows "\<exists>addr. set (blob_pages addr k) \<subseteq> set (file_pages vb SEV_SNP_COMPAT f)"
proof -
  let ?meta = "ovmf_meta_new (cfg_firmware c)"
  obtain b1 b2 b3 b4 where b: "add_native_part c builder_new = Inr b1" "add_snp_part c ?meta b1 = Inr b2"
      "add_firmware_part c ?meta b2 = Inr b3" "add_hob_data b3 ?meta c = Inr b4"
      "finalize validate b4 = Inr f"
    using assms(1) by (auto simp: build_file_def Let_def)
  have meta: "?meta = Some m \<Longrightarrow> regions_small m \<and> regions_above_zero m" for m
    using assms(4) ovmf_regions_small by blast
  have "compat_all b2 = compat_all b1 OR SEV_SNP_COMPAT"
    using add_snp_part_facts(2) [OF b(2) assms(2) add_native_part_facts(2,3) [OF b(1)] meta] .
  moreover have "compat_all b3 = compat_all b2"
    using add_firmware_part_step [OF b(3) assms(3)] by (simp add: data_step_def)
  moreover have "compat_all b1 \<in> {0, 1}"
    using b(1) by (auto simp: add_native_part_def add_native_platform_def add_platform_def builder_new_def
        add_native_context_def push_directives_def Let_def masks split: if_splits)
  ultimately have "compat_all b3 AND SEV_SNP_COMPAT \<noteq> 0" by (auto simp: masks)
  from kernel_pages_stay [OF b(4) assms(5,6) this, of "collect_param_areas f"]
  obtain addr where "set (blob_pages addr k)
      \<subseteq> set (pages_of SEV_SNP_COMPAT (collect_param_areas f) (b_directives b4))" ..
  moreover have "set (file_directives f) = set (b_directives b4)"
    using b(5) by (auto simp: finalize_def Let_def split: option.splits)
  ultimately show ?thesis by (auto simp: file_pages_def pages_of_def)
qed

lemma build_igvm_Inr:
  assumes "build_igvm sha vb validate serialize c = Inr r"
  obtains f where "build_file validate c = Inr f" "measure_snp sha vb f = Inr (result_measurement r)"
proof (cases "build_file validate c")
  case (Inr f)
  show thesis
  proof (cases "measure_snp sha vb f")
    case (Inr m)
    show thesis
    proof (cases "serialize f")
      case (Inr bs)
      then show thesis
        using that [of f] assms \<open>build_file validate c = Inr f\<close> \<open>measure_snp sha vb f = Inr m\<close>
        by (auto simp: build_igvm_def)
    qed (use assms \<open>build_file validate c = Inr f\<close> \<open>measure_snp sha vb f = Inr m\<close> in \<open>simp add: build_igvm_def\<close>)
  qed (use assms \<open>build_file validate c = Inr f\<close> in \<open>simp add: build_igvm_def\<close>)
qed (use assms in \<open>simp add: build_igvm_def\<close>)

end
