(* ===== verification/IgvmCorrect.thy ===== *)
theory IgvmCorrect
  imports IgvmBuild
begin

text \<open>
  What a built image is and when a build returns one.  Every error of \<open>build\<close> is one of three conditions on the configuration:
  the number of processors, the reset address and the HOB region of the firmware.  The arithmetic of the
  measurement and the lookups of parameter areas never fail on a file that \<open>build\<close> makes.
\<close>

section \<open>Parameter areas\<close>

fun is_param :: "directive \<Rightarrow> bool" where
  "is_param (ParameterArea _ _ _) = True"
| "is_param (ParameterInsert _ _ _) = True"
| "is_param _ = False"

text \<open>Every inserted parameter area exists, and insertion stays below eight gigabytes.\<close>

fun param_small :: "directive \<Rightarrow> bool" where
  "param_small (ParameterArea i n _) \<longleftrightarrow> i = 0 \<and> n < 2 ^ 32"
| "param_small (ParameterInsert i g _) \<longleftrightarrow> i = 0 \<and> g < 2 ^ 32"
| "param_small _ \<longleftrightarrow> True"

fun is_area :: "directive \<Rightarrow> bool" where
  "is_area (ParameterArea _ _ _) = True"
| "is_area _ = False"

definition params_ok :: "directive list \<Rightarrow> bool" where
  "params_ok ds \<longleftrightarrow> list_all param_small ds \<and> (list_ex is_insert ds \<longrightarrow> list_ex is_area ds)"

lemma params_ok_cong: "set ds = set es \<Longrightarrow> params_ok ds = params_ok es"
  by (simp add: params_ok_def list_all_iff list_ex_iff)

lemma params_ok_filter: "params_ok (filter is_param ds) = params_ok ds"
proof -
  have "param_small d" if "\<not> is_param d" for d using that by (cases d) auto
  moreover have "is_insert d \<Longrightarrow> is_param d" "is_area d \<Longrightarrow> is_param d" for d by (cases d; simp)+
  ultimately show ?thesis by (auto simp: params_ok_def list_all_iff list_ex_iff)
qed

definition same_params :: "builder \<Rightarrow> builder \<Rightarrow> bool" where
  "same_params b b' \<longleftrightarrow> filter is_param (b_directives b') = filter is_param (b_directives b)"

lemma same_params_refl [simp, intro]: "same_params b b"
  by (simp add: same_params_def)

lemma same_params_trans: "same_params a b \<Longrightarrow> same_params b c \<Longrightarrow> same_params a c"
  by (simp add: same_params_def)

lemma same_params_push: "list_all (\<lambda>d. \<not> is_param d) ds \<Longrightarrow> same_params b (push_directives b ds)"
  by (auto simp: same_params_def push_directives_def list_all_iff filter_empty_conv)

lemma same_params_foldl: "(\<And>b x. same_params b (g b x)) \<Longrightarrow> same_params b (foldl g b xs)"
  by (induction xs arbitrary: b) (auto intro: same_params_trans)

lemma same_params_data: "same_params b (add_data_pages_flags b base data u)"
  by (auto simp: add_data_pages_flags_def list_all_iff Let_def intro!: same_params_push)

lemma same_params_remove: "same_params b (remove_page_data_in_range b base n)"
proof -
  have "filter is_param (filter (\<lambda>d. \<not> page_in_range base n d) ds) = filter is_param ds" for ds
    by (induction ds) (auto simp: page_in_range_def split: directive.splits)
  then show ?thesis by (simp add: same_params_def remove_page_data_in_range_def)
qed

lemma same_params_place: "same_params b (place_blob u b x)"
  unfolding place_blob_def by (rule same_params_trans [OF same_params_remove same_params_data])

lemma same_params_hob: "add_hob_data b meta c = Inr b' \<Longrightarrow> same_params b b'"
  by (auto simp: add_hob_data_def Let_def add_data_pages_def split: if_splits
      intro!: same_params_trans [OF same_params_trans [OF same_params_remove same_params_data]
        same_params_trans [OF same_params_foldl same_params_foldl]] same_params_place)

lemma same_params_region_pages: "same_params b (add_region_pages ps b r)"
proof -
  have "same_params b (add_region_page ps t b gpa)" for b t gpa
    by (auto simp: add_region_page_def add_empty_pages_def list_all_iff intro!: same_params_push)
  then have "same_params b (foldl (add_region_page ps t) b gpas)" for b t gpas
    by (rule same_params_foldl)
  then show ?thesis by (auto simp: add_region_pages_def split: option.splits)
qed

lemma same_params_vmsa: "add_snp_vmsa_context b regs debug vp = Inr b' \<Longrightarrow> same_params b b'"
  by (auto simp: add_snp_vmsa_context_def intro!: same_params_push)

lemma same_params_aps: "add_aps regs vps b = Inr b' \<Longrightarrow> same_params b b'"
proof (induction vps arbitrary: b)
  case (Cons vp vps)
  then obtain b1 where "add_snp_vmsa_context b regs False vp = Inr b1" "add_aps regs vps b1 = Inr b'"
    by (auto split: if_splits)
  then show ?case using Cons.IH same_params_vmsa same_params_trans by blast
qed simp

lemma native_part_params: "add_native_part c builder_new = Inr b \<Longrightarrow> filter is_param (b_directives b) = []"
  by (auto simp: add_native_part_def add_native_platform_def add_platform_def builder_new_def
      add_native_context_def push_directives_def Let_def split: if_splits)

lemma snp_part_params:
  assumes "add_snp_part c meta b = Inr b'"
  shows "same_params b b'"
proof (cases "use_snp c")
  case True
  let ?regs = "case cfg_boot c of Flat32 \<Rightarrow> flat32_mode_regs None | Real16 \<Rightarrow> real_mode_regs_at 0xFFFFFFF0"
  obtain b1 b2 where 1: "add_snp_vmsa_context (add_snp_platform b) ?regs False 0 = Inr b1"
    and 2: "(if 1 < cfg_smp c then
        and_then (ok_or (Err ''OVMF firmware does not contain SEV-ES reset address (needed for --smp > 1)'')
          (Option.bind meta sev_reset_addr)) (\<lambda>ap_reset_addr.
        add_aps (real_mode_regs_at (of_nat ap_reset_addr)) [1..<cfg_smp c] b1)
      else Inr b1) = Inr b2"
    and 3: "b' = add_snp_policy (case meta of None \<Rightarrow> b2 | Some m \<Rightarrow> add_ovmf_snp_pages b2 m) None"
    using assms True unfolding add_snp_part_def by auto
  have "same_params b (add_snp_platform b)"
    by (simp add: same_params_def add_snp_platform_def add_platform_def)
  moreover note same_params_vmsa [OF 1]
  moreover have "same_params b1 b2" using 2 same_params_aps by (auto split: if_splits)
  moreover have "same_params b2 b'"
    using same_params_foldl [OF same_params_region_pages]
    by (auto simp: 3 add_snp_policy_def Let_def same_params_def add_ovmf_snp_pages_def split: option.splits)
  ultimately show ?thesis by (blast intro: same_params_trans)
qed (use assms in \<open>simp add: add_snp_part_def\<close>)

lemma igvm_params_ok:
  assumes "filter is_param (b_directives b) = []" and "regions_small m"
  shows "params_ok (b_directives (add_ovmf_igvm_params b m))"
proof (cases "find (\<lambda>r. etype r = IgvmParamArea) (regions m)")
  case None
  then show ?thesis
    using assms(1) params_ok_filter [of "b_directives b"] by (simp add: add_ovmf_igvm_params_def params_ok_def)
next
  case (Some area)
  define b1 where "b1 = add_igvm_param_area b 0 (r_size area)"
  define b2 where "b2 = foldl add_region_param b1 (regions m)"
  have "area \<in> set (regions m)" using Some by (metis find_Some_iff nth_mem)
  then have r: "r_base area < 2 ^ 32" "r_size area < 2 ^ 32"
    using assms(2) by (auto simp: regions_small_def list_all_iff)
  have "same_params b (add_region_param b r)" for b r
    by (auto simp: add_region_param_def add_igvm_param_memmap_def add_igvm_param_vpcount_def
        add_igvm_param_def split: region_type.splits intro!: same_params_push)
  then have "same_params b1 b2" unfolding b2_def by (rule same_params_foldl)
  then have "filter is_param (b_directives b2) = [ParameterArea 0 (r_size area) []]"
    using assms(1) by (simp add: same_params_def b1_def add_igvm_param_area_def push_directives_def)
  moreover have "add_ovmf_igvm_params b m = add_igvm_param_insert b2 0 (r_base area)"
    using Some by (simp add: add_ovmf_igvm_params_def b1_def b2_def)
  ultimately have "filter is_param (b_directives (add_ovmf_igvm_params b m))
      = [ParameterArea 0 (r_size area) [], ParameterInsert 0 (r_base area) (compat_all b2)]"
    by (simp add: add_igvm_param_insert_def push_directives_def)
  then show ?thesis
    using params_ok_filter [of "b_directives (add_ovmf_igvm_params b m)"] r
    by (simp add: params_ok_def del: numeral_power_less_of_nat_cancel_iff)
qed

lemma firmware_part_params:
  assumes "add_firmware_part c meta b = Inr b'" and "filter is_param (b_directives b) = []"
    and "\<And>m. meta = Some m \<Longrightarrow> regions_small m"
  shows "params_ok (b_directives b')"
proof -
  define b1 where "b1 = (case meta of None \<Rightarrow> b | Some m \<Rightarrow> add_ovmf_igvm_params b m)"
  have "params_ok (b_directives b1)"
    using assms(2,3) igvm_params_ok params_ok_filter [of "b_directives b"]
    by (auto simp: b1_def params_ok_def split: option.splits)
  moreover have "same_params b1 b'"
    using assms(1)
    by (auto simp: add_firmware_part_def Let_def b1_def [symmetric] add_firmware_4g_def add_firmware_1m_def
        add_uefivars_def add_data_pages_def split: option.splits if_splits
        intro: same_params_data same_params_trans [OF same_params_data same_params_data]
          same_params_trans [OF same_params_data same_params_trans [OF same_params_data same_params_data]])
  ultimately show ?thesis
    using params_ok_filter by (metis same_params_def)
qed

section \<open>The measurement returns\<close>

text \<open>The address arithmetic of the loop stays inside 64 bits and every inserted area is known.\<close>

fun measurable :: "(nat \<rightharpoonup> nat) \<Rightarrow> directive \<Rightarrow> bool" where
  "measurable areas (PageData gpa _ _ _ _) \<longleftrightarrow> gpa + 4096 < u64_limit"
| "measurable areas (ParameterInsert i g _) \<longleftrightarrow>
     (case areas i of None \<Rightarrow> False | Some n \<Rightarrow> g + n + 4096 < u64_limit)"
| "measurable areas _ \<longleftrightarrow> True"

definition prev_fits :: "measure_state \<Rightarrow> bool" where
  "prev_fits st \<longleftrightarrow> (case prev_page st of None \<Rightarrow> True | Some (gpa, _) \<Rightarrow> gpa + 4096 < u64_limit)"

lemma should_flush_returns: "prev_fits st \<Longrightarrow> \<exists>b. should_flush st idx gpa t h = Inr b"
  by (cases "prev_page st") (auto simp: should_flush_def prev_fits_def add_u64_def checked_add_def)

lemma measure_page_returns:
  assumes "prev_fits st" and "gpa + 4096 < u64_limit"
  shows "\<exists>st'. measure_page_data sha idx gpa u dt data st = Inr st' \<and> prev_fits st'"
proof -
  obtain t c h where cl: "classify_page_data sha dt u data = (t, c, h)" by (metis prod_cases3)
  obtain b where "should_flush st idx gpa t h = Inr b" using should_flush_returns [OF assms(1)] by blast
  then show ?thesis
    using assms(2) by (simp add: measure_page_data_def cl Let_def prev_fits_def)
qed

lemma measure_insert_returns:
  "prev_fits st \<Longrightarrow> list_all (\<lambda>pg. gpa + pg * 4096 < u64_limit) pgs \<Longrightarrow>
     \<exists>st'. measure_insert_pages sha gpa pgs st = Inr st' \<and> prev_fits st'"
proof (induction pgs arbitrary: st)
  case (Cons pg pgs)
  define st1 where "st1 = st \<lparr> ld := update_page_info sha (ld st) (zeros 48) SNP_PAGE_TYPE_UNMEASURED
      (gpa + pg * 4096), page_count := page_count st + 1 \<rparr>"
  have "prev_fits st1" using Cons.prems(1) by (simp add: st1_def prev_fits_def)
  then obtain st' where "measure_insert_pages sha gpa pgs st1 = Inr st'" "prev_fits st'"
    using Cons.IH Cons.prems(2) by force
  then show ?case
    using Cons.prems(2) by (auto simp: add_u64_def checked_add_def st1_def)
qed simp

lemma measure_directive_returns:
  assumes "prev_fits st" and "measurable areas d"
  shows "\<exists>st'. measure_directive sha vb m areas idx d st = Inr st' \<and> prev_fits st'"
proof (cases d)
  case (PageData gpa cm u dt data)
  then show ?thesis using assms measure_page_returns by simp
next
  case (ParameterInsert i g cm)
  then obtain n where n: "areas i = Some n" "g + n + 4096 < u64_limit"
    using assms(2) by (auto split: option.splits)
  have "list_all (\<lambda>pg. g + pg * 4096 < u64_limit) [0..<div_ceil n 4096]"
    using n(2) by (auto simp: list_all_iff dest!: div_ceil_bound)
  then show ?thesis
    using ParameterInsert n assms(1) measure_insert_returns by simp
qed (use assms in \<open>simp_all add: prev_fits_def\<close>)

lemma measure_loop_returns:
  "prev_fits st \<Longrightarrow> list_all (measurable areas) ds \<Longrightarrow> \<exists>st'. measure_loop sha vb m areas idx ds st = Inr st'"
proof (induction ds arbitrary: idx st)
  case (Cons d ds)
  obtain st1 where "measure_directive sha vb m areas idx d st = Inr st1" "prev_fits st1"
    using measure_directive_returns [OF Cons.prems(1), of areas d] Cons.prems(2) by fastforce
  then show ?case using Cons.IH Cons.prems(2) by simp
qed simp

lemma collect_areas:
  "list_all param_small ds \<Longrightarrow> (\<And>n. areas 0 = Some n \<Longrightarrow> n < 2 ^ 32) \<Longrightarrow>
     (let found = foldl (\<lambda>a d. case d of ParameterArea index len _ \<Rightarrow> a(index \<mapsto> len) | _ \<Rightarrow> a) areas ds in
       (list_ex is_area ds \<or> areas 0 \<noteq> None \<longrightarrow> found 0 \<noteq> None) \<and> (\<forall>n. found 0 = Some n \<longrightarrow> n < 2 ^ 32))"
proof (induction ds arbitrary: areas)
  case (Cons d ds)
  show ?case
  proof (cases d)
    case (ParameterArea i n bs)
    then have d: "i = 0" "n < 2 ^ 32" and small: "list_all param_small ds" using Cons.prems(1) by auto
    have "m < 2 ^ 32" if "(areas(0 \<mapsto> n)) 0 = Some m" for m using that d by simp
    from Cons.IH [OF small, of "areas(0 \<mapsto> n)", OF this] show ?thesis
      by (simp only: Let_def foldl_Cons ParameterArea d(1) directive.case) simp
  qed (use Cons.prems Cons.IH [of areas] in \<open>auto simp: Let_def\<close>)
qed simp

lemma built_file_measurable:
  assumes "params_ok (file_directives f)" and "list_all page_range (file_directives f)"
  shows "list_all (measurable (collect_param_areas f)) (file_directives f)"
proof -
  note areas = collect_areas [of "file_directives f" Map.empty, folded collect_param_areas_def, unfolded Let_def]
  have "measurable (collect_param_areas f) d" if d: "d \<in> set (file_directives f)" for d
  proof (cases d)
    case (ParameterInsert i g cm)
    have "list_ex is_insert (file_directives f)"
      using d ParameterInsert by (auto simp: list_ex_iff intro!: bexI [of _ d])
    then obtain n where "collect_param_areas f 0 = Some n" "n < 2 ^ 32"
      using areas assms(1) by (auto simp: params_ok_def)
    moreover have "i = 0" "g < 2 ^ 32"
      using assms(1) d ParameterInsert unfolding params_ok_def list_all_iff by force+
    ultimately show ?thesis using ParameterInsert by (simp add: u64_limit_def)
  qed (use assms(2) d in \<open>auto simp: list_all_iff\<close>)
  then show ?thesis by (simp add: list_all_iff)
qed

lemma measure_snp_returns:
  assumes "find_snp_compat f = Inr m" and "params_ok (file_directives f)"
    and "list_all page_range (file_directives f)"
  shows "\<exists>r. measure_snp sha vb f = Inr r"
proof -
  obtain st where "measure_loop sha vb m (collect_param_areas f) 0 (file_directives f) measure_init = Inr st"
    using measure_loop_returns [OF _ built_file_measurable [OF assms(2,3)], of measure_init sha vb m 0]
    by (auto simp: prev_fits_def measure_init_def)
  then show ?thesis using assms(1) by (simp add: measure_snp_def Let_def)
qed

section \<open>The steps of a build return\<close>

lemma native_part_returns: "\<exists>b. add_native_part c builder_new = Inr b"
  using program_registers_ok(3) [of None] by (auto simp: add_native_part_def add_native_context_def Let_def)

lemma vmsa_context_returns:
  "\<exists>b'. add_snp_vmsa_context b (real_mode_regs_at a) d vp = Inr b'"
  "\<exists>b'. add_snp_vmsa_context b (flat32_mode_regs r) d vp = Inr b'"
  using program_registers_ok(1) [of a "\<lparr> feat_snp = True, feat_debug_swap = d \<rparr>"]
    program_registers_ok(2) [of r "\<lparr> feat_snp = True, feat_debug_swap = d \<rparr>"]
  by (auto simp: add_snp_vmsa_context_def)

lemma add_aps_returns:
  "(\<exists>b'. add_aps (real_mode_regs_at a) vps b = Inr b') \<longleftrightarrow> list_all (\<lambda>vp. vp < 2 ^ 16) vps"
proof (induction vps arbitrary: b)
  case (Cons vp vps)
  obtain b1 where "add_snp_vmsa_context b (real_mode_regs_at a) False vp = Inr b1"
    using vmsa_context_returns(1) by blast
  then show ?case using Cons.IH by simp
qed simp

lemma snp_part_returns:
  assumes "use_snp c"
  shows "(\<exists>b'. add_snp_part c meta b = Inr b') \<longleftrightarrow>
    cfg_smp c \<le> 2 ^ 16 \<and> (1 < cfg_smp c \<longrightarrow> Option.bind meta sev_reset_addr \<noteq> None)"
proof -
  let ?regs = "case cfg_boot c of Flat32 \<Rightarrow> flat32_mode_regs None | Real16 \<Rightarrow> real_mode_regs_at 0xFFFFFFF0"
  obtain b1 where b1: "add_snp_vmsa_context (add_snp_platform b) ?regs False 0 = Inr b1"
    by (cases "cfg_boot c") (use vmsa_context_returns [of "add_snp_platform b"] in fastforce)+
  have all: "list_all (\<lambda>vp. vp < 2 ^ 16) [1..<n] \<longleftrightarrow> n \<le> 2 ^ 16" for n :: nat
  proof
    assume a: "list_all (\<lambda>vp. vp < 2 ^ 16) [1..<n]"
    show "n \<le> 2 ^ 16"
    proof (rule ccontr)
      assume "\<not> n \<le> 2 ^ 16"
      then have "2 ^ 16 \<in> set [1..<n]" by simp
      then show False using a unfolding list_all_iff by blast
    qed
  qed (auto simp: list_all_iff)
  show ?thesis
  proof (cases "1 < cfg_smp c")
    case True
    show ?thesis
    proof (cases "Option.bind meta sev_reset_addr")
      case None
      then show ?thesis using assms b1 True by (simp add: add_snp_part_def ok_or_def)
    next
      case (Some a)
      have "(\<exists>b'. add_snp_part c meta b = Inr b')
          \<longleftrightarrow> (\<exists>b'. add_aps (real_mode_regs_at (of_nat a)) [1..<cfg_smp c] b1 = Inr b')"
        using assms b1 True Some by (simp add: add_snp_part_def ok_or_def del: and_then_eq_Inr)
          (cases "add_aps (real_mode_regs_at (of_nat a)) [Suc 0..<cfg_smp c] b1"; simp)
      then show ?thesis using True Some unfolding add_aps_returns all by simp
    qed
  qed (use assms b1 in \<open>simp add: add_snp_part_def\<close>)
qed

lemma firmware_part_returns:
  assumes "config_fits c"
  shows "\<exists>b'. add_firmware_part c meta b = Inr b'"
  using assms
  by (auto simp: add_firmware_part_def Let_def add_firmware_4g_def add_uefivars_def sub_u64_def
      config_fits_def split: option.splits)

lemma hob_data_returns:
  "(\<exists>b'. add_hob_data b meta c = Inr b') \<longleftrightarrow>
     (has_data c \<longrightarrow> (\<exists>m. meta = Some m \<and> (\<exists>r \<in> set (regions m). etype r = IgvmHobArea)))"
proof (cases "Option.bind meta (\<lambda>m. find (\<lambda>r. etype r = IgvmHobArea) (regions m))")
  case None
  then show ?thesis
    by (cases meta)
      (auto simp: add_hob_data_def find_None_iff find_Some_iff Let_def)
next
  case (Some r)
  then have "\<exists>m. meta = Some m \<and> (\<exists>r \<in> set (regions m). etype r = IgvmHobArea)"
    by (cases meta) (auto simp: find_Some_iff)
  then show ?thesis using Some by (simp add: add_hob_data_def ok_or_def Let_def)
qed

text \<open>The conditions under which a build gets as far as \<open>finalize\<close>.\<close>

definition buildable :: "build_config \<Rightarrow> bool" where
  "buildable c \<longleftrightarrow>
     (let meta = ovmf_meta_new (cfg_firmware c) in
      cfg_smp c \<le> 2 ^ 16 \<and> (1 < cfg_smp c \<longrightarrow> Option.bind meta sev_reset_addr \<noteq> None)
      \<and> (has_data c \<longrightarrow> (\<exists>m. meta = Some m \<and> (\<exists>r \<in> set (regions m). etype r = IgvmHobArea))))"

lemma build_file_returns:
  assumes "use_snp c" and "config_fits c"
  shows "(\<exists>f. build_file (\<lambda>_. None) c = Inr f) \<longleftrightarrow> buildable c"
proof -
  let ?meta = "ovmf_meta_new (cfg_firmware c)"
  obtain b1 where b1: "add_native_part c builder_new = Inr b1" using native_part_returns by blast
  show ?thesis
  proof (cases "\<exists>b2. add_snp_part c ?meta b1 = Inr b2")
    case True
    then obtain b2 where b2: "add_snp_part c ?meta b1 = Inr b2" ..
    obtain b3 where b3: "add_firmware_part c ?meta b2 = Inr b3"
      using firmware_part_returns [OF assms(2)] by blast
    have "(\<exists>f. build_file (\<lambda>_. None) c = Inr f) \<longleftrightarrow> (\<exists>b4. add_hob_data b3 ?meta c = Inr b4)"
      by (simp add: build_file_def Let_def b1 b2 b3 finalize_def)
    also have "\<dots> \<longleftrightarrow> buildable c"
      using snp_part_returns [OF assms(1), of ?meta b1] True
      unfolding hob_data_returns buildable_def Let_def by blast
    finally show ?thesis .
  next
    case False
    then have "\<not> buildable c" using snp_part_returns [OF assms(1)] unfolding buildable_def Let_def by blast
    moreover have "\<not> (\<exists>f. build_file (\<lambda>_. None) c = Inr f)"
      using False by (simp add: build_file_def Let_def b1)
    ultimately show ?thesis by simp
  qed
qed

lemma build_file_validated:
  "build_file validate c = Inr f \<longleftrightarrow> build_file (\<lambda>_. None) c = Inr f \<and> validate f = None"
  by (auto simp: build_file_def Let_def finalize_def map_err_def split: option.splits sum.splits fault.splits)

lemma built_file_measured:
  assumes "build_file validate c = Inr f" and "use_snp c" and "config_fits c"
    and "\<And>m. ovmf_meta_new (cfg_firmware c) = Some m \<Longrightarrow> regions_above_zero m"
  shows "\<exists>r. measure_snp sha vb f = Inr r"
proof -
  let ?meta = "ovmf_meta_new (cfg_firmware c)"
  obtain b1 b2 b3 b4 where b: "add_native_part c builder_new = Inr b1" "add_snp_part c ?meta b1 = Inr b2"
      "add_firmware_part c ?meta b2 = Inr b3" "add_hob_data b3 ?meta c = Inr b4"
      "finalize validate b4 = Inr f"
    using assms(1)
    by (auto simp: build_file_def Let_def)
  have ds: "file_directives f = sort_key sort_gpa (b_directives b4)"
    using b(5) by (auto simp: finalize_def Let_def split: option.splits)
  have "filter is_param (b_directives b2) = []"
    using native_part_params [OF b(1)] snp_part_params [OF b(2)] by (simp add: same_params_def)
  then have "params_ok (b_directives b3)"
    by (rule firmware_part_params [OF b(3)]) (use ovmf_regions_small in blast)
  then have "params_ok (b_directives b4)"
    using same_params_hob [OF b(4)] params_ok_filter unfolding same_params_def by metis
  then have "params_ok (file_directives f)"
    using params_ok_cong [of "file_directives f" "b_directives b4"] by (simp add: ds)
  moreover note snp = build_file_snp [OF assms]
  ultimately show ?thesis using measure_snp_returns snp by blast
qed

section \<open>Properties\<close>

text \<open>
  C31. An SNP image measures what it contains: when a build for SNP succeeds, its launch digest is the chain over
  the pages of the built file in address order followed by one VMSA page per processor, and the counts
  it reports are exact.
\<close>

theorem build_measures_file:
  assumes "build_igvm sha vb validate serialize c = Inr r" and "use_snp c" and "config_fits c"
    and "\<forall>m. ovmf_meta_new (cfg_firmware c) = Some m \<longrightarrow> regions_above_zero m"
  shows "\<exists>f. build_file validate c = Inr f \<and> sorted (map sort_gpa (file_directives f))
    \<and> launch_digest (result_measurement r)
      = page_chain sha (zeros 48) (map (hash_page sha) (file_pages vb SEV_SNP_COMPAT f))
    \<and> result_pages (result_measurement r) = length (file_pages vb SEV_SNP_COMPAT f)
    \<and> vmsa_count (result_measurement r) = max 1 (cfg_smp c)"
proof -
  obtain f m where f: "build_file validate c = Inr f" "measure_snp sha vb f = Inr m" "result_measurement r = m"
    using assms(1) by (auto elim: build_igvm_Inr)
  note snp = build_file_snp [OF f(1) assms(2,3)]
  have "regions_above_zero m" if "ovmf_meta_new (cfg_firmware c) = Some m" for m
    using assms(4) that by blast
  note snp = snp [OF this]
  from measure_snp_pages [OF f(2) snp(2)] snp show ?thesis
    using f(1,3) by fastforce
qed

text \<open>
  C1. The launch digest of a build commits to everything it places in guest memory: two SNP builds, of whatever firmware,
  variables, kernel, certificates and number of processors, with the same launch digest have the same
  measured pages, or they expose a break of the hash function.
\<close>

theorem equal_builds_equal_pages:
  assumes "build_igvm sha vb validate serialize c = Inr r" "build_igvm sha vb validate serialize c' = Inr r'"
    and "launch_digest (result_measurement r) = launch_digest (result_measurement r')"
    and "use_snp c" "use_snp c'" "config_fits c" "config_fits c'"
    and "\<forall>m. ovmf_meta_new (cfg_firmware c) = Some m \<longrightarrow> regions_above_zero m"
    and "\<forall>m. ovmf_meta_new (cfg_firmware c') = Some m \<longrightarrow> regions_above_zero m"
  shows "\<exists>f f'. build_file validate c = Inr f \<and> build_file validate c' = Inr f'
    \<and> (file_pages vb SEV_SNP_COMPAT f = file_pages vb SEV_SNP_COMPAT f'
      \<or> launch_break sha (file_pages vb SEV_SNP_COMPAT f) (file_pages vb SEV_SNP_COMPAT f'))"
proof -
  obtain f m where f: "build_file validate c = Inr f" "measure_snp sha vb f = Inr m" "result_measurement r = m"
    using assms(1) by (auto elim: build_igvm_Inr)
  obtain g n where g: "build_file validate c' = Inr g" "measure_snp sha vb g = Inr n" "result_measurement r' = n"
    using assms(2) by (auto elim: build_igvm_Inr)
  have "regions_above_zero m" if "ovmf_meta_new (cfg_firmware c) = Some m" for m using assms(8) that by blast
  note ff = build_file_snp [OF f(1) assms(4,6) this]
  have "regions_above_zero m" if "ovmf_meta_new (cfg_firmware c') = Some m" for m using assms(9) that by blast
  note gg = build_file_snp [OF g(1) assms(5,7) this]
  have "file_pages vb SEV_SNP_COMPAT f = file_pages vb SEV_SNP_COMPAT g
      \<or> launch_break sha (file_pages vb SEV_SNP_COMPAT f) (file_pages vb SEV_SNP_COMPAT g)"
    by (rule page_lists_bind)
      (use f g ff gg assms(3) measure_snp_pages [OF f(2) ff(2)] measure_snp_pages [OF g(2) gg(2)] in
        \<open>auto intro: file_pages_ok\<close>)
  then show ?thesis using f(1) g(1) by blast
qed


text \<open>
  A build for the native platform alone never succeeds: the measurement that follows every build looks for an
  SNP platform in the file and fails.
\<close>

theorem native_build_fails:
  assumes "cfg_platform c = Native"
  shows "\<exists>e. build_igvm sha vb validate serialize c = Inl e"
proof (cases "build_file validate c")
  case (Inr f)
  have "\<not> use_snp c" using assms by (simp add: use_snp_def)
  from build_file_native [OF Inr this] show ?thesis
    using Inr by (simp add: build_igvm_def measure_snp_def)
qed (simp add: build_igvm_def)


section \<open>Witnesses\<close>

text \<open>A configuration with four processors, a kernel and firmware that has room for it.\<close>

lemma sample_config:
  "\<exists>c. use_snp c \<and> config_fits c \<and> buildable c \<and> cfg_kernel c = Some [k] \<and> cfg_shim c = None \<and> cfg_smp c = 4
     \<and> (\<forall>m. ovmf_meta_new (cfg_firmware c) = Some m \<longrightarrow> regions_above_zero m)"
proof -
  obtain firmware m where fw: "length firmware = 194" "ovmf_meta_new firmware = Some m"
      "sev_reset_addr m = Some 0x80b004"
      "regions m = [\<lparr> r_base = 0x800000, r_size = 0x9000, etype = SevMemory \<rparr>,
        \<lparr> r_base = 0x809000, r_size = 0x1000, etype = IgvmHobArea \<rparr>]"
    using sample_firmware [of "0x200" IgvmHobArea] by (auto simp: region_new_igvm_def)
  define c where "c = \<lparr> cfg_firmware = firmware, cfg_vars = None, cfg_kernel = Some [k], cfg_shim = None,
      cfg_pk = None, cfg_kek = None, cfg_db = None, cfg_dbx = None, cfg_platform = Snp,
      cfg_boot = Real16, cfg_smp = 4 \<rparr>"
  have "config_fits c"
    using fw(1) by (simp add: config_fits_def config_blobs_def opt_blob_def c_def data_list_new_def
        data_list_add_def next_multiple_of_def u64_limit_def hobs_def Let_def data_hob_bytes_def header_bytes_def
        data_hob_new_def EFI_IGVM_DATA_HOB_GUID_def guid_def hex_val_def subslice_def)
  moreover have "buildable c"
    using fw by (simp add: buildable_def c_def)
  moreover have "regions_above_zero m" using fw(4) by (simp add: regions_above_zero_def)
  ultimately show ?thesis
    using fw(2) by (intro exI [of _ c]) (simp add: c_def use_snp_def)
qed


text \<open>The sample configuration builds, whatever the hash function.\<close>

lemma sample_build:
  "\<exists>c. use_snp c \<and> config_fits c \<and> cfg_kernel c = Some [k] \<and> cfg_shim c = None \<and> cfg_smp c = 4
     \<and> (\<forall>m. ovmf_meta_new (cfg_firmware c) = Some m \<longrightarrow> regions_above_zero m)
     \<and> (\<exists>f. build_file (\<lambda>_. None) c = Inr f
       \<and> (\<forall>sha vb. \<exists>r. build_igvm sha vb (\<lambda>_. None) (\<lambda>_. Inr []) c = Inr r))"
proof -
  obtain c where c: "use_snp c" "config_fits c" "buildable c" "cfg_kernel c = Some [k]" "cfg_shim c = None"
      "cfg_smp c = 4" "\<forall>m. ovmf_meta_new (cfg_firmware c) = Some m \<longrightarrow> regions_above_zero m"
    using sample_config by blast
  obtain f where f: "build_file (\<lambda>_. None) c = Inr f" using build_file_returns [OF c(1,2)] c(3) by blast
  have "\<exists>r. build_igvm sha vb (\<lambda>_. None) (\<lambda>_. Inr []) c = Inr r" for sha vb
    using built_file_measured [OF f c(1,2), of sha vb] c(7) f by (auto simp: build_igvm_def)
  then show ?thesis using c f by blast
qed

lemma build_measures_file_witness:
  "\<forall>sha vb. \<exists>c r. cfg_kernel c = Some [1] \<and> build_igvm sha vb (\<lambda>_. None) (\<lambda>_. Inr []) c = Inr r
     \<and> vmsa_count (result_measurement r) = 4"
proof (intro allI)
  fix sha vb
  obtain c r where c: "use_snp c" "config_fits c" "cfg_kernel c = Some [1]" "cfg_smp c = 4"
      "\<forall>m. ovmf_meta_new (cfg_firmware c) = Some m \<longrightarrow> regions_above_zero m"
      "build_igvm sha vb (\<lambda>_. None) (\<lambda>_. Inr []) c = Inr r"
    using sample_build [of 1] by blast
  show "\<exists>c r. cfg_kernel c = Some [1] \<and> build_igvm sha vb (\<lambda>_. None) (\<lambda>_. Inr []) c = Inr r
     \<and> vmsa_count (result_measurement r) = 4"
    using build_measures_file [OF c(6,1,2,5)] c by (intro exI [of _ c] exI [of _ r]) auto
qed

lemma equal_builds_equal_pages_witness:
  "\<exists>c c' f f'. cfg_kernel c = Some [1] \<and> cfg_kernel c' = Some [2]
     \<and> build_file (\<lambda>_. None) c = Inr f \<and> build_file (\<lambda>_. None) c' = Inr f'
     \<and> (file_pages (\<lambda>_. []) SEV_SNP_COMPAT f = file_pages (\<lambda>_. []) SEV_SNP_COMPAT f'
       \<or> launch_break (\<lambda>_. 0) (file_pages (\<lambda>_. []) SEV_SNP_COMPAT f) (file_pages (\<lambda>_. []) SEV_SNP_COMPAT f'))"
proof -
  let ?sha = "(\<lambda>_. 0) :: bytes \<Rightarrow> digest" and ?vb = "(\<lambda>_. []) :: sev_vmsa \<Rightarrow> bytes"
  have zero: "launch_digest (result_measurement r) = zeros 48"
    if b: "build_igvm ?sha ?vb (\<lambda>_. None) (\<lambda>_. Inr []) c = Inr r" and fits: "use_snp c" "config_fits c"
      "\<forall>m. ovmf_meta_new (cfg_firmware c) = Some m \<longrightarrow> regions_above_zero m" for c r
  proof -
    obtain f where f: "build_file (\<lambda>_. None) c = Inr f" "measure_snp ?sha ?vb f = Inr (result_measurement r)"
      using build_igvm_Inr [OF b] by blast
    have "inserts_first (file_directives f)"
      by (rule build_file_snp(2) [OF f(1) fits(1,2)]) (use fits(3) in blast)
    from measure_snp_pages [OF f(2) this] show ?thesis by (auto simp: page_chain_zero)
  qed
  obtain c r where c: "use_snp c" "config_fits c" "cfg_kernel c = Some [1]"
      "\<forall>m. ovmf_meta_new (cfg_firmware c) = Some m \<longrightarrow> regions_above_zero m"
      "build_igvm ?sha ?vb (\<lambda>_. None) (\<lambda>_. Inr []) c = Inr r"
    using sample_build [of 1] by blast
  obtain c' r' where c': "use_snp c'" "config_fits c'" "cfg_kernel c' = Some [2]"
      "\<forall>m. ovmf_meta_new (cfg_firmware c') = Some m \<longrightarrow> regions_above_zero m"
      "build_igvm ?sha ?vb (\<lambda>_. None) (\<lambda>_. Inr []) c' = Inr r'"
    using sample_build [of 2] by blast
  have "launch_digest (result_measurement r) = launch_digest (result_measurement r')"
    using zero [OF c(5,1,2,4)] zero [OF c'(5,1,2,4)] by simp
  from equal_builds_equal_pages [OF c(5) c'(5) this c(1) c'(1) c(2) c'(2) c(4) c'(4)]
  show ?thesis using c(3) c'(3) by blast
qed


lemma native_build_fails_witness:
  "\<forall>sha vb. \<exists>e. build_igvm sha vb (\<lambda>_. None) (\<lambda>_. Inr [])
     \<lparr> cfg_firmware = zeros 4096, cfg_vars = None, cfg_kernel = None, cfg_shim = None, cfg_pk = None,
       cfg_kek = None, cfg_db = None, cfg_dbx = None, cfg_platform = Native, cfg_boot = Flat32,
       cfg_smp = 1 \<rparr> = Inl e"
  by (intro allI native_build_fails) simp

end
