(* ===== verification/IgvmCli.thy ===== *)
theory IgvmCli
  imports IgvmCorrect
begin

text \<open>
  \<open>crates/igvm-tools/src/main.rs\<close> and \<open>manifest.rs\<close>: the two commands of the tool.  A command is a
  function from the operating system (a parameter: what reading a path gives, what running \<open>ukify\<close>
  gives, which writes fail) to its result and the list of its effects, in order.  \<open>igvm\<close> file parsing and
  writing, JSON, SHA-256 and the clock are parameters; text on standard error is not modelled.
\<close>

section \<open>Arguments\<close>

datatype cli_platform = CliSnp | CliNative | CliSnpNative

datatype cli_boot_mode = CliReal16 | CliFlat32

record build_args =
  arg_firmware :: string
  arg_vars :: "string option"
  arg_kernel :: "string option"
  arg_cmdline :: "string option"
  arg_initrd :: "string option"
  arg_shim :: "string option"
  arg_pk :: "string option"
  arg_kek :: "string option"
  arg_db :: "string option"
  arg_dbx :: "string option"
  arg_platform :: cli_platform
  arg_boot_mode :: cli_boot_mode
  arg_smp :: nat
  arg_output :: string
  arg_manifest :: "string option"

text \<open>The names clap gives to the values, and their \<open>Debug\<close> form in lower case.\<close>

definition cli_platform_name :: "cli_platform \<Rightarrow> string" where
  "cli_platform_name p = (case p of CliSnp \<Rightarrow> ''snp'' | CliNative \<Rightarrow> ''native'' | CliSnpNative \<Rightarrow> ''snp+native'')"

definition debug_platform :: "cli_platform \<Rightarrow> string" where
  "debug_platform p = (case p of CliSnp \<Rightarrow> ''Snp'' | CliNative \<Rightarrow> ''Native'' | CliSnpNative \<Rightarrow> ''SnpNative'')"

definition debug_boot_mode :: "cli_boot_mode \<Rightarrow> string" where
  "debug_boot_mode m = (case m of CliReal16 \<Rightarrow> ''Real16'' | CliFlat32 \<Rightarrow> ''Flat32'')"

definition config_platform :: "cli_platform \<Rightarrow> platform" where
  "config_platform p = (case p of CliSnp \<Rightarrow> Snp | CliNative \<Rightarrow> Native | CliSnpNative \<Rightarrow> SnpNative)"

definition config_boot :: "cli_boot_mode \<Rightarrow> vcpu_boot" where
  "config_boot m = (case m of CliReal16 \<Rightarrow> Real16 | CliFlat32 \<Rightarrow> Flat32)"

section \<open>The manifest\<close>

record file_info =
  info_path :: string
  info_sha256 :: string

record measurement_info =
  snp_launch_digest :: string
  info_algorithm :: string
  info_page_count :: nat
  info_vmsa_count :: nat

record manifest_config =
  mc_platform :: string
  mc_boot_mode :: string
  mc_smp :: nat
  mc_cmdline :: "string option"

record input_files =
  in_firmware :: file_info
  in_vars :: "file_info option"
  in_kernel :: "file_info option"
  in_shim :: "file_info option"

record manifest =
  manifest_version :: nat
  igvm_file_path :: string
  igvm_sha256 :: string
  manifest_measurement :: measurement_info
  manifest_config :: manifest_config
  manifest_inputs :: input_files
  generated_at :: string

definition sha256_hex :: "(bytes \<Rightarrow> bytes) \<Rightarrow> bytes \<Rightarrow> string" where
  "sha256_hex sha256 data = hex_encode (sha256 data)"

section \<open>Effects\<close>

datatype effect =
    Spawn "string list"
  | RemoveFile string
  | WriteFile string bytes
  | PrintLine string

type_synonym 'a run = "effect list \<Rightarrow> (string fault + 'a) \<times> effect list"

definition pure_run :: "string fault + 'a \<Rightarrow> 'a run" where
  "pure_run r = (\<lambda>es. (r, es))"

definition emit :: "effect \<Rightarrow> unit run" where
  "emit e = (\<lambda>es. (Inr (), es @ [e]))"

definition then_run :: "'a run \<Rightarrow> ('a \<Rightarrow> 'b run) \<Rightarrow> 'b run" where
  "then_run m f = (\<lambda>es. case m es of (Inl e, es') \<Rightarrow> (Inl e, es') | (Inr x, es') \<Rightarrow> f x es')"

lemma run_simps [simp]:
  "pure_run r es = (r, es)"
  "emit ef es = (Inr (), es @ [ef])"
  "m es = (Inl e, es') \<Longrightarrow> then_run m f es = (Inl e, es')"
  "m es = (Inr x, es') \<Longrightarrow> then_run m f es = f x es'"
  by (simp_all add: pure_run_def emit_def then_run_def)

lemma then_run_eq_Inr:
  "then_run m f es = (Inr y, fin) \<longleftrightarrow> (\<exists>x es'. m es = (Inr x, es') \<and> f x es' = (Inr y, fin))"
  by (auto simp: then_run_def split: prod.splits sum.splits)

text \<open>
  The operating system: reading a path (the error is its text), running \<open>ukify\<close> with its exit status and the
  content of its output file, writes, and the directory and process number in the temporary name.
\<close>

record os =
  os_read :: "string \<Rightarrow> string + bytes"
  os_spawn :: "string list \<Rightarrow> string + bool"
  os_read_uki :: "string list \<Rightarrow> string \<Rightarrow> string + bytes"
  os_write :: "string \<Rightarrow> bytes \<Rightarrow> string option"
  os_temp_dir :: string
  os_pid :: nat

definition read_file :: "os \<Rightarrow> string \<Rightarrow> string \<Rightarrow> string fault + bytes" where
  "read_file os label path =
     (case os_read os path of
        Inl e \<Rightarrow> bail (''read '' @ label @ path @ '': '' @ e)
      | Inr data \<Rightarrow> Inr data)"

definition read_optional_file :: "os \<Rightarrow> string option \<Rightarrow> string \<Rightarrow> string fault + bytes option" where
  "read_optional_file os path label =
     (case path of
        None \<Rightarrow> Inr None
      | Some p \<Rightarrow> and_then (read_file os (label @ '' '') p) (\<lambda>data. Inr (Some data)))"

definition write_file :: "os \<Rightarrow> string \<Rightarrow> bytes \<Rightarrow> unit run" where
  "write_file os path data =
     (case os_write os path data of
        Some e \<Rightarrow> pure_run (bail (''write '' @ path @ '': '' @ e))
      | None \<Rightarrow> emit (WriteFile path data))"

section \<open>Building\<close>

definition uki_path :: "os \<Rightarrow> string" where
  "uki_path os = os_temp_dir os @ ''/igvm-uki-'' @ nat_digits 10 (os_pid os) @ ''.efi''"

definition ukify_args :: "os \<Rightarrow> string \<Rightarrow> string \<Rightarrow> string option \<Rightarrow> string list" where
  "ukify_args os linux cmdline initrd =
     [''ukify'', ''build'', ''--linux'', linux, ''--cmdline'', cmdline, ''--output'', uki_path os]
     @ (case initrd of None \<Rightarrow> [] | Some i \<Rightarrow> [''--initrd'', i])"

definition build_uki :: "os \<Rightarrow> string \<Rightarrow> string \<Rightarrow> string option \<Rightarrow> bytes run" where
  "build_uki os linux cmdline initrd =
     (let argv = ukify_args os linux cmdline initrd in
      then_run (emit (Spawn argv)) (\<lambda>_.
      case os_spawn os argv of
        Inl e \<Rightarrow> pure_run (bail (''run ukify (is systemd-ukify installed?): '' @ e))
      | Inr success \<Rightarrow>
          if \<not> success then pure_run (bail (''ukify failed to assemble a UKI from '' @ linux))
          else
            (case os_read_uki os argv (uki_path os) of
               Inl e \<Rightarrow> pure_run (bail (''read UKI '' @ uki_path os @ '': '' @ e))
             | Inr data \<Rightarrow> then_run (emit (RemoveFile (uki_path os))) (\<lambda>_. pure_run (Inr data)))))"

definition uki_blob :: "os \<Rightarrow> build_args \<Rightarrow> bytes option run" where
  "uki_blob os args =
     (case arg_cmdline args of
        Some cmdline \<Rightarrow>
          (case arg_kernel args of
             None \<Rightarrow> pure_run (bail ''--cmdline requires --kernel (the plain kernel image to wrap)'')
           | Some linux \<Rightarrow>
               then_run (build_uki os linux cmdline (arg_initrd args)) (\<lambda>uki. pure_run (Inr (Some uki))))
      | None \<Rightarrow>
          if arg_initrd args \<noteq> None
          then pure_run (bail ''--initrd requires --cmdline (it is embedded in the UKI)'')
          else pure_run (Inr None))"

record build_inputs =
  bi_firmware :: bytes
  bi_vars :: "bytes option"
  bi_kernel_file :: "bytes option"
  bi_shim :: "bytes option"
  bi_uki :: "bytes option"
  bi_pk :: "bytes option"
  bi_kek :: "bytes option"
  bi_db :: "bytes option"
  bi_dbx :: "bytes option"

definition gather_inputs :: "os \<Rightarrow> build_args \<Rightarrow> build_inputs run" where
  "gather_inputs os args =
     then_run (pure_run (read_file os ''firmware '' (arg_firmware args))) (\<lambda>firmware.
     then_run (pure_run (read_optional_file os (arg_vars args) ''vars'')) (\<lambda>vars.
     then_run (pure_run (read_optional_file os (arg_kernel args) ''kernel'')) (\<lambda>kernel_file.
     then_run (pure_run (read_optional_file os (arg_shim args) ''shim'')) (\<lambda>shim.
     then_run (uki_blob os args) (\<lambda>uki.
     then_run (pure_run (read_optional_file os (arg_pk args) ''pk'')) (\<lambda>pk.
     then_run (pure_run (read_optional_file os (arg_kek args) ''kek'')) (\<lambda>kek.
     then_run (pure_run (read_optional_file os (arg_db args) ''db'')) (\<lambda>db.
     then_run (pure_run (read_optional_file os (arg_dbx args) ''dbx'')) (\<lambda>dbx.
     pure_run (Inr \<lparr> bi_firmware = firmware, bi_vars = vars, bi_kernel_file = kernel_file, bi_shim = shim,
       bi_uki = uki, bi_pk = pk, bi_kek = kek, bi_db = db, bi_dbx = dbx \<rparr>))))))))))"

definition config_of :: "build_args \<Rightarrow> build_inputs \<Rightarrow> build_config" where
  "config_of args i =
     \<lparr> cfg_firmware = bi_firmware i, cfg_vars = bi_vars i,
       cfg_kernel = (case bi_uki i of Some uki \<Rightarrow> Some uki | None \<Rightarrow> bi_kernel_file i),
       cfg_shim = bi_shim i, cfg_pk = bi_pk i, cfg_kek = bi_kek i, cfg_db = bi_db i, cfg_dbx = bi_dbx i,
       cfg_platform = config_platform (arg_platform args), cfg_boot = config_boot (arg_boot_mode args),
       cfg_smp = arg_smp args \<rparr>"

text \<open>\<open>expect\<close> on the path of an input that was read.\<close>

definition input_info ::
  "(bytes \<Rightarrow> bytes) \<Rightarrow> bytes option \<Rightarrow> string option \<Rightarrow> string fault + file_info option" where
  "input_info sha256 data path =
     (case data of
        None \<Rightarrow> Inr None
      | Some d \<Rightarrow>
          (case path of
             None \<Rightarrow> panic
           | Some p \<Rightarrow> Inr (Some \<lparr> info_path = p, info_sha256 = sha256_hex sha256 d \<rparr>)))"

definition build_manifest ::
  "(bytes \<Rightarrow> bytes) \<Rightarrow> string \<Rightarrow> build_args \<Rightarrow> build_inputs \<Rightarrow> build_result \<Rightarrow> string fault + manifest" where
  "build_manifest sha256 now args i r =
     and_then (input_info sha256 (bi_vars i) (arg_vars args)) (\<lambda>vars.
     and_then (input_info sha256 (bi_kernel_file i) (arg_kernel args)) (\<lambda>kern.
     and_then (input_info sha256 (bi_shim i) (arg_shim args)) (\<lambda>shim.
     Inr \<lparr> manifest_version = 1, igvm_file_path = arg_output args,
       igvm_sha256 = sha256_hex sha256 (igvm_bytes r),
       manifest_measurement = \<lparr> snp_launch_digest = hex_encode (launch_digest (result_measurement r)),
         info_algorithm = ''sha384'', info_page_count = result_pages (result_measurement r),
         info_vmsa_count = vmsa_count (result_measurement r) \<rparr>,
       manifest_config = \<lparr> mc_platform = map ascii_lower (debug_platform (arg_platform args)),
         mc_boot_mode = map ascii_lower (debug_boot_mode (arg_boot_mode args)), mc_smp = arg_smp args,
         mc_cmdline = arg_cmdline args \<rparr>,
       manifest_inputs = \<lparr> in_firmware = \<lparr> info_path = arg_firmware args,
           info_sha256 = sha256_hex sha256 (bi_firmware i) \<rparr>,
         in_vars = vars, in_kernel = kern, in_shim = shim \<rparr>,
       generated_at = now \<rparr>)))"

text \<open>The libraries the tool calls: hashes, the \<open>igvm\<close> crate, JSON and the clock.\<close>

record igvm_lib =
  lib_sha384 :: "bytes \<Rightarrow> digest"
  lib_sha256 :: "bytes \<Rightarrow> bytes"
  lib_vmsa_bytes :: "sev_vmsa \<Rightarrow> bytes"
  lib_validate :: "igvm_file \<Rightarrow> string option"
  lib_serialize :: "igvm_file \<Rightarrow> string + bytes"
  lib_parse :: "bytes \<Rightarrow> string + igvm_file"
  lib_json :: "manifest \<Rightarrow> string + bytes"
  lib_now :: string

definition write_manifest ::
  "igvm_lib \<Rightarrow> os \<Rightarrow> build_args \<Rightarrow> build_inputs \<Rightarrow> build_result \<Rightarrow> string \<Rightarrow> unit run" where
  "write_manifest lib os args i r path =
     then_run (pure_run (build_manifest (lib_sha256 lib) (lib_now lib) args i r)) (\<lambda>m.
     case lib_json lib m of
       Inl e \<Rightarrow> pure_run (bail (''serialize manifest: '' @ e))
     | Inr json \<Rightarrow> write_file os path json)"

definition do_build :: "igvm_lib \<Rightarrow> os \<Rightarrow> build_args \<Rightarrow> unit run" where
  "do_build lib os args =
     then_run (gather_inputs os args) (\<lambda>i.
     then_run (pure_run (build_igvm (lib_sha384 lib) (lib_vmsa_bytes lib) (lib_validate lib) (lib_serialize lib)
       (config_of args i))) (\<lambda>r.
     then_run (write_file os (arg_output args) (igvm_bytes r)) (\<lambda>_.
     then_run (case arg_manifest args of
         None \<Rightarrow> pure_run (Inr ())
       | Some path \<Rightarrow> write_manifest lib os args i r path) (\<lambda>_.
     emit (PrintLine (hex_encode (launch_digest (result_measurement r))))))))"

section \<open>Measuring\<close>

definition do_measure :: "igvm_lib \<Rightarrow> os \<Rightarrow> string \<Rightarrow> unit run" where
  "do_measure lib os path =
     then_run (pure_run (read_file os '''' path)) (\<lambda>blob.
     case lib_parse lib blob of
       Inl e \<Rightarrow> pure_run (bail (''parse igvm: '' @ e))
     | Inr igvm \<Rightarrow>
         then_run (pure_run (measure_snp (lib_sha384 lib) (lib_vmsa_bytes lib) igvm)) (\<lambda>r.
         emit (PrintLine (hex_encode (launch_digest r)))))"

datatype command = Build build_args | Measure string

datatype exit_code = ExitSuccess | ExitFailure

text \<open>\<open>main\<close>: the exit code and the effects of a command; a panic has no exit code.\<close>

definition cli_main :: "igvm_lib \<Rightarrow> os \<Rightarrow> command \<Rightarrow> exit_code option \<times> effect list" where
  "cli_main lib os command =
     (case (case command of Build args \<Rightarrow> do_build lib os args [] | Measure path \<Rightarrow> do_measure lib os path []) of
        (Inr (), es) \<Rightarrow> (Some ExitSuccess, es)
      | (Inl (Err _), es) \<Rightarrow> (Some ExitFailure, es)
      | (Inl Panic, es) \<Rightarrow> (None, es))"

section \<open>Facts\<close>

lemma run_case:
  obtains e es' where "m es = (Inl e, es')" | x es' where "m es = (Inr x, es')"
  by (metis surj_pair sumE)

text \<open>Effects only accumulate, and the effects of gathering the inputs write no file.\<close>

definition writes_nothing :: "'a run \<Rightarrow> bool" where
  "writes_nothing m \<longleftrightarrow> (\<forall>es r es'. m es = (r, es') \<longrightarrow>
     (\<exists>new. es' = es @ new \<and> list_all (\<lambda>e. \<forall>p d. e \<noteq> WriteFile p d) new))"

lemma writes_nothing_pure [simp]: "writes_nothing (pure_run r)"
  by (simp add: writes_nothing_def)

lemma writes_nothing_emit [simp]: "writes_nothing (emit e) \<longleftrightarrow> (\<forall>p d. e \<noteq> WriteFile p d)"
  by (simp add: writes_nothing_def)

lemma writes_nothing_then:
  assumes "writes_nothing m" and "\<And>x. writes_nothing (f x)"
  shows "writes_nothing (then_run m f)"
  unfolding writes_nothing_def
proof (intro allI impI)
  fix es r es'
  assume *: "then_run m f es = (r, es')"
  obtain q mid where m: "m es = (q, mid)" by fastforce
  then obtain new where new: "mid = es @ new" "list_all (\<lambda>e. \<forall>p d. e \<noteq> WriteFile p d) new"
    using assms(1) unfolding writes_nothing_def by blast
  show "\<exists>new. es' = es @ new \<and> list_all (\<lambda>e. \<forall>p d. e \<noteq> WriteFile p d) new"
  proof (cases q)
    case (Inl e)
    then show ?thesis using * m new by auto
  next
    case (Inr x)
    then obtain new' where "es' = mid @ new'" "list_all (\<lambda>e. \<forall>p d. e \<noteq> WriteFile p d) new'"
      using assms(2) [of x] * m unfolding writes_nothing_def by fastforce
    then show ?thesis using new by auto
  qed
qed

lemma build_uki_writes_nothing: "writes_nothing (build_uki os linux cmdline initrd)"
  by (auto simp: build_uki_def Let_def intro!: writes_nothing_then split: sum.splits)

lemma uki_blob_writes_nothing: "writes_nothing (uki_blob os args)"
  by (auto simp: uki_blob_def intro!: writes_nothing_then build_uki_writes_nothing split: option.splits)

lemma gather_inputs_writes_nothing: "writes_nothing (gather_inputs os args)"
  unfolding gather_inputs_def
  by (intro writes_nothing_then uki_blob_writes_nothing writes_nothing_pure)

lemma gathered_paths:
  assumes "gather_inputs os args es = (Inr i, es')"
  shows "read_optional_file os (arg_vars args) ''vars'' = Inr (bi_vars i)"
    "read_optional_file os (arg_kernel args) ''kernel'' = Inr (bi_kernel_file i)"
    "read_optional_file os (arg_shim args) ''shim'' = Inr (bi_shim i)"
    "os_read os (arg_firmware args) = Inr (bi_firmware i)"
  using assms
  by (auto simp: gather_inputs_def then_run_eq_Inr read_file_def split: sum.splits)

lemma input_info_returns:
  "read_optional_file os path label = Inr data \<Longrightarrow>
     input_info sha256 data path = Inr (case (data, path) of
       (Some d, Some p) \<Rightarrow> Some \<lparr> info_path = p, info_sha256 = sha256_hex sha256 d \<rparr> | _ \<Rightarrow> None)"
  by (cases path) (auto simp: input_info_def read_optional_file_def)

lemma build_manifest_returns:
  assumes "gather_inputs os args es = (Inr i, es')"
  shows "\<exists>m. build_manifest sha256 now args i r = Inr m
    \<and> igvm_file_path m = arg_output args \<and> igvm_sha256 m = sha256_hex sha256 (igvm_bytes r)
    \<and> snp_launch_digest (manifest_measurement m) = hex_encode (launch_digest (result_measurement r))
    \<and> in_firmware (manifest_inputs m) = \<lparr> info_path = arg_firmware args,
        info_sha256 = sha256_hex sha256 (bi_firmware i) \<rparr>"
  using gathered_paths(1-3) [OF assms, THEN input_info_returns, of sha256]
  by (simp add: build_manifest_def)

lemma do_build_success:
  assumes "do_build lib os args [] = (Inr (), es)"
  obtains i es1 r where "gather_inputs os args [] = (Inr i, es1)"
    "build_igvm (lib_sha384 lib) (lib_vmsa_bytes lib) (lib_validate lib) (lib_serialize lib) (config_of args i) = Inr r"
    "es = es1 @ [WriteFile (arg_output args) (igvm_bytes r)]
      @ (case arg_manifest args of None \<Rightarrow> []
         | Some path \<Rightarrow> [WriteFile path (projr (lib_json lib
             (projr (build_manifest (lib_sha256 lib) (lib_now lib) args i r))))])
      @ [PrintLine (hex_encode (launch_digest (result_measurement r)))]"
proof -
  obtain i es1 where i: "gather_inputs os args [] = (Inr i, es1)"
    and 1: "then_run (pure_run (build_igvm (lib_sha384 lib) (lib_vmsa_bytes lib) (lib_validate lib)
        (lib_serialize lib) (config_of args i))) (\<lambda>r.
      then_run (write_file os (arg_output args) (igvm_bytes r)) (\<lambda>_.
      then_run (case arg_manifest args of
         None \<Rightarrow> pure_run (Inr ())
       | Some path \<Rightarrow> write_manifest lib os args i r path) (\<lambda>_.
      emit (PrintLine (hex_encode (launch_digest (result_measurement r))))))) es1 = (Inr (), es)"
    using assms unfolding do_build_def then_run_eq_Inr by blast
  obtain r where r: "build_igvm (lib_sha384 lib) (lib_vmsa_bytes lib) (lib_validate lib)
        (lib_serialize lib) (config_of args i) = Inr r"
    and 2: "then_run (write_file os (arg_output args) (igvm_bytes r)) (\<lambda>_.
      then_run (case arg_manifest args of
         None \<Rightarrow> pure_run (Inr ())
       | Some path \<Rightarrow> write_manifest lib os args i r path) (\<lambda>_.
      emit (PrintLine (hex_encode (launch_digest (result_measurement r)))))) es1 = (Inr (), es)"
    using 1 unfolding then_run_eq_Inr run_simps(1) by auto
  have written: "es' = es0 @ [WriteFile p d]" if "write_file os p d es0 = (Inr (), es')" for p d es0 es'
    using that by (auto simp: write_file_def split: option.splits)
  show thesis
  proof (cases "arg_manifest args")
    case None
    then show thesis
      using that [OF i r] 2 written by (auto simp: then_run_eq_Inr)
  next
    case (Some path)
    obtain m where m: "build_manifest (lib_sha256 lib) (lib_now lib) args i r = Inr m"
      using build_manifest_returns [OF i] by blast
    obtain es2 es3 where steps: "write_file os (arg_output args) (igvm_bytes r) es1 = (Inr (), es2)"
        "write_manifest lib os args i r path es2 = (Inr (), es3)"
        "es = es3 @ [PrintLine (hex_encode (launch_digest (result_measurement r)))]"
      using 2 Some by (auto simp: then_run_eq_Inr)
    obtain json where json: "lib_json lib m = Inr json" "write_file os path json es2 = (Inr (), es3)"
      using m steps(2) by (auto simp: write_manifest_def then_run_eq_Inr split: sum.splits)
    then show thesis
      using that [OF i r] written [OF steps(1)] written [OF json(2)] steps(3) json(1) Some m by simp
  qed
qed

section \<open>Properties\<close>

text \<open>
  What a build reports is what it writes: a successful build command writes the image, prints the launch digest
  of that image last, and a requested manifest carries the SHA-256 of the written bytes, the printed digest and the
  SHA-256 of the firmware file.
\<close>

theorem build_output_consistent:
  assumes "do_build lib os args [] = (Inr (), es)"
  shows "\<exists>i r. build_igvm (lib_sha384 lib) (lib_vmsa_bytes lib) (lib_validate lib) (lib_serialize lib)
      (config_of args i) = Inr r
    \<and> os_read os (arg_firmware args) = Inr (bi_firmware i)
    \<and> WriteFile (arg_output args) (igvm_bytes r) \<in> set es
    \<and> last es = PrintLine (hex_encode (launch_digest (result_measurement r)))
    \<and> (\<forall>path. arg_manifest args = Some path \<longrightarrow>
        (\<exists>m. WriteFile path (projr (lib_json lib m)) \<in> set es
          \<and> igvm_file_path m = arg_output args \<and> igvm_sha256 m = sha256_hex (lib_sha256 lib) (igvm_bytes r)
          \<and> last es = PrintLine (snp_launch_digest (manifest_measurement m))
          \<and> info_sha256 (in_firmware (manifest_inputs m)) = sha256_hex (lib_sha256 lib) (bi_firmware i)))"
proof -
  obtain i es1 r where i: "gather_inputs os args [] = (Inr i, es1)"
    and r: "build_igvm (lib_sha384 lib) (lib_vmsa_bytes lib) (lib_validate lib) (lib_serialize lib)
      (config_of args i) = Inr r"
    and es: "es = es1 @ [WriteFile (arg_output args) (igvm_bytes r)]
      @ (case arg_manifest args of None \<Rightarrow> []
         | Some path \<Rightarrow> [WriteFile path (projr (lib_json lib
             (projr (build_manifest (lib_sha256 lib) (lib_now lib) args i r))))])
      @ [PrintLine (hex_encode (launch_digest (result_measurement r)))]"
    using do_build_success [OF assms] by blast
  obtain m where m: "build_manifest (lib_sha256 lib) (lib_now lib) args i r = Inr m"
      "igvm_file_path m = arg_output args" "igvm_sha256 m = sha256_hex (lib_sha256 lib) (igvm_bytes r)"
      "snp_launch_digest (manifest_measurement m) = hex_encode (launch_digest (result_measurement r))"
      "in_firmware (manifest_inputs m) = \<lparr> info_path = arg_firmware args,
        info_sha256 = sha256_hex (lib_sha256 lib) (bi_firmware i) \<rparr>"
    using build_manifest_returns [OF i] by blast
  have "WriteFile path (projr (lib_json lib m)) \<in> set es" if "arg_manifest args = Some path" for path
    using that es m(1) by simp
  then show ?thesis
    by (intro exI [of _ i] exI [of _ r]) (use r es m gathered_paths(4) [OF i] in auto)
qed


text \<open>
  A build command that fails because of its inputs or of the build writes no file: on every failure, if writes are
  not refused and the manifest can be encoded, no write has been made.
\<close>

theorem failed_build_writes_nothing:
  assumes "do_build lib os args [] = (Inl e, es)"
    and "\<forall>p d. os_write os p d = None" and "\<forall>m. \<exists>json. lib_json lib m = Inr json"
  shows "list_all (\<lambda>e. \<forall>p d. e \<noteq> WriteFile p d) es"
proof -
  obtain q es1 where q: "gather_inputs os args [] = (q, es1)" by fastforce
  then have es1: "list_all (\<lambda>e. \<forall>p d. e \<noteq> WriteFile p d) es1"
    using gather_inputs_writes_nothing [of os args] unfolding writes_nothing_def by fastforce
  show ?thesis
  proof (cases q)
    case (Inl x)
    then show ?thesis using assms(1) q es1 by (simp add: do_build_def)
  next
    case (Inr i)
    let ?b = "build_igvm (lib_sha384 lib) (lib_vmsa_bytes lib) (lib_validate lib) (lib_serialize lib)
      (config_of args i)"
    show ?thesis
    proof (cases ?b)
      case (Inl x)
      then show ?thesis using assms(1) q es1 \<open>q = Inr i\<close> by (simp add: do_build_def)
    next
      case (Inr r)
      have w: "write_file os p d es0 = (Inr (), es0 @ [WriteFile p d])" for p d es0
        using assms(2) by (simp add: write_file_def)
      obtain m where m: "build_manifest (lib_sha256 lib) (lib_now lib) args i r = Inr m"
        using build_manifest_returns q \<open>q = Inr i\<close> by blast
      obtain json where "lib_json lib m = Inr json" using assms(3) by blast
      then have "fst (do_build lib os args []) = Inr ()"
        using q \<open>q = Inr i\<close> Inr w m
        by (cases "arg_manifest args") (simp_all add: do_build_def write_manifest_def)
      then show ?thesis using assms(1) by simp
    qed
  qed
qed

section \<open>Witnesses\<close>

text \<open>A library that writes one image as no bytes and reads it back, and a system with one file.\<close>

definition sample_lib :: "igvm_file \<Rightarrow> igvm_lib" where
  "sample_lib f =
     \<lparr> lib_sha384 = (\<lambda>_. 0), lib_sha256 = (\<lambda>_. zeros 32), lib_vmsa_bytes = (\<lambda>_. []), lib_validate = (\<lambda>_. None),
       lib_serialize = (\<lambda>g. if g = f then Inr [] else Inl ''other file''), lib_parse = (\<lambda>_. Inr f),
       lib_json = (\<lambda>_. Inr [1]), lib_now = ''now'' \<rparr>"

definition sample_os :: "bytes \<Rightarrow> os" where
  "sample_os firmware =
     \<lparr> os_read = (\<lambda>p. if p = ''OVMF.fd'' then Inr firmware else if p = ''vm.igvm'' then Inr []
         else Inl ''not found''),
       os_spawn = (\<lambda>_. Inl ''not found''), os_read_uki = (\<lambda>_ _. Inl ''not found''),
       os_write = (\<lambda>_ _. None), os_temp_dir = ''/tmp'', os_pid = 42 \<rparr>"

definition sample_args :: build_args where
  "sample_args =
     \<lparr> arg_firmware = ''OVMF.fd'', arg_vars = None, arg_kernel = None, arg_cmdline = None, arg_initrd = None,
       arg_shim = None, arg_pk = None, arg_kek = None, arg_db = None, arg_dbx = None, arg_platform = CliSnp,
       arg_boot_mode = CliReal16, arg_smp = 4, arg_output = ''vm.igvm'', arg_manifest = Some ''vm.json'' \<rparr>"

lemma sample_do_build:
  "\<exists>firmware f d. do_build (sample_lib f) (sample_os firmware) sample_args []
     = (Inr (), [WriteFile ''vm.igvm'' [], WriteFile ''vm.json'' [1], PrintLine d])"
proof -
  obtain firmware m where fw: "length firmware = 194" "ovmf_meta_new firmware = Some m"
      "sev_reset_addr m = Some 0x80b004"
      "regions m = [\<lparr> r_base = 0x800000, r_size = 0x9000, etype = SevMemory \<rparr>,
        \<lparr> r_base = 0x809000, r_size = 0x1000, etype = IgvmHobArea \<rparr>]"
    using sample_firmware [of "0x200" IgvmHobArea] by (auto simp: region_new_igvm_def)
  define i where "i = \<lparr> bi_firmware = firmware, bi_vars = None, bi_kernel_file = None, bi_shim = None,
      bi_uki = None, bi_pk = None, bi_kek = None, bi_db = None, bi_dbx = None \<rparr>"
  let ?c = "config_of sample_args i"
  have i: "gather_inputs (sample_os firmware) sample_args [] = (Inr i, [])"
    by (simp add: gather_inputs_def sample_os_def sample_args_def read_file_def read_optional_file_def
        uki_blob_def i_def)
  have c: "use_snp ?c" "config_fits ?c" "buildable ?c"
    using fw by (simp_all add: use_snp_def config_of_def sample_args_def config_platform_def i_def
        config_fits_def config_blobs_def opt_blob_def data_list_new_def u64_limit_def hobs_def
        header_bytes_def buildable_def has_data_def Let_def)
  obtain f where f: "build_file (\<lambda>_. None) ?c = Inr f"
    using build_file_returns [OF c(1,2)] c(3) by blast
  have "\<exists>r. measure_snp (\<lambda>_. 0) (\<lambda>_. []) f = Inr r"
    by (rule built_file_measured [OF f c(1,2)])
      (use fw in \<open>simp add: config_of_def i_def regions_above_zero_def\<close>)
  then obtain r where "build_igvm (\<lambda>_. 0) (\<lambda>_. []) (\<lambda>_. None)
      (\<lambda>g. if g = f then Inr [] else Inl ''other file'') ?c = Inr \<lparr> igvm_bytes = [], result_measurement = r \<rparr>"
    using f by (auto simp: build_igvm_def)
  then have "do_build (sample_lib f) (sample_os firmware) sample_args []
     = (Inr (), [WriteFile ''vm.igvm'' [], WriteFile ''vm.json'' [1], PrintLine (hex_encode (launch_digest r))])"
    using i by (simp add: do_build_def sample_lib_def write_file_def sample_os_def write_manifest_def
        build_manifest_def input_info_def)
      (simp add: sample_args_def write_file_def write_manifest_def build_manifest_def input_info_def i_def)
  then show ?thesis by blast
qed

lemma build_output_consistent_witness:
  "\<exists>firmware f d (m :: manifest) es. do_build (sample_lib f) (sample_os firmware) sample_args [] = (Inr (), es)
     \<and> last es = PrintLine d \<and> snp_launch_digest (manifest_measurement m) = d \<and> igvm_sha256 m = hex_encode (zeros 32)"
proof -
  obtain firmware f d where *: "do_build (sample_lib f) (sample_os firmware) sample_args []
     = (Inr (), [WriteFile ''vm.igvm'' [], WriteFile ''vm.json'' [1], PrintLine d])"
    using sample_do_build by blast
  have "arg_manifest sample_args = Some ''vm.json''" by (simp add: sample_args_def)
  then obtain m :: manifest where "igvm_sha256 m = hex_encode (zeros 32)"
      "PrintLine d = PrintLine (snp_launch_digest (manifest_measurement m))"
    using build_output_consistent [OF *] by (auto simp: sample_lib_def sha256_hex_def)
  then show ?thesis using * by fastforce
qed


lemma failed_build_writes_nothing_witness:
  "\<exists>f e es. do_build (sample_lib f) (sample_os []) (sample_args \<lparr> arg_kernel := Some ''vmlinuz'' \<rparr>) [] = (Inl e, es)
     \<and> list_all (\<lambda>e. \<forall>p d. e \<noteq> WriteFile p d) es"
proof -
  let ?args = "sample_args \<lparr> arg_kernel := Some ''vmlinuz'' \<rparr>"
  fix f
  obtain e es where *: "do_build (sample_lib f) (sample_os []) ?args [] = (Inl e, es)"
    by (simp add: do_build_def gather_inputs_def sample_os_def sample_args_def read_file_def
        read_optional_file_def)
  have "list_all (\<lambda>e. \<forall>p d. e \<noteq> WriteFile p d) es"
    by (rule failed_build_writes_nothing [OF *]) (simp_all add: sample_os_def sample_lib_def)
  then show ?thesis using * by blast
qed

end
