(* ===== verification/OrdMap.thy ===== *)
theory OrdMap
  imports Main "HOL-Library.List_Lexorder" "HOL-Library.Char_ord"
begin

text \<open>
  Maps of the Rust standard library.  \<open>BTreeMap\<close> iterates in key order: an association list that
  insertion keeps sorted, for strings in the order of their bytes.  \<open>HashMap\<close>, whose order the program
  never uses, is a partial function.  The locale states what clients rely on.
\<close>

locale rust_map =
  fixes get :: "'m \<Rightarrow> 'k \<Rightarrow> 'v option"
    and ins :: "'k \<Rightarrow> 'v \<Rightarrow> 'm \<Rightarrow> 'm"
    and emp :: 'm
  assumes get_emp [simp]: "get emp k = None"
    and get_ins [simp]: "get (ins k v m) l = (if l = k then Some v else get m l)"
begin

text \<open>\<open>entry(k).or_insert(v)\<close> keeps a value that is there.\<close>

lemma get_or_insert:
  "get (case get m k of None \<Rightarrow> ins k v m | Some _ \<Rightarrow> m) l
    = (if l = k \<and> get m k = None then Some v else get m l)"
  by (auto split: option.splits)

text \<open>\<open>collect\<close>: of several pairs with one key the last one stays.\<close>

lemma get_collect: "get (foldl (\<lambda>m (k, v). ins k v m) m kvs) l
    = (case map_of (rev kvs) l of None \<Rightarrow> get m l | Some v \<Rightarrow> Some v)"
  by (induction kvs arbitrary: m) (auto simp: map_add_def split: option.splits)

end

section \<open>\<open>BTreeMap\<close>\<close>

type_synonym ('k, 'v) btree = "('k \<times> 'v) list"

fun bt_insert :: "'k::linorder \<Rightarrow> 'v \<Rightarrow> ('k, 'v) btree \<Rightarrow> ('k, 'v) btree" where
  "bt_insert k v [] = [(k, v)]"
| "bt_insert k v ((l, w) # m) =
     (if k < l then (k, v) # (l, w) # m else if k = l then (k, v) # m else (l, w) # bt_insert k v m)"

definition bt_get :: "('k, 'v) btree \<Rightarrow> 'k \<Rightarrow> 'v option" where
  "bt_get m k = map_of m k"

definition bt_or_insert :: "'k::linorder \<Rightarrow> 'v \<Rightarrow> ('k, 'v) btree \<Rightarrow> ('k, 'v) btree" where
  "bt_or_insert k v m = (case bt_get m k of None \<Rightarrow> bt_insert k v m | Some _ \<Rightarrow> m)"

definition bt_ok :: "('k::linorder, 'v) btree \<Rightarrow> bool" where
  "bt_ok m \<longleftrightarrow> sorted_wrt (<) (map fst m)"

interpretation bt: rust_map bt_get bt_insert "[] :: ('k::linorder, 'v) btree"
proof
  fix k l :: 'k and v :: 'v and m
  show "bt_get [] k = (None :: 'v option)" by (simp add: bt_get_def)
  show "bt_get (bt_insert k v m) l = (if l = k then Some v else bt_get m l)"
    by (induction m) (auto simp: bt_get_def)
qed

lemma bt_get_or_insert [simp]:
  "bt_get (bt_or_insert k v m) l = (if l = k \<and> bt_get m k = None then Some v else bt_get m l)"
  unfolding bt_or_insert_def by (rule bt.get_or_insert)

lemma bt_get_filter: "bt_get (filter (\<lambda>(l, _). P l) m) k = (if P k then bt_get m k else None)"
  by (induction m) (auto simp: bt_get_def)

lemma bt_insert_keys: "set (map fst (bt_insert k v m)) = insert k (set (map fst m))"
  by (induction k v m rule: bt_insert.induct) (simp_all add: insert_commute)

lemma bt_ok_insert: "bt_ok m \<Longrightarrow> bt_ok (bt_insert k v m)"
proof (induction m)
  case (Cons x m)
  obtain l w where x: "x = (l, w)" by fastforce
  then show ?case
    using Cons bt_insert_keys [of k v m] by (auto simp: bt_ok_def)
qed (simp add: bt_ok_def)

lemma bt_ok_or_insert: "bt_ok m \<Longrightarrow> bt_ok (bt_or_insert k v m)"
  by (auto simp: bt_or_insert_def bt_ok_insert split: option.splits)

lemma bt_ok_Nil [simp]: "bt_ok []"
  by (simp add: bt_ok_def)

text \<open>A well-formed map lists each of its bindings once.\<close>

lemma bt_entries: "bt_ok m \<Longrightarrow> (k, v) \<in> set m \<longleftrightarrow> bt_get m k = Some v"
  unfolding bt_get_def bt_ok_def by (simp add: strict_sorted_iff)

section \<open>\<open>HashMap\<close>\<close>

definition hm_empty :: "'k \<rightharpoonup> 'v" where
  "hm_empty = (\<lambda>_. None)"

definition hm_insert :: "'k \<Rightarrow> 'v \<Rightarrow> ('k \<rightharpoonup> 'v) \<Rightarrow> ('k \<rightharpoonup> 'v)" where
  "hm_insert k v m = m(k \<mapsto> v)"

definition hm_collect :: "('k \<times> 'v) list \<Rightarrow> ('k \<rightharpoonup> 'v)" where
  "hm_collect kvs = foldl (\<lambda>m (k, v). hm_insert k v m) hm_empty kvs"

interpretation hm: rust_map "\<lambda>m. m" hm_insert hm_empty
  by unfold_locales (simp_all add: hm_empty_def hm_insert_def)

lemma hm_collect_map_of: "hm_collect kvs k = map_of (rev kvs) k"
  using hm.get_collect [of hm_empty kvs k] unfolding hm_collect_def by (cases "map_of (rev kvs) k") simp_all

end
