(* ===== verification/KConfig.thy ===== *)
theory KConfig
  imports RustStr OrdMap
begin

text \<open>
  \<open>src/kernel/config.rs\<close> and \<open>src/kernel/aml.rs\<close>: the checks on the resolved kernel configuration.  Fragments
  are text files; what they request is compared with the \<open>.config\<close> that the kernel's own tools made of them.
  The steps that produce it are in the theory of the kernel sources.
\<close>

section \<open>Words\<close>

text \<open>\<open>str::split_whitespace\<close>: the maximal runs without white space.\<close>

fun take_word :: "string \<Rightarrow> string \<times> string" where
  "take_word [] = ([], [])"
| "take_word (c # s) =
     (if strip_ws (c # s) \<noteq> None then ([], c # s)
      else case take_word s of (w, rest) \<Rightarrow> (c # w, rest))"

lemma take_word_length: "take_word s = (w, rest) \<Longrightarrow> length s = length w + length rest"
  by (induction s arbitrary: w) (auto split: if_splits prod.splits)

lemma trim_start_length: "length (trim_start s) \<le> length s"
proof (induction s rule: trim_start.induct)
  case (1 s)
  then show ?case
    by (subst trim_start.simps) (force split: option.splits dest: strip_ws_shorter)
qed

lemma trim_start_strip: "strip_ws (trim_start s) = None"
proof (induction s rule: trim_start.induct)
  case (1 s)
  then show ?case by (subst trim_start.simps) (auto split: option.splits)
qed

lemma take_word_nonempty:
  "trim_start s = c # t \<Longrightarrow> length (snd (take_word (trim_start s))) < length s"
  using trim_start_strip [of s] trim_start_length [of s] take_word_length [of t]
  by (cases "take_word t") auto

function split_whitespace :: "string \<Rightarrow> string list" where
  "split_whitespace s =
     (if trim_start s = [] then []
      else fst (take_word (trim_start s)) # split_whitespace (snd (take_word (trim_start s))))"
  by pat_completeness auto
termination
  by (relation "measure length") (auto simp: neq_Nil_conv dest: take_word_nonempty)

declare split_whitespace.simps [simp del]

section \<open>Errors\<close>

datatype mismatch =
    OnGot string | OnDropped | OffGot string | ForcedGot string | ForcedGone

text \<open>
  The errors of this file with what their messages name: the fragment, the line, the symbol, its value.
\<close>

datatype config_error =
    SurroundingSpace string string
  | NoAssignment string string
  | BadSymbol string string
  | NonCanonicalValue string string
  | NonCanonicalMarker string string string
  | PinConflicts "(string \<times> string \<times> string \<times> string) list"
  | MissingOffRequests "(string \<times> string) list"
  | OptionMismatches "(string \<times> string \<times> mismatch) list"
  | ModuleSigKey
  | ModuleSigAll
  | LockdownMissing string string
  | MemoryReader string
  | AmlRequired string string
  | AmlForbidden string

section \<open>Values of the resolved configuration\<close>

definition config_pairs :: "string \<Rightarrow> (string \<times> string) list" where
  "config_pairs config =
     List.map_filter (split_once CHR ''='') (filter (prefix ''CONFIG_'') (str_lines config))"

definition config_values :: "string \<Rightarrow> string \<rightharpoonup> string" where
  "config_values config = hm_collect (config_pairs config)"

section \<open>What fragments request\<close>

datatype request = On string | Off string | Forced string

datatype submitted_request = SubmittedOn | SubmittedOff | SubmittedScalar

record scan_state =
  requested :: "(string, request) btree"
  submitted :: "(string, submitted_request) btree"
  on_pins :: "(string, string \<times> string) btree"
  forced :: "(string, string) btree"

definition scan_init :: scan_state where
  "scan_init = \<lparr> requested = [], submitted = [], on_pins = [], forced = [] \<rparr>"

definition symbol_char :: "char \<Rightarrow> bool" where
  "symbol_char c \<longleftrightarrow> is_ascii_alphanumeric c \<or> c = CHR ''_''"

definition valid_symbol :: "string \<Rightarrow> bool" where
  "valid_symbol symbol =
     (case strip_prefix ''CONFIG_'' symbol of
        None \<Rightarrow> False
      | Some name \<Rightarrow> name \<noteq> [] \<and> list_all symbol_char name)"

definition boolean_like :: "string \<Rightarrow> bool" where
  "boolean_like value =
     (case trim_start value of
        [] \<Rightarrow> False
      | c # _ \<Rightarrow> ascii_lower c \<in> {CHR ''y'', CHR ''m'', CHR ''n''})"

text \<open>The arms of \<open>match value\<close> for \<open>CONFIG_SYMBOL=value\<close>.\<close>

definition request_on :: "string \<Rightarrow> string \<Rightarrow> string \<Rightarrow> scan_state \<Rightarrow> scan_state" where
  "request_on name symbol value st =
     st \<lparr> submitted := bt_insert symbol SubmittedOn (submitted st),
          on_pins := bt_or_insert symbol (name, value) (on_pins st),
          requested := bt_insert symbol (On name) (requested st) \<rparr>"

definition request_off :: "string \<Rightarrow> string \<Rightarrow> scan_state \<Rightarrow> scan_state" where
  "request_off name symbol st =
     st \<lparr> submitted := bt_insert symbol SubmittedOff (submitted st),
          requested := bt_insert symbol (Off name) (requested st) \<rparr>"

definition request_scalar :: "string \<Rightarrow> scan_state \<Rightarrow> scan_state" where
  "request_scalar symbol st = st \<lparr> submitted := bt_insert symbol SubmittedScalar (submitted st) \<rparr>"

definition assert_forced :: "string \<Rightarrow> string \<Rightarrow> scan_state \<Rightarrow> scan_state" where
  "assert_forced name symbol st = st \<lparr> forced := bt_or_insert symbol name (forced st) \<rparr>"

definition scan_assignment ::
  "string \<Rightarrow> string \<Rightarrow> scan_state \<Rightarrow> config_error fault + scan_state" where
  "scan_assignment name line st =
     and_then (ok_or (Err (NoAssignment name line)) (split_once CHR ''='' line)) (\<lambda>(symbol, value).
     if \<not> valid_symbol symbol then bail (BadSymbol name line)
     else if value = ''y'' \<or> value = ''m'' then Inr (request_on name symbol value st)
     else if value = ''n'' then Inr (request_off name symbol st)
     else if boolean_like value then bail (NonCanonicalValue name line)
     else Inr (request_scalar symbol st))"

fun marker_words :: "string list \<Rightarrow> (string \<times> bool) option" where
  "marker_words (symbol # a # b # c # _) =
     (if a = ''is'' \<and> b = ''not'' \<and> c = ''set'' \<and> prefix ''CONFIG_'' symbol then Some (symbol, False)
      else if a = ''is'' \<and> b = ''forced'' \<and> c = ''on'' \<and> prefix ''CONFIG_'' symbol then Some (symbol, True)
      else None)"
| "marker_words _ = None"

definition canonical_marker :: "string \<Rightarrow> bool \<Rightarrow> string" where
  "canonical_marker symbol is_forced =
     (if is_forced then ''# '' @ symbol @ '' is forced on'' else ''# '' @ symbol @ '' is not set'')"

definition scan_marker ::
  "string \<Rightarrow> string \<Rightarrow> scan_state \<Rightarrow> config_error fault + scan_state" where
  "scan_marker name line st =
     (case strip_prefix ''#'' (trim line) of
        None \<Rightarrow> Inr st
      | Some comment \<Rightarrow>
          (case marker_words (split_whitespace comment) of
             None \<Rightarrow> Inr st
           | Some (symbol, is_forced) \<Rightarrow>
               if \<not> valid_symbol symbol then bail (BadSymbol name line)
               else if line \<noteq> canonical_marker symbol is_forced
               then bail (NonCanonicalMarker name line (canonical_marker symbol is_forced))
               else if is_forced then Inr (assert_forced name symbol st)
               else Inr (request_off name symbol st)))"

definition scan_line ::
  "string \<Rightarrow> string \<Rightarrow> scan_state \<Rightarrow> config_error fault + scan_state" where
  "scan_line name line st =
     (if prefix ''CONFIG_'' (trim line) then
        if line \<noteq> trim line then bail (SurroundingSpace name line)
        else scan_assignment name line st
      else scan_marker name line st)"

fun scan_lines ::
  "string \<Rightarrow> string list \<Rightarrow> scan_state \<Rightarrow> config_error fault + scan_state" where
  "scan_lines name [] st = Inr st"
| "scan_lines name (line # ls) st = and_then (scan_line name line st) (scan_lines name ls)"

fun scan_fragments ::
  "(string \<times> string) list \<Rightarrow> scan_state \<Rightarrow> config_error fault + scan_state" where
  "scan_fragments [] st = Inr st"
| "scan_fragments ((name, body) # fs) st =
     and_then (scan_lines name (str_lines body) st) (scan_fragments fs)"

section \<open>Comparing requests with the result\<close>

definition pin_conflicts :: "scan_state \<Rightarrow> (string \<times> string \<times> string \<times> string) list" where
  "pin_conflicts st =
     List.map_filter (\<lambda>(symbol, forced_name).
       map_option (\<lambda>(pin_name, value). (forced_name, symbol, pin_name, value))
         (bt_get (on_pins st) symbol)) (forced st)"

definition missing_off_requests :: "scan_state \<Rightarrow> (string \<times> string) list" where
  "missing_off_requests st =
     map (\<lambda>(symbol, name). (name, symbol))
       (filter (\<lambda>(symbol, _). bt_get (submitted st) symbol \<noteq> Some SubmittedOff) (forced st))"

definition final_requests :: "scan_state \<Rightarrow> (string, request) btree" where
  "final_requests st =
     foldl (\<lambda>m (symbol, name). bt_insert symbol (Forced name) m) (requested st) (forced st)"

definition mismatch_of :: "request \<Rightarrow> string option \<Rightarrow> (string \<times> mismatch) option" where
  "mismatch_of r v =
     (case r of
        On name \<Rightarrow>
          (case v of
             None \<Rightarrow> Some (name, OnDropped)
           | Some x \<Rightarrow> if x = ''y'' then None else Some (name, OnGot x))
      | Off name \<Rightarrow> map_option (\<lambda>x. (name, OffGot x)) v
      | Forced name \<Rightarrow>
          (case v of
             None \<Rightarrow> Some (name, ForcedGone)
           | Some x \<Rightarrow> if x = ''y'' then None else Some (name, ForcedGot x)))"

definition mismatches :: "(string, request) btree \<Rightarrow> (string \<rightharpoonup> string) \<Rightarrow> (string \<times> string \<times> mismatch) list" where
  "mismatches requests resolved =
     List.map_filter (\<lambda>(symbol, r). map_option (\<lambda>(name, m). (name, symbol, m)) (mismatch_of r (resolved symbol)))
       requests"

definition check_fragment_options ::
  "(string \<times> string) list \<Rightarrow> string \<Rightarrow> config_error fault + unit" where
  "check_fragment_options fragments config =
     and_then (scan_fragments fragments scan_init) (\<lambda>st.
     and_then (ensure (pin_conflicts st = []) (Err (PinConflicts (pin_conflicts st)))) (\<lambda>_.
     and_then (ensure (missing_off_requests st = []) (Err (MissingOffRequests (missing_off_requests st)))) (\<lambda>_.
     let ms = mismatches (final_requests st) (config_values config) in
     ensure (ms = []) (Err (OptionMismatches ms)))))"

section \<open>Invariants of every configuration\<close>

definition LOCKDOWN :: "(string \<times> string) list" where
  "LOCKDOWN =
     [(''CONFIG_SECURITY_LOCKDOWN_LSM_EARLY'', ''y''),
      (''CONFIG_LOCK_DOWN_KERNEL_FORCE_CONFIDENTIALITY'', ''y'')]"

definition MEMORY_READERS :: "string list" where
  "MEMORY_READERS = [''CONFIG_DEVMEM'', ''CONFIG_PROC_KCORE'', ''CONFIG_KEXEC_CORE'']"

fun require_values ::
  "(string \<Rightarrow> string \<Rightarrow> config_error) \<Rightarrow> (string \<rightharpoonup> string) \<Rightarrow> (string \<times> string) list
     \<Rightarrow> config_error fault + unit" where
  "require_values e vs [] = Inr ()"
| "require_values e vs ((symbol, value) # rs) =
     (if vs symbol \<noteq> Some value then bail (e symbol value) else require_values e vs rs)"

fun forbid_symbols ::
  "(string \<Rightarrow> config_error) \<Rightarrow> (string option \<Rightarrow> bool) \<Rightarrow> (string \<rightharpoonup> string) \<Rightarrow> string list
     \<Rightarrow> config_error fault + unit" where
  "forbid_symbols e bad vs [] = Inr ()"
| "forbid_symbols e bad vs (symbol # ss) =
     (if bad (vs symbol) then bail (e symbol) else forbid_symbols e bad vs ss)"

definition check_lockdown :: "string \<Rightarrow> config_error fault + unit" where
  "check_lockdown config =
     and_then (require_values LockdownMissing (config_values config) LOCKDOWN) (\<lambda>_.
     forbid_symbols MemoryReader (\<lambda>v. v \<noteq> None) (config_values config) MEMORY_READERS)"

definition AML_REQUIRED :: "(string \<times> string) list" where
  "AML_REQUIRED =
     [(''CONFIG_ACPI'', ''y''), (''CONFIG_ACPI_CUSTOM_DSDT'', ''y''), (''CONFIG_ACPI_TRUSTED_AML'', ''y''),
      (''CONFIG_ACPI_CUSTOM_DSDT_FILE'', [CHR 0x22] @ ''confos-trusted-dsdt.h'' @ [CHR 0x22])]"

definition AML_FORBIDDEN :: "string list" where
  "AML_FORBIDDEN =
     [''CONFIG_ACPI_TABLE_UPGRADE'', ''CONFIG_ACPI_CONFIGFS'', ''CONFIG_EFI_CUSTOM_SSDT_OVERLAYS'',
      ''CONFIG_ACPI_DEBUGGER'']"

definition aml_verify_config :: "string \<Rightarrow> config_error fault + unit" where
  "aml_verify_config config =
     and_then (require_values AmlRequired (config_values config) AML_REQUIRED) (\<lambda>_.
     forbid_symbols AmlForbidden (\<lambda>v. v = Some ''y'' \<or> v = Some ''m'') (config_values config) AML_FORBIDDEN)"

definition has_line :: "string \<Rightarrow> string \<Rightarrow> bool" where
  "has_line config text \<longleftrightarrow> list_ex (\<lambda>l. trim l = text) (str_lines config)"

definition check_builder_invariants :: "string \<Rightarrow> config_error fault + unit" where
  "check_builder_invariants config =
     (if has_line config ''CONFIG_MODULE_SIG=y''
         \<and> \<not> has_line config (''CONFIG_MODULE_SIG_KEY='' @ [CHR 0x22, CHR 0x22])
      then bail ModuleSigKey
      else if has_line config ''CONFIG_MODULE_SIG_ALL=y'' then bail ModuleSigAll
      else and_then (check_lockdown config) (\<lambda>_. aml_verify_config config))"

section \<open>Text of requests\<close>

text \<open>The lines that ask for a symbol, written out.\<close>

definition asks_on :: "string \<Rightarrow> string \<Rightarrow> bool" where
  "asks_on s line \<longleftrightarrow> line = s @ ''=y'' \<or> line = s @ ''=m''"

definition asks_off :: "string \<Rightarrow> string \<Rightarrow> bool" where
  "asks_off s line \<longleftrightarrow> line = s @ ''=n'' \<or> line = ''# '' @ s @ '' is not set''"

definition asserts_forced :: "string \<Rightarrow> string \<Rightarrow> bool" where
  "asserts_forced s line \<longleftrightarrow> line = ''# '' @ s @ '' is forced on''"

definition assigns :: "string \<Rightarrow> string \<Rightarrow> bool" where
  "assigns s line \<longleftrightarrow> prefix (s @ ''='') line"

text \<open>A line that the scan accepts: a canonical assignment, a canonical marker, or neither.\<close>

definition line_ok :: "string \<Rightarrow> bool" where
  "line_ok line \<longleftrightarrow>
     (if prefix ''CONFIG_'' (trim line) then
        line = trim line \<and>
        (case split_once CHR ''='' line of
           None \<Rightarrow> False
         | Some (s, v) \<Rightarrow> valid_symbol s \<and> (v \<in> {''y'', ''m'', ''n''} \<or> \<not> boolean_like v))
      else
        (case strip_prefix ''#'' (trim line) of
           None \<Rightarrow> True
         | Some comment \<Rightarrow>
             (case marker_words (split_whitespace comment) of
                None \<Rightarrow> True
              | Some (s, f) \<Rightarrow> valid_symbol s \<and> line = canonical_marker s f)))"

lemma graphic_append [simp]: "graphic (a @ b) \<longleftrightarrow> graphic a \<and> graphic b"
  by (auto simp: graphic_def)

lemma graphic_Cons [simp]: "graphic (c # s) \<longleftrightarrow> 32 < byte_of c \<and> byte_of c < 128 \<and> graphic s"
  by (auto simp: graphic_def)

lemma graphic_Nil [simp]: "graphic []"
  by (simp add: graphic_def)

lemma symbol_char_graphic: "symbol_char c \<Longrightarrow> 32 < byte_of c \<and> byte_of c < 128"
  by (auto simp: symbol_char_def is_ascii_alphanumeric_def is_ascii_digit_def byte_of_def)

lemma valid_symbol_text:
  assumes "valid_symbol s"
  shows "prefix ''CONFIG_'' s" "graphic s" "CHR ''='' \<notin> set s" "s \<noteq> []"
proof -
  obtain name where s: "s = ''CONFIG_'' @ name" and n: "list_all symbol_char name"
    using assms by (auto simp: valid_symbol_def split: option.splits)
  show "prefix ''CONFIG_'' s" "s \<noteq> []" by (simp_all add: s)
  show "graphic s"
    using n symbol_char_graphic by (auto simp: s graphic_def list_all_iff byte_of_def)
  show "CHR ''='' \<notin> set s"
    using n by (auto simp: s list_all_iff symbol_char_def is_ascii_alphanumeric_def is_ascii_digit_def)
qed

lemma trim_ends: "strip_ws s = None \<Longrightarrow> strip_ws_rev (rev s) = None \<Longrightarrow> trim s = s"
  by (simp add: trim_def trim_start.simps trim_end_rev.simps)

lemma strip_ws_graphic: "32 < byte_of c \<Longrightarrow> byte_of c < 128 \<Longrightarrow> strip_ws (c # s) = None"
  using graphic_no_ws [of "byte_of c"] by (auto simp: strip_ws_def split: list.splits)

lemma strip_ws_rev_graphic: "32 < byte_of c \<Longrightarrow> byte_of c < 128 \<Longrightarrow> strip_ws_rev (c # s) = None"
  using graphic_no_ws [of "byte_of c"] by (auto simp: strip_ws_rev_def split: list.splits)

text \<open>Trimming does not reach into a graphic prefix.\<close>

lemma strip_ws_rev_keeps:
  assumes "strip_ws_rev (x @ rev g) = Some t" and "graphic g"
  shows "\<exists>y. t = y @ rev g"
proof -
  have g: "32 < byte_of c \<and> byte_of c < 128" if "c \<in> set g" for c
    using assms(2) that by (simp add: graphic_def)
  have nw: "\<not> ws1 (byte_of c)" "\<not> ws2 (byte_of c) b" "\<not> ws2 b (byte_of c)" "\<not> ws3 (byte_of c) b d"
    "\<not> ws3 b (byte_of c) d" "\<not> ws3 b d (byte_of c)" if "c \<in> set g" for b c d
    using g [OF that] by (auto simp: ws1_def ws2_def ws3_def)
  have hd: "rev g = c # r \<Longrightarrow> c \<in> set g" for c r by (metis list.set_intros(1) set_rev)
  show ?thesis
  proof (cases x)
    case Nil
    then show ?thesis
      using assms(1) nw hd by (auto simp: strip_ws_rev_def split: list.splits if_splits)
  next
    case (Cons a x1)
    note x = this
    show ?thesis
    proof (cases x1)
      case Nil
      then show ?thesis
        using assms(1) x nw hd by (auto simp: strip_ws_rev_def split: list.splits if_splits)
    next
      case (Cons b x2)
      then show ?thesis
        using assms(1) x nw hd by (cases x2) (auto simp: strip_ws_rev_def split: list.splits if_splits)
    qed
  qed
qed

lemma trim_end_keeps: "graphic g \<Longrightarrow> \<exists>y. trim_end_rev (x @ rev g) = y @ rev g"
proof (induction "x @ rev g" arbitrary: x rule: trim_end_rev.induct)
  case 1
  show ?case
  proof (cases "strip_ws_rev (x @ rev g)")
    case None
    then show ?thesis by (subst trim_end_rev.simps) auto
  next
    case (Some t)
    then obtain y where "t = y @ rev g" using strip_ws_rev_keeps 1 by blast
    then show ?thesis using 1 Some by (subst trim_end_rev.simps) simp
  qed
qed

lemma trim_keeps_prefix:
  assumes "prefix g line" and "graphic g" and "g \<noteq> []"
  shows "prefix g (trim line)"
proof -
  obtain r where line: "line = g @ r" using assms(1) by (auto simp: prefix_def)
  have "strip_ws line = None"
    using assms(2,3) strip_ws_graphic unfolding line by (cases g) auto
  then have "trim_start line = line" by (simp add: trim_start.simps)
  then obtain y where "trim line = rev (y @ rev g)"
    using trim_end_keeps [OF assms(2), of "rev r"] by (auto simp: trim_def line)
  then show ?thesis by simp
qed

lemma take_word_graphic:
  "graphic w \<Longrightarrow> rest = [] \<or> strip_ws rest \<noteq> None \<Longrightarrow> take_word (w @ rest) = (w, rest)"
proof (induction w)
  case Nil
  then show ?case by (cases rest) auto
next
  case (Cons c w)
  then show ?case using strip_ws_graphic [of c] by simp
qed

lemma strip_ws_space [simp]: "strip_ws (CHR '' '' # s) = Some s"
  by (simp add: strip_ws_def ws1_def byte_of_def)

lemma split_whitespace_Nil [simp]: "split_whitespace [] = []"
  by (simp add: split_whitespace.simps trim_start.simps strip_ws_def)

lemma split_whitespace_word:
  assumes "graphic w" "w \<noteq> []" and "rest = [] \<or> strip_ws rest \<noteq> None"
  shows "split_whitespace (CHR '' '' # w @ rest) = w # split_whitespace rest"
proof -
  have "strip_ws (w @ rest) = None" using assms strip_ws_graphic by (cases w) auto
  then have "trim_start (CHR '' '' # w @ rest) = w @ rest"
    by (subst trim_start.simps) (simp add: trim_start.simps)
  then show ?thesis
    using assms take_word_graphic by (subst split_whitespace.simps) simp
qed

lemma canonical_marker_words:
  assumes "valid_symbol s"
  shows "strip_prefix ''#'' (trim (canonical_marker s f)) = Some (drop 1 (canonical_marker s f))"
    "marker_words (split_whitespace (drop 1 (canonical_marker s f))) = Some (s, f)"
    "\<not> prefix ''CONFIG_'' (trim (canonical_marker s f))"
proof -
  note s = valid_symbol_text [OF assms]
  have b: "byte_of CHR ''#'' = 35" "byte_of CHR ''t'' = 116" "byte_of CHR ''n'' = 110"
    by (simp_all add: byte_of_def)
  have t: "trim (canonical_marker s f) = canonical_marker s f"
  proof (rule trim_ends)
    show "strip_ws (canonical_marker s f) = None"
      by (cases f) (simp_all add: canonical_marker_def strip_ws_graphic b)
    show "strip_ws_rev (rev (canonical_marker s f)) = None"
      by (cases f) (simp_all add: canonical_marker_def strip_ws_rev_graphic b)
  qed
  show "strip_prefix ''#'' (trim (canonical_marker s f)) = Some (drop 1 (canonical_marker s f))"
    "\<not> prefix ''CONFIG_'' (trim (canonical_marker s f))"
    unfolding t by (auto simp: canonical_marker_def)
  have w: "split_whitespace ('' '' @ w @ rest) = w # split_whitespace rest"
    if "graphic w" "w \<noteq> []" "rest = [] \<or> strip_ws rest \<noteq> None" for w rest
    using split_whitespace_word [OF that] by simp
  have c: "graphic ''is''" "graphic ''not''" "graphic ''set''" "graphic ''forced''" "graphic ''on''"
    by (simp_all add: byte_of_def)
  have "split_whitespace ('' '' @ s @ '' is not set'') = [s, ''is'', ''not'', ''set'']"
    using w [OF s(2,4), of "'' is not set''"] w [OF c(1), of "'' not set''"] w [OF c(2), of "'' set''"]
      w [OF c(3), of "[]"] by simp
  moreover have "split_whitespace ('' '' @ s @ '' is forced on'') = [s, ''is'', ''forced'', ''on'']"
    using w [OF s(2,4), of "'' is forced on''"] w [OF c(1), of "'' forced on''"] w [OF c(4), of "'' on''"]
      w [OF c(5), of "[]"] by simp
  ultimately show "marker_words (split_whitespace (drop 1 (canonical_marker s f))) = Some (s, f)"
    using s(1) by (simp add: canonical_marker_def)
qed

section \<open>What the scan records\<close>

lemma scan_assignment_ok:
  "(\<exists>st'. scan_assignment name line st = Inr st') \<longleftrightarrow>
     (case split_once CHR ''='' line of
        None \<Rightarrow> False
      | Some (s, v) \<Rightarrow> valid_symbol s \<and> (v \<in> {''y'', ''m'', ''n''} \<or> \<not> boolean_like v))"
  by (cases "split_once CHR ''='' line") (auto simp: scan_assignment_def split: if_splits)

lemma scan_marker_ok:
  "(\<exists>st'. scan_marker name line st = Inr st') \<longleftrightarrow>
     (case strip_prefix ''#'' (trim line) of
        None \<Rightarrow> True
      | Some comment \<Rightarrow>
          (case marker_words (split_whitespace comment) of
             None \<Rightarrow> True
           | Some (s, f) \<Rightarrow> valid_symbol s \<and> line = canonical_marker s f))"
proof (cases "strip_prefix ''#'' (trim line)")
  case (Some comment)
  show ?thesis
    unfolding scan_marker_def Some option.case
    by (cases "marker_words (split_whitespace comment)") (auto split: if_splits)
qed (simp add: scan_marker_def del: strip_prefix_eq)

lemma scan_line_ok: "(\<exists>st'. scan_line name line st = Inr st') \<longleftrightarrow> line_ok line"
proof (cases "prefix ''CONFIG_'' (trim line)")
  case True
  then show ?thesis using scan_assignment_ok [of name line st] by (simp add: scan_line_def line_ok_def)
next
  case False
  then show ?thesis
    using scan_marker_ok [of name line st] by (simp add: scan_line_def line_ok_def del: strip_prefix_eq)
qed

lemma request_texts:
  assumes "valid_symbol s" and "valid_symbol t"
  shows "asks_on s (t @ CHR ''='' # v) \<longleftrightarrow> s = t \<and> (v = ''y'' \<or> v = ''m'')"
    "asks_off s (t @ CHR ''='' # v) \<longleftrightarrow> s = t \<and> v = ''n''"
    "asserts_forced s (t @ CHR ''='' # v) \<longleftrightarrow> False"
    "assigns s (t @ CHR ''='' # v) \<longleftrightarrow> s = t"
    "asks_on s (canonical_marker t f) \<longleftrightarrow> False" "assigns s (canonical_marker t f) \<longleftrightarrow> False"
    "asks_off s (canonical_marker t f) \<longleftrightarrow> s = t \<and> \<not> f"
    "asserts_forced s (canonical_marker t f) \<longleftrightarrow> s = t \<and> f"
proof -
  note s = valid_symbol_text [OF assms(1)] and t = valid_symbol_text [OF assms(2)]
  have eq: "s @ CHR ''='' # u = t @ CHR ''='' # v \<longleftrightarrow> s = t \<and> u = v" for u v
  proof
    assume "s @ CHR ''='' # u = t @ CHR ''='' # v"
    then have "split_once CHR ''='' (s @ CHR ''='' # u) = split_once CHR ''='' (t @ CHR ''='' # v)" by simp
    moreover have "split_once CHR ''='' (s @ CHR ''='' # u) = Some (s, u)"
      "split_once CHR ''='' (t @ CHR ''='' # v) = Some (t, v)"
      using s(3) t(3) by (auto simp: split_once_Some)
    ultimately show "s = t \<and> u = v" by simp
  qed simp
  obtain cs where cs: "s = CHR ''C'' # cs" using s(1) by (auto simp: prefix_def)
  obtain ct where ct: "t = CHR ''C'' # ct" using t(1) by (auto simp: prefix_def)
  show "asks_on s (t @ CHR ''='' # v) \<longleftrightarrow> s = t \<and> (v = ''y'' \<or> v = ''m'')"
    using eq [of "''y''" v] eq [of "''m''" v] by (auto simp: asks_on_def)
  show "asks_off s (t @ CHR ''='' # v) \<longleftrightarrow> s = t \<and> v = ''n''"
    using eq [of "''n''" v] ct by (auto simp: asks_off_def)
  show "asserts_forced s (t @ CHR ''='' # v) \<longleftrightarrow> False" using ct by (simp add: asserts_forced_def)
  show "assigns s (t @ CHR ''='' # v) \<longleftrightarrow> s = t"
    using eq [of _] unfolding assigns_def prefix_def by (metis append.assoc append_Cons append_Nil)
  show "asks_on s (canonical_marker t f) \<longleftrightarrow> False" "assigns s (canonical_marker t f) \<longleftrightarrow> False"
    using cs by (auto simp: asks_on_def assigns_def canonical_marker_def prefix_def)
  have no: "a @ ''is not set'' \<noteq> b @ ''is forced on''" for a b :: string
    using arg_cong [of "a @ ''is not set''" "b @ ''is forced on''" last] by auto
  show "asks_off s (canonical_marker t f) \<longleftrightarrow> s = t \<and> \<not> f"
    using cs no [of "s @ '' ''" "t @ '' ''"] by (auto simp: asks_off_def canonical_marker_def)
  show "asserts_forced s (canonical_marker t f) \<longleftrightarrow> s = t \<and> f"
    using cs no [of "t @ '' ''" "s @ '' ''"] by (auto simp: asserts_forced_def canonical_marker_def)
qed

text \<open>A line without an assignment or a marker asks for nothing.\<close>

lemma silent_line:
  assumes "\<not> prefix ''CONFIG_'' (trim line)" and "valid_symbol s"
    and "\<And>t f. strip_prefix ''#'' (trim line) = Some t \<Longrightarrow> marker_words (split_whitespace t) \<noteq> Some (s, f)"
  shows "\<not> asks_on s line" "\<not> asks_off s line" "\<not> asserts_forced s line" "\<not> assigns s line"
proof -
  note s = valid_symbol_text [OF assms(2)]
  have a: "\<not> assigns s line"
  proof
    assume "assigns s line"
    then have "prefix ''CONFIG_'' line"
      using s(1) unfolding assigns_def by (meson prefixI prefix_order.trans)
    then have "prefix ''CONFIG_'' (trim line)" by (rule trim_keeps_prefix) (simp_all add: byte_of_def)
    then show False using assms(1) by simp
  qed
  then show "\<not> assigns s line" .
  from a show "\<not> asks_on s line" by (auto simp: asks_on_def assigns_def)
  have m: "line \<noteq> canonical_marker s f" for f
    using canonical_marker_words(1,2) [OF assms(2), of f] assms(3) by metis
  show "\<not> asks_off s line" using a m [of False] by (auto simp: asks_off_def assigns_def canonical_marker_def)
  show "\<not> asserts_forced s line" using m [of True] by (auto simp: asserts_forced_def canonical_marker_def)
qed

definition request_kind :: "request \<Rightarrow> bool option" where
  "request_kind r = (case r of On _ \<Rightarrow> Some True | Off _ \<Rightarrow> Some False | Forced _ \<Rightarrow> None)"

text \<open>One line, seen from a symbol: the values of the four maps before and after.\<close>

lemma scan_line_lookup:
  assumes "scan_line name line st = Inr st'" and "valid_symbol s"
  shows "bt_get (requested st') s =
      (if asks_on s line then Some (On name) else if asks_off s line then Some (Off name)
       else bt_get (requested st) s)
    \<and> bt_get (submitted st') s =
      (if asks_on s line then Some SubmittedOn else if asks_off s line then Some SubmittedOff
       else if assigns s line then Some SubmittedScalar else bt_get (submitted st) s)
    \<and> (bt_get (on_pins st') s \<noteq> None \<longleftrightarrow> bt_get (on_pins st) s \<noteq> None \<or> asks_on s line)
    \<and> (bt_get (forced st') s \<noteq> None \<longleftrightarrow> bt_get (forced st) s \<noteq> None \<or> asserts_forced s line)"
proof (cases "prefix ''CONFIG_'' (trim line)")
  case True
  obtain t v where t: "line = t @ CHR ''='' # v" "valid_symbol t"
      "st' = (if v = ''y'' \<or> v = ''m'' then request_on name t v st
        else if v = ''n'' then request_off name t st else request_scalar t st)"
    using assms(1) True
    by (auto simp: scan_line_def scan_assignment_def split_once_Some split: if_splits prod.splits)
  show ?thesis
    unfolding t(1) request_texts [OF assms(2) t(2)] t(3)
    by (auto simp: request_on_def request_off_def request_scalar_def)
next
  case False
  show ?thesis
  proof (cases "st' = st \<and> (\<forall>u f. strip_prefix ''#'' (trim line) = Some u \<longrightarrow>
      marker_words (split_whitespace u) \<noteq> Some (s, f))")
    case True
    then show ?thesis using silent_line [OF False assms(2)] by simp
  next
    case neq: False
    obtain t f where t: "line = canonical_marker t f" "valid_symbol t"
        "st' = (if f then assert_forced name t st else request_off name t st)"
      using assms(1) False neq
      by (auto simp: scan_line_def scan_marker_def split: option.splits if_splits)
    show ?thesis
      unfolding t(1) request_texts [OF assms(2) t(2)] t(3)
      by (auto simp: request_off_def assert_forced_def)
  qed
qed

text \<open>The state after all lines of all fragments.\<close>

definition state_ok :: "scan_state \<Rightarrow> bool" where
  "state_ok st \<longleftrightarrow> bt_ok (requested st) \<and> bt_ok (forced st)
     \<and> list_all (\<lambda>x. valid_symbol (fst x)) (requested st) \<and> list_all (\<lambda>x. valid_symbol (fst x)) (forced st)
     \<and> list_all (\<lambda>(_, r). \<forall>name. r \<noteq> Forced name) (requested st)"

lemma bt_insert_all: "P (k, v) \<Longrightarrow> list_all P m \<Longrightarrow> list_all P (bt_insert k v m)"
  by (induction k v m rule: bt_insert.induct) auto

lemma bt_or_insert_all: "P (k, v) \<Longrightarrow> list_all P m \<Longrightarrow> list_all P (bt_or_insert k v m)"
  by (auto simp: bt_or_insert_def bt_insert_all split: option.splits)

lemma scan_line_state_ok:
  assumes "scan_line name line st = Inr st'" and "state_ok st"
  shows "state_ok st'"
  using assms
  by (auto simp: scan_line_def scan_assignment_def scan_marker_def state_ok_def request_on_def
      request_off_def request_scalar_def assert_forced_def bt_insert_all bt_or_insert_all bt_ok_insert
      bt_ok_or_insert split: option.splits if_splits prod.splits)

definition last_line :: "(string \<Rightarrow> bool) \<Rightarrow> string list \<Rightarrow> string option" where
  "last_line P ls = find P (rev ls)"

lemma last_line_simps [simp]:
  "last_line P [] = None"
  "last_line P (ls @ [l]) = (if P l then Some l else last_line P ls)"
  by (simp_all add: last_line_def)

definition scanned :: "scan_state \<Rightarrow> string list \<Rightarrow> bool" where
  "scanned st ls \<longleftrightarrow> state_ok st \<and> (\<forall>s. valid_symbol s \<longrightarrow>
     map_option request_kind (bt_get (requested st) s)
       = map_option (\<lambda>l. Some (asks_on s l)) (last_line (\<lambda>l. asks_on s l \<or> asks_off s l) ls)
     \<and> bt_get (submitted st) s
       = map_option (\<lambda>l. if asks_on s l then SubmittedOn else if asks_off s l then SubmittedOff
           else SubmittedScalar) (last_line (\<lambda>l. asks_off s l \<or> assigns s l) ls)
     \<and> (bt_get (on_pins st) s \<noteq> None \<longleftrightarrow> list_ex (asks_on s) ls)
     \<and> (bt_get (forced st) s \<noteq> None \<longleftrightarrow> list_ex (asserts_forced s) ls))"

lemma scanned_init: "scanned scan_init []"
  by (simp add: scanned_def scan_init_def state_ok_def bt_get_def)

lemma asks_on_assigns: "asks_on s l \<Longrightarrow> assigns s l"
  by (auto simp: asks_on_def assigns_def)

lemma scanned_step:
  assumes "scanned st ls" and "scan_line name l st = Inr st'"
  shows "scanned st' (ls @ [l])"
proof -
  have "state_ok st'" using scan_line_state_ok [OF assms(2)] assms(1) by (simp add: scanned_def)
  moreover have "\<not> (asks_on s l \<and> asks_off s l)" if "valid_symbol s" for s
    using valid_symbol_text(1) [OF that] by (auto simp: asks_on_def asks_off_def prefix_def)
  ultimately show ?thesis
    using assms(1) scan_line_lookup [OF assms(2)]
    by (auto simp: scanned_def request_kind_def asks_on_assigns)
qed

lemma scanned_lines:
  "scanned st ls \<Longrightarrow> scan_lines name ms st = Inr st' \<Longrightarrow> scanned st' (ls @ ms)"
proof (induction ms arbitrary: st ls)
  case (Cons m ms)
  then obtain st1 where "scan_line name m st = Inr st1" "scan_lines name ms st1 = Inr st'" by auto
  then show ?case using Cons.IH [of st1 "ls @ [m]"] scanned_step [OF Cons.prems(1)] by simp
qed simp

definition fragment_lines :: "(string \<times> string) list \<Rightarrow> string list" where
  "fragment_lines fs = concat (map (str_lines \<circ> snd) fs)"

lemma scanned_fragments:
  "scanned st ls \<Longrightarrow> scan_fragments fs st = Inr st' \<Longrightarrow> scanned st' (ls @ fragment_lines fs)"
proof (induction fs arbitrary: st ls)
  case (Cons f fs)
  obtain name body where f: "f = (name, body)" by fastforce
  then obtain st1 where "scan_lines name (str_lines body) st = Inr st1" "scan_fragments fs st1 = Inr st'"
    using Cons.prems(2) by auto
  then show ?case
    using Cons.IH [of st1 "ls @ str_lines body"] scanned_lines [OF Cons.prems(1)]
    by (simp add: f fragment_lines_def)
qed (simp add: fragment_lines_def)

lemma scan_lines_ok: "(\<exists>st'. scan_lines name ls st = Inr st') \<longleftrightarrow> list_all line_ok ls"
proof (induction ls arbitrary: st)
  case (Cons l ls)
  show ?case
  proof (cases "scan_line name l st")
    case (Inl e)
    then show ?thesis using scan_line_ok [of name l st] by simp
  next
    case (Inr st1)
    then show ?thesis using scan_line_ok [of name l st] Cons.IH [of st1] by auto
  qed
qed simp

lemma scan_fragments_ok: "(\<exists>st'. scan_fragments fs st = Inr st') \<longleftrightarrow> list_all line_ok (fragment_lines fs)"
proof (induction fs arbitrary: st)
  case (Cons f fs)
  obtain name body where f: "f = (name, body)" by fastforce
  show ?case
  proof (cases "scan_lines name (str_lines body) st")
    case (Inl e)
    then show ?thesis using scan_lines_ok [of name "str_lines body" st] by (simp add: f fragment_lines_def)
  next
    case (Inr st1)
    then show ?thesis
      using scan_lines_ok [of name "str_lines body" st] Cons.IH [of st1] by (auto simp: f fragment_lines_def)
  qed
qed (simp add: fragment_lines_def)

section \<open>The check against the requests\<close>

lemma map_filter_empty: "List.map_filter f xs = [] \<longleftrightarrow> (\<forall>x \<in> set xs. f x = None)"
  by (induction xs) (auto simp: List.map_filter_simps split: option.splits)

text \<open>What the lines of the fragments ask of a symbol is what the configuration gives it.\<close>

definition honoured :: "(string \<rightharpoonup> string) \<Rightarrow> string list \<Rightarrow> string \<Rightarrow> bool" where
  "honoured vs ls s \<longleftrightarrow>
     (if list_ex (asserts_forced s) ls then
        \<not> list_ex (asks_on s) ls
        \<and> (case last_line (\<lambda>l. asks_off s l \<or> assigns s l) ls of None \<Rightarrow> False | Some l \<Rightarrow> asks_off s l)
        \<and> vs s = Some ''y''
      else
        (case last_line (\<lambda>l. asks_on s l \<or> asks_off s l) ls of
           None \<Rightarrow> True
         | Some l \<Rightarrow> vs s = (if asks_on s l then Some ''y'' else None)))"

lemma final_requests_get:
  assumes "bt_ok (forced st)"
  shows "bt_get (final_requests st) s
    = (case bt_get (forced st) s of Some n \<Rightarrow> Some (Forced n) | None \<Rightarrow> bt_get (requested st) s)"
proof -
  let ?fs = "map (\<lambda>(k, n). (k, Forced n)) (forced st)"
  have "final_requests st = foldl (\<lambda>m (k, v). bt_insert k v m) (requested st) ?fs"
    unfolding final_requests_def by (simp add: foldl_map case_prod_unfold)
  then have *: "bt_get (final_requests st) s
      = (case map_of (rev ?fs) s of None \<Rightarrow> bt_get (requested st) s | Some v \<Rightarrow> Some v)"
    by (simp only: bt.get_collect)
  have "distinct (map fst ?fs)"
    using assms by (simp add: bt_ok_def strict_sorted_iff case_prod_unfold comp_def)
  then have "map_of (rev ?fs) = map_of ?fs"
    by (intro map_of_inject_set [THEN iffD2]) (simp_all add: rev_map [symmetric])
  moreover have "map_of ?fs s = map_option Forced (bt_get (forced st) s)"
    by (simp add: bt_get_def map_of_map)
  ultimately show ?thesis unfolding * by (cases "bt_get (forced st) s") simp_all
qed

lemma final_requests_ok:
  assumes "state_ok st"
  shows "bt_ok (final_requests st)" "list_all (\<lambda>x. valid_symbol (fst x)) (final_requests st)"
proof -
  have "bt_ok (foldl (\<lambda>m (k, n). bt_insert k (Forced n) m) m fs)
      \<and> list_all (\<lambda>x. valid_symbol (fst x)) (foldl (\<lambda>m (k, n). bt_insert k (Forced n) m) m fs)"
    if "bt_ok m" "list_all (\<lambda>x. valid_symbol (fst x)) m" "list_all (\<lambda>x. valid_symbol (fst x)) fs" for m fs
    using that
  proof (induction fs arbitrary: m)
    case (Cons f fs)
    obtain k n where f: "f = (k, n)" by fastforce
    have "list_all (\<lambda>x. valid_symbol (fst x)) (bt_insert k (Forced n) m)"
      by (rule bt_insert_all) (use Cons.prems f in simp_all)
    then show ?case using Cons.IH [of "bt_insert k (Forced n) m"] Cons.prems bt_ok_insert [of m k "Forced n"]
      by (simp add: f)
  qed simp
  then show "bt_ok (final_requests st)" "list_all (\<lambda>x. valid_symbol (fst x)) (final_requests st)"
    using assms by (simp_all add: final_requests_def state_ok_def)
qed

lemma all_entries: "bt_ok m \<Longrightarrow> list_all (\<lambda>x. valid_symbol (fst x)) m \<Longrightarrow>
    (\<forall>x \<in> set m. P x) \<longleftrightarrow> (\<forall>s v. valid_symbol s \<longrightarrow> bt_get m s = Some v \<longrightarrow> P (s, v))"
  using bt_entries [of m] by (fastforce simp: list_all_iff)

lemma pin_conflicts_empty:
  assumes "scanned st ls"
  shows "pin_conflicts st = [] \<longleftrightarrow>
    (\<forall>s. valid_symbol s \<longrightarrow> list_ex (asserts_forced s) ls \<longrightarrow> \<not> list_ex (asks_on s) ls)"
proof -
  have ok: "bt_ok (forced st)" "list_all (\<lambda>x. valid_symbol (fst x)) (forced st)"
    using assms by (simp_all add: scanned_def state_ok_def)
  have "pin_conflicts st = [] \<longleftrightarrow> (\<forall>x \<in> set (forced st). bt_get (on_pins st) (fst x) = None)"
    by (auto simp: pin_conflicts_def map_filter_empty)
  also have "\<dots> \<longleftrightarrow> (\<forall>s v. valid_symbol s \<longrightarrow> bt_get (forced st) s = Some v \<longrightarrow> bt_get (on_pins st) s = None)"
    unfolding all_entries [OF ok] by simp
  also have "\<dots> \<longleftrightarrow> (\<forall>s. valid_symbol s \<longrightarrow> bt_get (forced st) s \<noteq> None \<longrightarrow> \<not> bt_get (on_pins st) s \<noteq> None)"
    by (metis not_None_eq)
  finally show ?thesis using assms unfolding scanned_def by metis
qed

lemma missing_off_empty:
  assumes "scanned st ls"
  shows "missing_off_requests st = [] \<longleftrightarrow>
    (\<forall>s. valid_symbol s \<longrightarrow> list_ex (asserts_forced s) ls \<longrightarrow>
      (case last_line (\<lambda>l. asks_off s l \<or> assigns s l) ls of None \<Rightarrow> False | Some l \<Rightarrow> asks_off s l))"
proof -
  have ok: "bt_ok (forced st)" "list_all (\<lambda>x. valid_symbol (fst x)) (forced st)"
    using assms by (simp_all add: scanned_def state_ok_def)
  have "missing_off_requests st = [] \<longleftrightarrow>
      (\<forall>x \<in> set (forced st). bt_get (submitted st) (fst x) = Some SubmittedOff)"
    by (auto simp: missing_off_requests_def filter_empty_conv)
  also have "\<dots> \<longleftrightarrow> (\<forall>s v. valid_symbol s \<longrightarrow> bt_get (forced st) s = Some v \<longrightarrow>
      bt_get (submitted st) s = Some SubmittedOff)"
    unfolding all_entries [OF ok] by simp
  also have "\<dots> \<longleftrightarrow> (\<forall>s. valid_symbol s \<longrightarrow> list_ex (asserts_forced s) ls \<longrightarrow>
      bt_get (submitted st) s = Some SubmittedOff)"
    using assms unfolding scanned_def by blast
  also have "\<dots> \<longleftrightarrow> (\<forall>s. valid_symbol s \<longrightarrow> list_ex (asserts_forced s) ls \<longrightarrow>
      (case last_line (\<lambda>l. asks_off s l \<or> assigns s l) ls of None \<Rightarrow> False | Some l \<Rightarrow> asks_off s l))"
  proof -
    have excl: "\<not> (asks_on s l \<and> asks_off s l)" if "valid_symbol s" for s l
      using valid_symbol_text(1) [OF that] by (auto simp: asks_on_def asks_off_def prefix_def)
    have "bt_get (submitted st) s = Some SubmittedOff \<longleftrightarrow>
        (case last_line (\<lambda>l. asks_off s l \<or> assigns s l) ls of None \<Rightarrow> False | Some l \<Rightarrow> asks_off s l)"
      if "valid_symbol s" for s
      using assms that excl [OF that]
      by (cases "last_line (\<lambda>l. asks_off s l \<or> assigns s l) ls") (auto simp: scanned_def)
    then show ?thesis by simp
  qed
  finally show ?thesis .
qed

lemma request_mismatch:
  assumes "r \<noteq> Forced n"
  shows "mismatch_of (Forced n) v = None \<longleftrightarrow> v = Some ''y''"
    "request_kind (On n) = Some True" "mismatch_of (On n) v = None \<longleftrightarrow> v = Some ''y''"
    "mismatch_of (Off n) v = None \<longleftrightarrow> v = None"
  by (auto simp: mismatch_of_def request_kind_def split: option.splits)

lemma mismatches_empty:
  assumes "scanned st ls"
  shows "mismatches (final_requests st) vs = [] \<longleftrightarrow>
    (\<forall>s. valid_symbol s \<longrightarrow>
      (if list_ex (asserts_forced s) ls then vs s = Some ''y''
       else case last_line (\<lambda>l. asks_on s l \<or> asks_off s l) ls of
          None \<Rightarrow> True | Some l \<Rightarrow> vs s = (if asks_on s l then Some ''y'' else None)))"
proof -
  have ok: "state_ok st" "bt_ok (forced st)" using assms by (simp_all add: scanned_def state_ok_def)
  have "mismatches (final_requests st) vs = [] \<longleftrightarrow>
      (\<forall>x \<in> set (final_requests st). mismatch_of (snd x) (vs (fst x)) = None)"
    by (auto simp: mismatches_def map_filter_empty)
  also have "\<dots> \<longleftrightarrow> (\<forall>s r. valid_symbol s \<longrightarrow> bt_get (final_requests st) s = Some r \<longrightarrow>
      mismatch_of r (vs s) = None)"
    unfolding all_entries [OF final_requests_ok [OF ok(1)]] by simp
  also have "\<dots> \<longleftrightarrow> (\<forall>s. valid_symbol s \<longrightarrow>
      (if list_ex (asserts_forced s) ls then vs s = Some ''y''
       else case last_line (\<lambda>l. asks_on s l \<or> asks_off s l) ls of
          None \<Rightarrow> True | Some l \<Rightarrow> vs s = (if asks_on s l then Some ''y'' else None)))"
  proof -
    have "(\<forall>r. bt_get (final_requests st) s = Some r \<longrightarrow> mismatch_of r (vs s) = None) \<longleftrightarrow>
      (if list_ex (asserts_forced s) ls then vs s = Some ''y''
       else case last_line (\<lambda>l. asks_on s l \<or> asks_off s l) ls of
          None \<Rightarrow> True | Some l \<Rightarrow> vs s = (if asks_on s l then Some ''y'' else None))"
      (is "?l \<longleftrightarrow> ?r") if s: "valid_symbol s" for s
    proof (cases "bt_get (forced st) s")
      case (Some n)
      then show ?thesis
        using assms s final_requests_get [OF ok(2), of s] by (auto simp: scanned_def mismatch_of_def split: option.splits)
    next
      case None
      then have f: "\<not> list_ex (asserts_forced s) ls" "bt_get (final_requests st) s = bt_get (requested st) s"
        using assms s final_requests_get [OF ok(2), of s] by (auto simp: scanned_def)
      have k: "map_option request_kind (bt_get (requested st) s)
          = map_option (\<lambda>l. Some (asks_on s l)) (last_line (\<lambda>l. asks_on s l \<or> asks_off s l) ls)"
        using assms s by (simp add: scanned_def)
      show ?thesis
      proof (cases "bt_get (requested st) s")
        case None
        then show ?thesis using f k by simp
      next
        case (Some r)
        then obtain l where l: "last_line (\<lambda>l. asks_on s l \<or> asks_off s l) ls = Some l"
            "request_kind r = Some (asks_on s l)"
          using k by (cases "last_line (\<lambda>l. asks_on s l \<or> asks_off s l) ls") auto
        then show ?thesis
          using f Some by (cases r) (auto simp: request_kind_def mismatch_of_def split: option.splits)
      qed
    qed
    then show ?thesis by simp
  qed
  finally show ?thesis .
qed

lemma check_fragment_options_spec:
  "check_fragment_options frags config = Inr () \<longleftrightarrow>
     list_all line_ok (fragment_lines frags)
     \<and> (\<forall>s. valid_symbol s \<longrightarrow> honoured (config_values config) (fragment_lines frags) s)"
proof (cases "list_all line_ok (fragment_lines frags)")
  case True
  then obtain st where st: "scan_fragments frags scan_init = Inr st"
    using scan_fragments_ok [of frags scan_init] by blast
  have sc: "scanned st (fragment_lines frags)"
    using scanned_fragments [OF scanned_init st] by simp
  have "check_fragment_options frags config = Inr () \<longleftrightarrow>
      pin_conflicts st = [] \<and> missing_off_requests st = [] \<and> mismatches (final_requests st) (config_values config) = []"
    by (simp add: check_fragment_options_def st Let_def)
  then show ?thesis
    unfolding pin_conflicts_empty [OF sc] missing_off_empty [OF sc] mismatches_empty [OF sc] honoured_def
    using True by auto
next
  case False
  then show ?thesis
    using scan_fragments_ok [of frags scan_init] by (simp add: check_fragment_options_def)
qed

definition all_honoured :: "(string \<rightharpoonup> string) \<Rightarrow> string list \<Rightarrow> bool" where
  "all_honoured vs ls \<longleftrightarrow> (\<forall>s. valid_symbol s \<longrightarrow> honoured vs ls s)"

text \<open>
  C22. The check of the fragments against the resolved configuration succeeds exactly when every line of every
  fragment is canonical and every symbol is honoured: a symbol whose last request is on resolves to \<open>y\<close>, one
  whose last request is off is absent, and one that is asserted forced on is never pinned, is off by its last
  assignment, and still resolves to \<open>y\<close>.
\<close>

theorem check_fragment_options_iff:
  "check_fragment_options frags config = Inr () \<longleftrightarrow>
     list_all line_ok (fragment_lines frags)
     \<and> all_honoured (config_values config) (fragment_lines frags)"
  unfolding all_honoured_def by (rule check_fragment_options_spec)

section \<open>The invariants\<close>

lemma require_values_ok [simp]:
  "require_values e vs rs = Inr () \<longleftrightarrow> list_all (\<lambda>(s, v). vs s = Some v) rs"
  by (induction rs) (auto split: if_splits)

lemma forbid_symbols_ok [simp]:
  "forbid_symbols e bad vs ss = Inr () \<longleftrightarrow> list_all (\<lambda>s. \<not> bad (vs s)) ss"
  by (induction ss) (auto split: if_splits)

lemma check_builder_invariants_spec:
  "check_builder_invariants config = Inr () \<longleftrightarrow>
     (if has_line config ''CONFIG_MODULE_SIG=y''
      then has_line config (''CONFIG_MODULE_SIG_KEY='' @ [CHR 0x22, CHR 0x22]) else True)
     \<and> \<not> has_line config ''CONFIG_MODULE_SIG_ALL=y''
     \<and> list_all (\<lambda>(s, v). config_values config s = Some v) (LOCKDOWN @ AML_REQUIRED)
     \<and> list_all (\<lambda>s. config_values config s = None) MEMORY_READERS
     \<and> list_all (\<lambda>s. config_values config s \<notin> {Some ''y'', Some ''m''}) AML_FORBIDDEN"
  by (auto simp: check_builder_invariants_def check_lockdown_def aml_verify_config_def)

text \<open>
  What holds of every kernel that is built, symbol by symbol: root cannot read kernel memory, the kernel parses no
  AML but its own, and no module signing key is generated.
\<close>

definition hardened :: "(string \<rightharpoonup> string) \<Rightarrow> bool" where
  "hardened vs \<longleftrightarrow>
     vs ''CONFIG_SECURITY_LOCKDOWN_LSM_EARLY'' = Some ''y''
     \<and> vs ''CONFIG_LOCK_DOWN_KERNEL_FORCE_CONFIDENTIALITY'' = Some ''y''
     \<and> vs ''CONFIG_DEVMEM'' = None \<and> vs ''CONFIG_PROC_KCORE'' = None \<and> vs ''CONFIG_KEXEC_CORE'' = None
     \<and> vs ''CONFIG_ACPI'' = Some ''y'' \<and> vs ''CONFIG_ACPI_CUSTOM_DSDT'' = Some ''y''
     \<and> vs ''CONFIG_ACPI_TRUSTED_AML'' = Some ''y''
     \<and> vs ''CONFIG_ACPI_CUSTOM_DSDT_FILE'' = Some ([CHR 0x22] @ ''confos-trusted-dsdt.h'' @ [CHR 0x22])
     \<and> vs ''CONFIG_ACPI_TABLE_UPGRADE'' \<notin> {Some ''y'', Some ''m''}
     \<and> vs ''CONFIG_ACPI_CONFIGFS'' \<notin> {Some ''y'', Some ''m''}
     \<and> vs ''CONFIG_EFI_CUSTOM_SSDT_OVERLAYS'' \<notin> {Some ''y'', Some ''m''}
     \<and> vs ''CONFIG_ACPI_DEBUGGER'' \<notin> {Some ''y'', Some ''m''}"

lemma builder_invariants_hardened:
  "check_builder_invariants config = Inr () \<Longrightarrow> hardened (config_values config)"
  unfolding check_builder_invariants_spec hardened_def
  by (simp add: LOCKDOWN_def MEMORY_READERS_def AML_REQUIRED_def AML_FORBIDDEN_def)

end
