(* ===== verification/World.thy ===== *)
theory World
  imports RustStr OrdMap HashChain
begin

text \<open>
  The machine that the builder commands run on: a file system, external commands, and fallible steps that read
  and change it.

  The file system maps paths to regular files, directories and symbolic links (with their target); the path of an
  entry is the canonical path of its directory with the name of the entry.  What the program cannot decide itself is
  in the record \<open>host\<close>: how a path is resolved (\<open>canon\<close>: the current directory and the symbolic links), which
  accesses the system refuses (\<open>denied\<close>: permissions, a missing parent, a full disk), what an external command
  does to the file system, prints and returns (\<open>exec\<close>), where a tool is found (\<open>which\<close>), the SHA-256 function, the
  number of processors and the clock.  A refused write leaves the file as it was.
\<close>

datatype node = Regular string | Directory | Link string

type_synonym world = "(string, node) btree"

record cmd_result =
  exit_ok :: bool
  cmd_stdout :: string
  cmd_stderr :: string

text \<open>What the system can refuse: to look at a path, to read, to write, to remove what is there.\<close>

datatype access = Look | Fetch | Store | Delete

record host =
  cwd :: string
  canon :: "string \<Rightarrow> string"
  denied :: "access \<Rightarrow> string \<Rightarrow> world \<Rightarrow> bool"
  exec :: "string list \<Rightarrow> world \<Rightarrow> cmd_result \<times> world"
  which :: "string \<Rightarrow> string option"
  sha256 :: "bytes \<Rightarrow> 256 word"
  cpus :: "nat option"
  now :: string

text \<open>The errors that every step can return; \<open>Refused\<close> holds those of the program's own checks.\<close>

datatype 'e io_error =
    Io string
  | MissingTool string
  | CommandFailed "string list"
  | LiveMirror "string list"
  | Refused 'e

section \<open>Steps\<close>

type_synonym ('e, 'a) io = "world \<Rightarrow> ('e io_error fault + 'a) \<times> world"

definition io_return :: "'a \<Rightarrow> ('e, 'a) io" where
  "io_return x = (\<lambda>w. (Inr x, w))"

definition io_fail :: "'e io_error \<Rightarrow> ('e, 'a) io" where
  "io_fail e = (\<lambda>w. (bail e, w))"

definition io_of :: "'e fault + 'a \<Rightarrow> ('e, 'a) io" where
  "io_of r = (\<lambda>w. (map_err Refused r, w))"

definition io_get :: "(world \<Rightarrow> 'a) \<Rightarrow> ('e, 'a) io" where
  "io_get f = (\<lambda>w. (Inr (f w), w))"

definition then_io :: "('e, 'a) io \<Rightarrow> ('a \<Rightarrow> ('e, 'b) io) \<Rightarrow> ('e, 'b) io" where
  "then_io m f = (\<lambda>w. case m w of (Inl e, w') \<Rightarrow> (Inl e, w') | (Inr x, w') \<Rightarrow> f x w')"

definition io_check :: "bool \<Rightarrow> 'e \<Rightarrow> ('e, unit) io" where
  "io_check b e = (if b then io_return () else io_fail (Refused e))"

definition io_when :: "bool \<Rightarrow> ('e, unit) io \<Rightarrow> ('e, unit) io" where
  "io_when b m = (if b then m else io_return ())"

text \<open>\<open>.ok()\<close>: an error becomes \<open>None\<close>.\<close>

definition io_try :: "('e, 'a) io \<Rightarrow> ('e, 'a option) io" where
  "io_try m = (\<lambda>w. case m w of
     (Inl (Err e), w') \<Rightarrow> (Inr None, w') | (Inl Panic, w') \<Rightarrow> (panic, w') | (Inr x, w') \<Rightarrow> (Inr (Some x), w'))"

fun io_each :: "('a \<Rightarrow> ('e, unit) io) \<Rightarrow> 'a list \<Rightarrow> ('e, unit) io" where
  "io_each f [] = io_return ()"
| "io_each f (x # xs) = then_io (f x) (\<lambda>_. io_each f xs)"

fun io_map :: "('a \<Rightarrow> ('e, 'b) io) \<Rightarrow> 'a list \<Rightarrow> ('e, 'b list) io" where
  "io_map f [] = io_return []"
| "io_map f (x # xs) = then_io (f x) (\<lambda>y. then_io (io_map f xs) (\<lambda>ys. io_return (y # ys)))"

named_theorems io_simps "how a step ends"

lemma then_io_Inr [io_simps]:
  "then_io m f w = (Inr y, w') \<longleftrightarrow> (\<exists>x w1. m w = (Inr x, w1) \<and> f x w1 = (Inr y, w'))"
  by (auto simp: then_io_def split: prod.splits sum.splits)

lemma then_io_Inl [io_simps]:
  "then_io m f w = (Inl e, w') \<longleftrightarrow> m w = (Inl e, w') \<or> (\<exists>x w1. m w = (Inr x, w1) \<and> f x w1 = (Inl e, w'))"
  by (auto simp: then_io_def split: prod.splits sum.splits)

lemma then_ioE:
  assumes "then_io m f w = (Inr y, w')"
  obtains x w1 where "m w = (Inr x, w1)" "f x w1 = (Inr y, w')"
  using assms by (auto simp: then_io_Inr)

lemma io_steps [io_simps, exec_simps]:
  "io_return x w = (Inr x, w)" "io_fail e w = (bail e, w)" "io_of r w = (map_err Refused r, w)"
  "io_get f w = (Inr (f w), w)" "io_check True e' w = (Inr (), w)" "io_check False e' w = (bail (Refused e'), w)"
  "io_when True m w = m w" "io_when False m w = (Inr (), w)"
  by (simp_all add: io_return_def io_fail_def io_of_def io_get_def io_check_def io_when_def)

lemma then_io_get [simp, exec_simps]:
  "then_io (io_get g) f w = f (g w) w" "then_io (io_return x) f w = f x w"
  by (simp_all add: then_io_def io_get_def io_return_def)

lemma io_check_eq [io_simps]:
  "io_check b e w = (Inr u, w') \<longleftrightarrow> b \<and> w' = w"
  "io_check b e w = (Inl x, w') \<longleftrightarrow> \<not> b \<and> x = Err (Refused e) \<and> w' = w"
  by (auto simp: io_check_def io_return_def io_fail_def)

lemma io_try_Inr [io_simps]:
  "io_try m w = (Inr (Some x), w') \<longleftrightarrow> m w = (Inr x, w')"
  "io_try m w = (Inr None, w') \<longleftrightarrow> (\<exists>e. m w = (bail e, w'))"
  by (auto simp: io_try_def split: prod.splits sum.splits fault.splits)

lemma then_io_run [exec_simps]:
  "m w = (Inr x, w1) \<Longrightarrow> then_io m f w = f x w1"
  "m w = (Inl e, w1) \<Longrightarrow> then_io m f w = (Inl e, w1)"
  by (simp_all add: then_io_def)

text \<open>A step that only looks.\<close>

named_theorems looks "which steps leave the world alone"

definition reads_only :: "('e, 'a) io \<Rightarrow> bool" where
  "reads_only m \<longleftrightarrow> (\<forall>w. snd (m w) = w)"

lemma reads_only_steps [intro, looks]:
  "reads_only (io_return x)" "reads_only (io_fail e)" "reads_only (io_of r)" "reads_only (io_get f)"
  "reads_only (io_check b e')"
  by (simp_all add: reads_only_def io_return_def io_fail_def io_of_def io_get_def io_check_def)

lemma reads_only_then [intro, looks]:
  "reads_only m \<Longrightarrow> (\<And>x. reads_only (f x)) \<Longrightarrow> reads_only (then_io m f)"
  by (auto simp: reads_only_def then_io_def split: prod.splits sum.splits) (metis snd_conv)+

lemma reads_only_if [intro, looks]: "reads_only a \<Longrightarrow> reads_only b \<Longrightarrow> reads_only (if c then a else b)"
  by simp

lemma reads_only_option [intro, looks]:
  "reads_only a \<Longrightarrow> (\<And>y. reads_only (f y)) \<Longrightarrow> reads_only (case x of None \<Rightarrow> a | Some y \<Rightarrow> f y)"
  by (cases x) auto

lemma reads_only_try [intro, looks]: "reads_only m \<Longrightarrow> reads_only (io_try m)"
  by (auto simp: reads_only_def io_try_def split: prod.splits sum.splits fault.splits) (metis snd_conv)+

lemma reads_onlyD: "reads_only m \<Longrightarrow> m w = (r, w') \<Longrightarrow> w' = w"
  by (metis reads_only_def snd_conv)

lemma reads_only_map [intro, looks]: "(\<And>x. reads_only (f x)) \<Longrightarrow> reads_only (io_map f xs)"
  by (induction xs) auto

lemma reads_only_each [intro, looks]: "(\<And>x. reads_only (f x)) \<Longrightarrow> reads_only (io_each f xs)"
  by (induction xs) auto

lemma io_map_reads:
  assumes "\<And>x. reads_only (f x)"
  shows "io_map f xs w = (Inr ys, w') \<Longrightarrow> w' = w \<and> list_all2 (\<lambda>x y. f x w = (Inr y, w)) xs ys"
proof (induction xs arbitrary: ys)
  case Nil
  then show ?case by (simp add: io_simps)
next
  case (Cons x xs)
  then obtain y w1 zs where y: "f x w = (Inr y, w1)" "io_map f xs w1 = (Inr zs, w')" "ys = y # zs"
    by (auto simp: io_simps)
  moreover have "w1 = w" using reads_onlyD [OF assms y(1)] .
  ultimately show ?case using Cons.IH by simp
qed

section \<open>Paths\<close>

text \<open>\<open>Path\<close> ignores slashes and \<open>.\<close> components at the end.\<close>

fun strip_tail_rev :: "string \<Rightarrow> string" where
  "strip_tail_rev (c # d # s) =
     (if c = CHR ''/'' then strip_tail_rev (d # s)
      else if c = CHR ''.'' \<and> d = CHR ''/'' then strip_tail_rev s
      else c # d # s)"
| "strip_tail_rev [c] = (if c = CHR ''/'' then [] else [c])"
| "strip_tail_rev [] = []"

definition path_split :: "string \<Rightarrow> string option \<times> string" where
  "path_split p =
     (let r = strip_tail_rev (rev p) in
      case split_once CHR ''/'' r of None \<Rightarrow> (None, rev r) | Some (name, dir) \<Rightarrow> (Some (rev dir), rev name))"

definition file_name :: "string \<Rightarrow> string option" where
  "file_name p = (let name = snd (path_split p) in if name \<in> {[], ''.'', ''..''} then None else Some name)"

text \<open>\<open>Path::parent\<close> of a path with a file name.\<close>

definition parent_dir :: "string \<Rightarrow> string" where
  "parent_dir p =
     (case fst (path_split p) of
        None \<Rightarrow> []
      | Some dir \<Rightarrow> (let d = rev (strip_tail_rev (rev dir)) in if d = [] then ''/'' else d))"

definition file_stem :: "string \<Rightarrow> string option" where
  "file_stem p =
     map_option (\<lambda>name. case split_once CHR ''.'' (rev name) of
         None \<Rightarrow> name
       | Some (ext, stem) \<Rightarrow> if stem = [] then name else rev stem) (file_name p)"

section \<open>The file system\<close>

definition node_at :: "host \<Rightarrow> world \<Rightarrow> string \<Rightarrow> node option" where
  "node_at h w p = bt_get w (canon h p)"

text \<open>\<open>Path::exists\<close>, \<open>is_file\<close>, \<open>is_dir\<close>: no where the system refuses to look.\<close>

definition path_exists :: "host \<Rightarrow> string \<Rightarrow> world \<Rightarrow> bool" where
  "path_exists h p w \<longleftrightarrow> \<not> denied h Look p w \<and> node_at h w p \<noteq> None"

definition path_is_file :: "host \<Rightarrow> string \<Rightarrow> world \<Rightarrow> bool" where
  "path_is_file h p w \<longleftrightarrow> \<not> denied h Look p w \<and> (case node_at h w p of Some (Regular _) \<Rightarrow> True | _ \<Rightarrow> False)"

definition path_is_dir :: "host \<Rightarrow> string \<Rightarrow> world \<Rightarrow> bool" where
  "path_is_dir h p w \<longleftrightarrow> \<not> denied h Look p w \<and> node_at h w p = Some Directory"

definition canonicalize :: "host \<Rightarrow> string \<Rightarrow> ('e, string) io" where
  "canonicalize h p = (\<lambda>w. if path_exists h p w then (Inr (canon h p), w) else (bail (Io p), w))"

definition read_bytes :: "host \<Rightarrow> string \<Rightarrow> ('e, string) io" where
  "read_bytes h p = (\<lambda>w.
     if denied h Fetch p w then (bail (Io p), w)
     else case node_at h w p of Some (Regular c) \<Rightarrow> (Inr c, w) | _ \<Rightarrow> (bail (Io p), w))"

definition read_to_string :: "host \<Rightarrow> string \<Rightarrow> ('e, string) io" where
  "read_to_string h p =
     then_io (read_bytes h p) (\<lambda>c. if valid_str c then io_return c else io_fail (Io p))"

definition write_bytes :: "host \<Rightarrow> string \<Rightarrow> string \<Rightarrow> ('e, unit) io" where
  "write_bytes h p c = (\<lambda>w.
     if denied h Store p w \<or> node_at h w p = Some Directory then (bail (Io p), w)
     else (Inr (), bt_insert (canon h p) (Regular c) w))"

definition copy_file :: "host \<Rightarrow> string \<Rightarrow> string \<Rightarrow> ('e, unit) io" where
  "copy_file h src dst = then_io (read_bytes h src) (write_bytes h dst)"

text \<open>The directories from the top down to the path itself.\<close>

definition lineage :: "string \<Rightarrow> string list" where
  "lineage p = filter (\<lambda>q. q \<noteq> [] \<and> (q = p \<or> prefix (q @ ''/'') p)) (prefixes p)"

definition create_dir_all :: "host \<Rightarrow> string \<Rightarrow> ('e, unit) io" where
  "create_dir_all h p = (\<lambda>w.
     if denied h Store p w \<or> list_ex (\<lambda>q. bt_get w q \<notin> {None, Some Directory}) (lineage (canon h p))
     then (bail (Io p), w)
     else (Inr (), foldl (\<lambda>w q. bt_or_insert q Directory w) w (lineage (canon h p))))"

definition below :: "string \<Rightarrow> string \<Rightarrow> bool" where
  "below dir p \<longleftrightarrow> p = dir \<or> prefix (dir @ ''/'') p"

definition remove_dir_all :: "host \<Rightarrow> string \<Rightarrow> ('e, unit) io" where
  "remove_dir_all h p = (\<lambda>w.
     if denied h Delete p w \<or> node_at h w p \<noteq> Some Directory then (bail (Io p), w)
     else (Inr (), filter (\<lambda>(q, _). \<not> below (canon h p) q) w))"

definition remove_file :: "host \<Rightarrow> string \<Rightarrow> ('e, unit) io" where
  "remove_file h p = (\<lambda>w.
     if denied h Delete p w then (bail (Io p), w)
     else case node_at h w p of
       Some (Regular _) \<Rightarrow> (Inr (), filter (\<lambda>(q, _). q \<noteq> canon h p) w)
     | _ \<Rightarrow> (bail (Io p), w))"

text \<open>The names of the entries of a directory.\<close>

definition child_name :: "string \<Rightarrow> string \<Rightarrow> string option" where
  "child_name dir q =
     (case strip_prefix (dir @ ''/'') q of
        None \<Rightarrow> None
      | Some n \<Rightarrow> if n = [] \<or> CHR ''/'' \<in> set n then None else Some n)"

definition child_names :: "world \<Rightarrow> string \<Rightarrow> string list" where
  "child_names w dir = remdups (List.map_filter (child_name dir) (map fst w))"

definition hex_sha256 :: "host \<Rightarrow> string \<Rightarrow> string" where
  "hex_sha256 h c = hex_encode (le_bytes 32 (unat (sha256 h (as_bytes c))))"

definition sha256_file :: "host \<Rightarrow> string \<Rightarrow> ('e, string) io" where
  "sha256_file h p =
     then_io (read_bytes h p) (\<lambda>c. io_return (hex_sha256 h c))"

section \<open>Commands\<close>

definition require_tool :: "host \<Rightarrow> string \<Rightarrow> ('e, string) io" where
  "require_tool h tool = (case which h tool of None \<Rightarrow> io_fail (MissingTool tool) | Some p \<Rightarrow> io_return p)"

definition run_command :: "host \<Rightarrow> string list \<Rightarrow> ('e, cmd_result) io" where
  "run_command h argv = (\<lambda>w.
     case exec h argv w of (r, w') \<Rightarrow> (if exit_ok r then Inr r else bail (CommandFailed argv), w'))"

definition run_command_streaming :: "host \<Rightarrow> string list \<Rightarrow> ('e, unit) io" where
  "run_command_streaming h argv = then_io (run_command h argv) (\<lambda>_. io_return ())"

section \<open>Facts\<close>

lemma reads_only_fs [intro, looks]:
  "reads_only (canonicalize h p)" "reads_only (read_bytes h p)" "reads_only (require_tool h t)"
  by (auto simp: reads_only_def canonicalize_def read_bytes_def require_tool_def io_return_def io_fail_def
      split: option.splits node.splits)

lemma reads_only_text [intro, looks]: "reads_only (read_to_string h p)" "reads_only (sha256_file h p)"
  unfolding read_to_string_def sha256_file_def by auto

lemma read_bytes_Inr [io_simps]:
  "read_bytes h p w = (Inr c, w') \<longleftrightarrow> w' = w \<and> \<not> denied h Fetch p w \<and> node_at h w p = Some (Regular c)"
  by (auto simp: read_bytes_def split: option.splits node.splits if_splits)

lemma read_to_string_Inr [io_simps]:
  "read_to_string h p w = (Inr c, w') \<longleftrightarrow>
     w' = w \<and> \<not> denied h Fetch p w \<and> node_at h w p = Some (Regular c) \<and> valid_str c"
  by (auto simp: read_to_string_def then_io_Inr read_bytes_Inr io_return_def io_fail_def split: if_splits)

lemma write_bytes_Inr [io_simps]:
  "write_bytes h p c w = (Inr u, w') \<longleftrightarrow>
     \<not> denied h Store p w \<and> node_at h w p \<noteq> Some Directory \<and> w' = bt_insert (canon h p) (Regular c) w"
  by (auto simp: write_bytes_def split: if_splits)

lemma node_at_insert [simp]:
  "node_at h (bt_insert (canon h p) n w) q = (if canon h q = canon h p then Some n else node_at h w q)"
  by (simp add: node_at_def)

lemma sha256_file_Inr [io_simps]:
  "sha256_file h p w = (Inr d, w') \<longleftrightarrow>
     w' = w \<and> \<not> denied h Fetch p w \<and>
     (\<exists>c. node_at h w p = Some (Regular c) \<and> d = hex_sha256 h c)"
  by (auto simp: sha256_file_def then_io_Inr read_bytes_Inr io_return_def)

lemma hex_sha256_eq [simp]: "hex_sha256 h a = hex_sha256 h b \<longleftrightarrow> sha256 h (as_bytes a) = sha256 h (as_bytes b)"
proof -
  have b: "le_nat (le_bytes 32 (unat x)) = unat x" for x :: "256 word"
  proof -
    have "unat x < 2 ^ LENGTH(256)" by (rule unsigned_less)
    then show ?thesis by (simp add: le_nat_le_bytes)
  qed
  have "le_bytes 32 (unat x) = le_bytes 32 (unat y) \<longleftrightarrow> x = y" for x y :: "256 word"
    by (metis b word_unat_eq_iff)
  then show ?thesis by (simp add: hex_sha256_def)
qed

lemma hex_encode_lower [simp]: "to_ascii_lowercase (hex_encode bs) = hex_encode bs"
proof -
  have "ascii_lower (hex_digit n) = hex_digit n" if "n < 16" for n
  proof -
    have "n \<in> set [0..<16]" using that by simp
    moreover have "list_all (\<lambda>n. ascii_lower (hex_digit n) = hex_digit n) [0..<16]" by code_simp
    ultimately show ?thesis unfolding list_all_iff by blast
  qed
  moreover have "unat (b :: byte) div 16 < 16" for b
    using unat_byte_less [of b] by (simp add: less_mult_imp_div_less del: unat_byte_less)
  ultimately show ?thesis
    by (simp add: hex_encode_def to_ascii_lowercase_def map_concat comp_def)
qed

lemma hex_sha256_lower [simp]: "to_ascii_lowercase (hex_sha256 h c) = hex_sha256 h c"
  by (simp add: hex_sha256_def)

lemma canonicalize_Inr [io_simps]:
  "canonicalize h p w = (Inr q, w') \<longleftrightarrow> w' = w \<and> q = canon h p \<and> path_exists h p w"
  by (auto simp: canonicalize_def)

lemma require_tool_Inr [io_simps]:
  "require_tool h t w = (Inr q, w') \<longleftrightarrow> w' = w \<and> which h t = Some q"
  by (auto simp: require_tool_def io_return_def io_fail_def split: option.splits)

lemma run_command_Inr [io_simps]:
  "run_command h argv w = (Inr r, w') \<longleftrightarrow> exec h argv w = (r, w') \<and> exit_ok r"
  by (auto simp: run_command_def split: prod.splits)

lemma io_if_Inr [io_simps]:
  "(if b then m else m') w = (Inr x, w') \<longleftrightarrow> (if b then m w = (Inr x, w') else m' w = (Inr x, w'))"
  by simp

end
