(* ===== verification/Tools.thy ===== *)
theory Tools
  imports World KConfig
begin

text \<open>
  \<open>src/tools.rs\<close>: running external tools.  Every mkosi run is watched: its output is scanned for package downloads
  from Ubuntu mirrors that are not the pinned snapshot.  A decoded line differs from its bytes only where they are
  not ASCII, which no test of the scan looks at.
\<close>

section \<open>Live mirrors\<close>

definition url_rest :: "string \<Rightarrow> string option" where
  "url_rest url =
     (case strip_prefix ''http://'' url of
        Some r \<Rightarrow> Some r
      | None \<Rightarrow> strip_prefix ''https://'' url)"

text \<open>\<open>split(c).next()\<close> is the part before the first separator.\<close>

definition url_host :: "string \<Rightarrow> string option" where
  "url_host url =
     map_option (\<lambda>r. hd (split_char CHR '':'' (hd (split_char CHR ''/'' r)))) (url_rest url)"

definition ubuntu_host :: "string \<Rightarrow> bool" where
  "ubuntu_host host \<longleftrightarrow> host = ''ubuntu.com'' \<or> suffix ''.ubuntu.com'' host"

definition is_live_mirror_fetch :: "string \<Rightarrow> bool" where
  "is_live_mirror_fetch line =
     (case split_whitespace line of
        [] \<Rightarrow> False
      | tag # parts \<Rightarrow>
         (case split_once CHR '':'' tag of
            None \<Rightarrow> False
          | Some (kind, seq) \<Rightarrow>
              if kind \<notin> {''Get'', ''Hit'', ''Ign'', ''Err''} then False
              else if seq = [] \<or> \<not> list_all is_ascii_digit seq then False
              else
                (case parts of
                   [] \<Rightarrow> False
                 | url # _ \<Rightarrow>
                    (case url_host url of
                       None \<Rightarrow> False
                     | Some host \<Rightarrow>
                         (let host = to_ascii_lowercase host in
                          ubuntu_host host \<and> host \<noteq> ''snapshot.ubuntu.com'')))))"

text \<open>\<open>read_until(b'\n')\<close> over the whole stream: lines with their newline.\<close>

fun lines_inclusive :: "string \<Rightarrow> string list" where
  "lines_inclusive [] = []"
| "lines_inclusive (c # s) =
     (if c = CHR 0x0A then [c] # lines_inclusive s
      else case lines_inclusive s of [] \<Rightarrow> [[c]] | l # ls \<Rightarrow> (c # l) # ls)"

definition skip_progress :: "string \<Rightarrow> string" where
  "skip_progress line = dropWhile (\<lambda>c. c = CHR 0x0D \<or> c = CHR '' '') line"

definition trim_end :: "string \<Rightarrow> string" where
  "trim_end s = rev (trim_end_rev (rev s))"

definition tee_scan :: "string \<Rightarrow> string list" where
  "tee_scan out = map trim_end (filter (\<lambda>l. is_live_mirror_fetch (skip_progress l)) (lines_inclusive out))"

section \<open>Commands\<close>

definition resolve_mkosi :: "host \<Rightarrow> ('e, string) io" where
  "resolve_mkosi h = then_io (require_tool h ''mkosi'') (canonicalize h)"

definition run_mkosi :: "host \<Rightarrow> string list \<Rightarrow> ('e, unit) io" where
  "run_mkosi h args =
     then_io (resolve_mkosi h) (\<lambda>mkosi.
     then_io (run_command h (''sudo'' # mkosi # args)) (\<lambda>r.
     let hits = tee_scan (cmd_stdout r) @ tee_scan (cmd_stderr r) in
     if hits \<noteq> [] then io_fail (LiveMirror hits) else io_return ()))"

definition sudo_mv :: "host \<Rightarrow> string \<Rightarrow> string \<Rightarrow> string \<Rightarrow> ('e, unit) io" where
  "sudo_mv h user src dst =
     then_io (run_command_streaming h [''sudo'', ''mv'', src, dst]) (\<lambda>_.
     run_command_streaming h [''sudo'', ''chown'', user, dst])"

definition sudo_chmod_readable :: "host \<Rightarrow> string \<Rightarrow> ('e, unit) io" where
  "sudo_chmod_readable h p = run_command_streaming h [''sudo'', ''chmod'', ''644'', p]"

text \<open>A refused removal is repeated through sudo; another failure is final.\<close>

definition force_remove_dir_all :: "host \<Rightarrow> string \<Rightarrow> ('e, unit) io" where
  "force_remove_dir_all h p = (\<lambda>w.
     if \<not> path_exists h p w then (Inr (), w)
     else if denied h Delete p w then run_command_streaming h [''sudo'', ''rm'', ''-rf'', ''--'', p] w
     else remove_dir_all h p w)"

section \<open>What the scan lets through\<close>

lemma lines_inclusive_concat: "concat (lines_inclusive s) = s"
  by (induction s) (auto split: list.splits)

lemma lines_inclusive_nonempty: "l \<in> set (lines_inclusive s) \<Longrightarrow> l \<noteq> []"
  by (induction s arbitrary: l) (auto split: if_splits list.splits)

lemma lines_inclusive_line:
  "CHR 0x0A \<notin> set l \<Longrightarrow> lines_inclusive (l @ CHR 0x0A # rest) = (l @ [CHR 0x0A]) # lines_inclusive rest"
  by (induction l) auto

lemma lines_inclusive_append:
  "lines_inclusive (a @ CHR 0x0A # b) = lines_inclusive (a @ [CHR 0x0A]) @ lines_inclusive b"
proof (induction a)
  case (Cons c a)
  have "lines_inclusive (a @ [CHR 0x0A]) \<noteq> []"
    by (cases a) (auto split: list.splits)
  then show ?case using Cons by (auto split: list.splits)
qed simp

lemma skip_progress_pad:
  "set pad \<subseteq> {CHR 0x0D, CHR '' ''} \<Longrightarrow> graphic tag \<Longrightarrow> tag \<noteq> [] \<Longrightarrow> skip_progress (pad @ tag @ rest) = tag @ rest"
  unfolding skip_progress_def
  by (subst dropWhile_append2) (auto simp: neq_Nil_conv byte_of_def)

lemma split_first_word:
  assumes "graphic tag" "tag \<noteq> []" "strip_ws rest = Some r"
  shows "split_whitespace (tag @ rest) = tag # split_whitespace rest"
proof -
  have "strip_ws (tag @ rest) = None" using assms strip_ws_graphic by (cases tag) auto
  then show ?thesis
    using assms take_word_graphic [of tag rest]
    by (subst split_whitespace.simps) (simp add: trim_start.simps [of "tag @ rest"])
qed

text \<open>
  A progress line of apt: a tag with a number, then the URL of what is fetched, whatever follows it.
\<close>

definition fetch_line :: "string \<Rightarrow> string \<Rightarrow> string \<Rightarrow> string \<Rightarrow> string \<Rightarrow> string" where
  "fetch_line kind seq scheme host path = kind @ '':'' @ seq @ '' '' @ scheme @ ''://'' @ host @ ''/'' @ path"

lemma split_char_first: "c \<notin> set a \<Longrightarrow> hd (split_char c (a @ c # b)) = a"
  by (induction a) (auto split: list.splits)

lemma fetch_line_live:
  assumes "kind \<in> {''Get'', ''Hit'', ''Ign'', ''Err''}" and "seq \<noteq> []" and "list_all is_ascii_digit seq"
    and "scheme = ''http'' \<or> scheme = ''https''"
    and "graphic host" and "CHR ''/'' \<notin> set host" and "CHR '':'' \<notin> set host"
    and "graphic path" and "rest = [] \<or> strip_ws rest \<noteq> None"
  shows "is_live_mirror_fetch (fetch_line kind seq scheme host path @ rest) \<longleftrightarrow>
    ubuntu_host (to_ascii_lowercase host) \<and> to_ascii_lowercase host \<noteq> ''snapshot.ubuntu.com''"
proof -
  let ?tag = "kind @ '':'' @ seq" and ?url = "scheme @ ''://'' @ host @ ''/'' @ path"
  have g: "graphic ?tag"
    using assms(1,3) by (auto simp: byte_of_def graphic_def list_all_iff is_ascii_digit_def)
  have u: "graphic ?url"
    using assms(4,5,8) by (auto simp: byte_of_def)
  have "split_whitespace (fetch_line kind seq scheme host path @ rest)
      = ?tag # split_whitespace ('' '' @ ?url @ rest)"
    using split_first_word [of ?tag "'' '' @ ?url @ rest"] g by (simp add: fetch_line_def)
  also have "split_whitespace ('' '' @ ?url @ rest) = ?url # split_whitespace rest"
    using split_whitespace_word [of ?url rest] u assms(9) by simp
  finally have w: "split_whitespace (fetch_line kind seq scheme host path @ rest) = ?tag # ?url # split_whitespace rest" .
  have t: "split_once CHR '':'' ?tag = Some (kind, seq)"
    using assms(1) by auto
  have "url_host ?url = Some host"
    using assms(4) split_char_first [OF assms(6), of path] split_char_none [OF assms(7)]
    by (auto simp: url_host_def url_rest_def strip_prefix_def)
  then show ?thesis
    using assms(1-3) t unfolding is_live_mirror_fetch_def w by (auto simp: Let_def)
qed

text \<open>Every download that the output of a run reports goes to the snapshot or to a host that is not Ubuntu's.\<close>

definition pinned :: "string \<Rightarrow> bool" where
  "pinned out \<longleftrightarrow>
     (\<forall>pad kind seq scheme host path rest.
        pad @ fetch_line kind seq scheme host path @ rest \<in> set (lines_inclusive out) \<longrightarrow>
        set pad \<subseteq> {CHR 0x0D, CHR '' ''} \<longrightarrow> kind \<in> {''Get'', ''Hit'', ''Ign'', ''Err''} \<longrightarrow>
        seq \<noteq> [] \<longrightarrow> list_all is_ascii_digit seq \<longrightarrow> scheme = ''http'' \<or> scheme = ''https'' \<longrightarrow>
        graphic host \<longrightarrow> CHR ''/'' \<notin> set host \<longrightarrow> CHR '':'' \<notin> set host \<longrightarrow>
        graphic path \<longrightarrow> rest = [] \<or> strip_ws rest \<noteq> None \<longrightarrow>
        \<not> ubuntu_host (to_ascii_lowercase host) \<or> to_ascii_lowercase host = ''snapshot.ubuntu.com'')"

lemma tee_scan_pinned: "tee_scan out = [] \<Longrightarrow> pinned out"
  unfolding pinned_def
proof (intro allI impI)
  fix pad kind seq scheme host path rest
  assume none: "tee_scan out = []"
    and l: "pad @ fetch_line kind seq scheme host path @ rest \<in> set (lines_inclusive out)"
    and pad: "set pad \<subseteq> {CHR 0x0D, CHR '' ''}" and kind: "kind \<in> {''Get'', ''Hit'', ''Ign'', ''Err''}"
    and ok: "seq \<noteq> []" "list_all is_ascii_digit seq" "scheme = ''http'' \<or> scheme = ''https''" "graphic host"
      "CHR ''/'' \<notin> set host" "CHR '':'' \<notin> set host" "graphic path" "rest = [] \<or> strip_ws rest \<noteq> None"
  have "\<not> is_live_mirror_fetch (skip_progress (pad @ fetch_line kind seq scheme host path @ rest))"
    using none l by (auto simp: tee_scan_def filter_empty_conv)
  moreover have "skip_progress (pad @ fetch_line kind seq scheme host path @ rest)
      = fetch_line kind seq scheme host path @ rest"
    using skip_progress_pad [OF pad, of kind] kind by (auto simp: fetch_line_def byte_of_def)
  ultimately show "\<not> ubuntu_host (to_ascii_lowercase host) \<or> to_ascii_lowercase host = ''snapshot.ubuntu.com''"
    using fetch_line_live [OF kind ok] by simp
qed

lemma run_mkosi_Inr:
  "run_mkosi h args w = (Inr u, w') \<longleftrightarrow>
     (\<exists>m r. which h ''mkosi'' = Some m \<and> path_exists h m w \<and> exec h (''sudo'' # canon h m # args) w = (r, w')
       \<and> exit_ok r \<and> tee_scan (cmd_stdout r) = [] \<and> tee_scan (cmd_stderr r) = [])"
  by (auto simp: run_mkosi_def resolve_mkosi_def io_simps Let_def split: if_splits)


definition sample_host :: "(string list \<Rightarrow> world \<Rightarrow> cmd_result \<times> world) \<Rightarrow> host" where
  "sample_host run =
     \<lparr> cwd = ''/work'', canon = (\<lambda>p. p), denied = (\<lambda>_ _ _. False), exec = run, which = (\<lambda>t. Some (''/bin/'' @ t)),
       sha256 = (\<lambda>_. 0), cpus = Some 4, now = ''2026-01-01T00:00:00Z'' \<rparr>"

definition sample_fetch :: cmd_result where
  "sample_fetch =
     \<lparr> exit_ok = True,
       cmd_stdout = ''Get:1 http://snapshot.ubuntu.com/ubuntu noble'' @ [CHR 0x0A],
       cmd_stderr = [] \<rparr>"


end
