(* ===== verification/KernelSource.thy ===== *)
theory KernelSource
  imports Tools
begin

text \<open>
  The steps of the kernel build: \<open>src/kernel/version.rs\<close> (the pinned version), \<open>fetch.rs\<close> (the tarball),
  \<open>aml.rs\<close> and \<open>snp_mr.rs\<close> (the patches), \<open>config.rs\<close> (containers and the configure phase) and \<open>compile.rs\<close>.
\<close>

datatype kernel_error =
    VersionMalformed nat string
  | VersionUnknownKey string
  | VersionMissing string
  | NoTrailer
  | ManyTrailers
  | WrongVersion string string string
  | TarballMismatch string string string
  | ConfigRejected config_error
  | NoSourceTree string
  | NoBzImage string
  | NoToolsTree string
  | BadSeed
  | NoJobsFlag
  | FragmentNotFound string
  | CertNotFound string
  | CertNotPem string
  | NoFileStem string
  | ArtifactCorrupted
  | InputsChanged
  | HarnessArgs

type_synonym 'a kernel_io = "(kernel_error, 'a) io"

section \<open>The pin\<close>

record kernel_version =
  linux_version :: string
  tarball_sha256 :: string

fun parse_pins ::
  "nat \<Rightarrow> string list \<Rightarrow> string option \<times> string option \<Rightarrow> kernel_error fault + string option \<times> string option" where
  "parse_pins lineno [] pins = Inr pins"
| "parse_pins lineno (raw # ls) pins =
     (let line = trim raw in
      if line = [] \<or> prefix ''#'' line then parse_pins (Suc lineno) ls pins
      else
        and_then (ok_or (Err (VersionMalformed (lineno + 1) raw)) (split_once CHR ''='' line)) (\<lambda>(k, v).
        if trim k = ''LINUX_VERSION'' then parse_pins (Suc lineno) ls (Some (trim v), snd pins)
        else if trim k = ''LINUX_TARBALL_SHA256'' then parse_pins (Suc lineno) ls (fst pins, Some (trim v))
        else bail (VersionUnknownKey (trim k))))"

definition kernel_version_parse :: "string \<Rightarrow> kernel_error fault + kernel_version" where
  "kernel_version_parse s =
     and_then (parse_pins 0 (str_lines s) (None, None)) (\<lambda>(v, t).
     and_then (ok_or (Err (VersionMissing ''LINUX_VERSION'')) v) (\<lambda>v.
     and_then (ok_or (Err (VersionMissing ''LINUX_TARBALL_SHA256'')) t) (\<lambda>t.
     Inr \<lparr> linux_version = v, tarball_sha256 = t \<rparr>)))"

definition kernel_version_read :: "host \<Rightarrow> string \<Rightarrow> kernel_version kernel_io" where
  "kernel_version_read h p = then_io (read_to_string h p) (\<lambda>s. io_of (kernel_version_parse s))"

section \<open>Patches\<close>

definition NL :: string where "NL = [CHR 0x0A]"

definition VERSION_TRAILER :: string where "VERSION_TRAILER = ''Linux-Version:''"

definition trailer_versions :: "string \<Rightarrow> string list" where
  "trailer_versions header =
     filter (\<lambda>v. v \<noteq> []) (map trim (List.map_filter (strip_prefix VERSION_TRAILER) (str_lines header)))"

definition supported_version :: "string \<Rightarrow> kernel_error fault + string" where
  "supported_version patch =
     (let header = (case split_once_str (NL @ ''---'' @ NL) patch of None \<Rightarrow> patch | Some (front, _) \<Rightarrow> front) in
      case trailer_versions header of
        [] \<Rightarrow> bail NoTrailer
      | [v] \<Rightarrow> Inr v
      | _ # _ # _ \<Rightarrow> bail ManyTrailers)"

definition verify_version :: "host \<Rightarrow> string \<Rightarrow> string \<Rightarrow> unit kernel_io" where
  "verify_version h patch_path version =
     then_io (read_to_string h patch_path) (\<lambda>patch.
     then_io (io_of (supported_version patch)) (\<lambda>supported.
     io_check (version = supported) (WrongVersion patch_path supported version)))"

definition AML_PATCH :: string where "AML_PATCH = ''kernel/patches/0001-acpi-trusted-aml.patch''"
definition DSDT_SOURCE :: string where "DSDT_SOURCE = ''kernel/trusted-dsdt.asl''"
definition STAGED_DSDT :: string where "STAGED_DSDT = ''confos-trusted-dsdt.asl''"
definition STAGED_AML_PATCH :: string where "STAGED_AML_PATCH = ''confos-trusted-aml.patch''"
definition SNP_MR_PATCH :: string where "SNP_MR_PATCH = ''kernel/patches/0002-sev-guest-measurement-registers.patch''"
definition STAGED_SNP_MR_PATCH :: string where "STAGED_SNP_MR_PATCH = ''confos-snp-mr.patch''"

definition PATCHES :: "string list" where "PATCHES = [AML_PATCH, SNP_MR_PATCH]"

definition script :: "string list \<Rightarrow> string" where
  "script ls = concat (map (\<lambda>l. l @ NL) ls)"

definition AML_STAGE_SCRIPT :: string where
  "AML_STAGE_SCRIPT = script
     [''set -eu'', ''cd /build'',
      ''patch --batch --forward --fuzz=0 -p1 < confos-trusted-aml.patch'',
      ''iasl -ve -tc -p dsdt confos-trusted-dsdt.asl'',
      ''grep -q '' @ [CHR 0x27] @ ''unsigned char dsdt_aml_code'' @ [CHR 0x5C] @ ''['' @ [CHR 0x5C] @ '']'' @ [CHR 0x27]
        @ '' dsdt.hex'',
      ''cp dsdt.hex include/confos-trusted-dsdt.h'']"

definition SNP_MR_STAGE_SCRIPT :: string where
  "SNP_MR_STAGE_SCRIPT = script
     [''set -eu'', ''cd /build'', ''patch --batch --forward --fuzz=0 -p1 < confos-snp-mr.patch'']"

section \<open>Containers\<close>

record bind =
  bind_host :: string
  bind_guest :: string
  bind_read_only :: bool

definition bind_args :: "bind \<Rightarrow> string list" where
  "bind_args b = [if bind_read_only b then ''--bind-ro'' else ''--bind'', bind_host b @ '':'' @ bind_guest b]"

definition env_args :: "string \<times> string \<Rightarrow> string list" where
  "env_args kv = [''--setenv'', fst kv @ ''='' @ snd kv]"

definition nspawn_exec ::
  "host \<Rightarrow> string \<Rightarrow> bind list \<Rightarrow> (string \<times> string) list \<Rightarrow> string list \<Rightarrow> ('e, unit) io" where
  "nspawn_exec h tools_tree binds env_vars argv =
     then_io (require_tool h ''systemd-nspawn'') (\<lambda>nspawn_bin.
     run_command_streaming h (''sudo'' # nspawn_bin #
       [''--quiet'', ''--register=no'', ''--keep-unit'', ''--ephemeral'', ''--directory'', tools_tree]
       @ concat (map bind_args binds) @ concat (map env_args env_vars) @ argv))"

definition nspawn ::
  "host \<Rightarrow> string \<Rightarrow> string \<Rightarrow> string \<Rightarrow> (string \<times> string) list \<Rightarrow> string \<Rightarrow> ('e, unit) io" where
  "nspawn h tools_tree host_dir mount_at env_vars scr =
     nspawn_exec h tools_tree
       [\<lparr> bind_host = host_dir, bind_guest = mount_at, bind_read_only = False \<rparr>] env_vars
       [''/bin/bash'', ''-c'', scr]"

definition aml_stage :: "host \<Rightarrow> string \<Rightarrow> string \<Rightarrow> unit kernel_io" where
  "aml_stage h tools_tree kernel_src =
     then_io (copy_file h DSDT_SOURCE (path_join kernel_src STAGED_DSDT)) (\<lambda>_.
     then_io (copy_file h AML_PATCH (path_join kernel_src STAGED_AML_PATCH)) (\<lambda>_.
     nspawn h tools_tree kernel_src ''/build'' [] AML_STAGE_SCRIPT))"

definition snp_mr_stage :: "host \<Rightarrow> string \<Rightarrow> string \<Rightarrow> unit kernel_io" where
  "snp_mr_stage h tools_tree kernel_src =
     then_io (copy_file h SNP_MR_PATCH (path_join kernel_src STAGED_SNP_MR_PATCH)) (\<lambda>_.
     nspawn h tools_tree kernel_src ''/build'' [] SNP_MR_STAGE_SCRIPT)"

section \<open>The tarball\<close>

definition major_dir_for :: "string \<Rightarrow> string" where
  "major_dir_for version = ''v'' @ hd (split_char CHR ''.'' version) @ ''.x''"

definition eq_ignore_ascii_case :: "string \<Rightarrow> string \<Rightarrow> bool" where
  "eq_ignore_ascii_case a b \<longleftrightarrow> to_ascii_lowercase a = to_ascii_lowercase b"

definition tarball_url :: "string \<Rightarrow> string" where
  "tarball_url version =
     ''https://cdn.kernel.org/pub/linux/kernel/'' @ major_dir_for version @ ''/linux-'' @ version @ ''.tar.xz''"

definition tarball_dest :: "string \<Rightarrow> string \<Rightarrow> string" where
  "tarball_dest cache_dir version = path_join cache_dir (''linux-'' @ version @ ''.tar.xz'')"

definition download_args :: "string \<Rightarrow> string \<Rightarrow> string list" where
  "download_args dest url =
     [''curl'', ''--fail'', ''--show-error'', ''--silent'', ''--location'', ''--retry'', ''5'',
      ''--retry-all-errors'', ''--retry-delay'', ''5'', ''--output'', dest, url]"

definition tarball_cached :: "host \<Rightarrow> string \<Rightarrow> string \<Rightarrow> bool kernel_io" where
  "tarball_cached h dest expected =
     (\<lambda>w. if path_exists h dest w
          then then_io (sha256_file h dest) (\<lambda>actual. io_return (eq_ignore_ascii_case actual expected)) w
          else (Inr False, w))"

definition fetch :: "host \<Rightarrow> string \<Rightarrow> string \<Rightarrow> string \<Rightarrow> string kernel_io" where
  "fetch h version expected_sha256 cache_dir =
     then_io (create_dir_all h cache_dir) (\<lambda>_.
     let url = tarball_url version; dest = tarball_dest cache_dir version in
     then_io (tarball_cached h dest expected_sha256) (\<lambda>hit.
     if hit then io_return dest
     else
       then_io (run_command_streaming h (download_args dest url)) (\<lambda>_.
       then_io (sha256_file h dest) (\<lambda>actual.
       then_io (io_check (eq_ignore_ascii_case actual expected_sha256)
                  (TarballMismatch dest expected_sha256 actual)) (\<lambda>_.
       io_return dest)))))"

definition extract_tarball :: "host \<Rightarrow> string \<Rightarrow> string \<Rightarrow> unit kernel_io" where
  "extract_tarball h tarball dest =
     run_command_streaming h [''tar'', ''--extract'', ''--xz'', ''--file'', tarball, ''--directory'', dest]"

section \<open>The configure phase\<close>

definition update_snapshot :: "host \<Rightarrow> string \<Rightarrow> string \<Rightarrow> bool kernel_io" where
  "update_snapshot h resolved snapshot =
     then_io (read_bytes h resolved) (\<lambda>new.
     then_io (io_try (read_bytes h snapshot :: string kernel_io)) (\<lambda>old.
     then_io (write_bytes h snapshot new) (\<lambda>_.
     io_return (old \<noteq> Some new))))"

definition configure_script :: "bool \<Rightarrow> string" where
  "configure_script extra =
     script ([''set -eux'', ''cd /build'', ''make x86_64_defconfig'',
        ''scripts/kconfig/merge_config.sh -m .config .fragments/required.config'',
        ''scripts/kconfig/merge_config.sh -m .config .fragments/hardening.config'',
        ''scripts/kconfig/merge_config.sh -m .config .fragments/confidential.config'']
      @ (if extra then [''scripts/kconfig/merge_config.sh -m .config .fragments/extra.config''] else [])
      @ [''make mod2yesconfig'', ''make olddefconfig''])"

text \<open>\<open>file_name().unwrap_or_default()\<close>\<close>

definition fragment_name :: "string \<Rightarrow> string" where
  "fragment_name p = (case file_name p of None \<Rightarrow> [] | Some n \<Rightarrow> n)"

definition verify_fragment_options :: "host \<Rightarrow> string list \<Rightarrow> string \<Rightarrow> unit kernel_io" where
  "verify_fragment_options h fragments resolved =
     then_io (io_map (\<lambda>f. then_io (read_to_string h f) (\<lambda>body. io_return (fragment_name f, body))) fragments) (\<lambda>fs.
     then_io (read_to_string h resolved) (\<lambda>config.
     io_of (map_err ConfigRejected (check_fragment_options fs config))))"

definition verify_builder_invariants :: "host \<Rightarrow> string \<Rightarrow> unit kernel_io" where
  "verify_builder_invariants h resolved =
     then_io (read_to_string h resolved) (\<lambda>config.
     io_of (map_err ConfigRejected (check_builder_invariants config)))"

definition canonical_option :: "host \<Rightarrow> string option \<Rightarrow> string option kernel_io" where
  "canonical_option h p =
     (case p of None \<Rightarrow> io_return None | Some f \<Rightarrow> then_io (canonicalize h f) (\<lambda>f. io_return (Some f)))"

definition stage_extra :: "host \<Rightarrow> string option \<Rightarrow> string \<Rightarrow> unit kernel_io" where
  "stage_extra h extra dest = (case extra of None \<Rightarrow> io_return () | Some e \<Rightarrow> copy_file h e dest)"

definition run_configure_phase ::
  "host \<Rightarrow> string \<Rightarrow> string \<Rightarrow> string \<Rightarrow> string \<Rightarrow> string \<Rightarrow> string option \<Rightarrow> unit kernel_io" where
  "run_configure_phase h tools_tree kernel_dir required hardening cvm extra =
     then_io (canonicalize h kernel_dir) (\<lambda>kernel_abs.
     then_io (canonicalize h required) (\<lambda>required_abs.
     then_io (canonicalize h hardening) (\<lambda>hardening_abs.
     then_io (canonicalize h cvm) (\<lambda>cvm_abs.
     then_io (canonical_option h extra) (\<lambda>extra_abs.
     let frag_dir = path_join kernel_abs ''.fragments''; resolved = path_join kernel_abs ''.config'' in
     then_io (create_dir_all h frag_dir) (\<lambda>_.
     then_io (copy_file h required_abs (path_join frag_dir ''required.config'')) (\<lambda>_.
     then_io (copy_file h hardening_abs (path_join frag_dir ''hardening.config'')) (\<lambda>_.
     then_io (copy_file h cvm_abs (path_join frag_dir ''confidential.config'')) (\<lambda>_.
     then_io (stage_extra h extra_abs (path_join frag_dir ''extra.config'')) (\<lambda>_.
     then_io (nspawn h tools_tree kernel_abs ''/build'' [(''HOME'', ''/root'')]
                (configure_script (extra_abs \<noteq> None))) (\<lambda>_.
     then_io (remove_dir_all h frag_dir) (\<lambda>_.
     then_io (verify_fragment_options h ([required_abs, hardening_abs, cvm_abs]
                @ (case extra_abs of None \<Rightarrow> [] | Some e \<Rightarrow> [e])) resolved) (\<lambda>_.
     verify_builder_invariants h resolved)))))))))))))"

section \<open>Compilation\<close>

definition compile_script :: "nat \<Rightarrow> string \<Rightarrow> string" where
  "compile_script parallelism random_seed =
     script [''set -eux'', ''cd /build'',
       ''make -j'' @ nat_digits 10 parallelism @ '' HOSTCFLAGS='' @ [CHR 0x27]
         @ ''-g -O2 -Wno-error=discarded-qualifiers'' @ [CHR 0x27] @ '' KCFLAGS='' @ [CHR 0x27]
         @ ''-frandom-seed='' @ random_seed @ [CHR 0x27] @ '' bzImage 2>&1 | tee -a /build.log'',
       ''test -f arch/x86/boot/bzImage'']"

definition compile_env :: "(string \<times> string) list" where
  "compile_env =
     [(''SOURCE_DATE_EPOCH'', ''0''), (''KBUILD_BUILD_TIMESTAMP'', ''@0''), (''KBUILD_BUILD_USER'', ''confos''),
      (''KBUILD_BUILD_HOST'', ''confos''), (''KCONFIG_NOTIMESTAMP'', ''1'')]"

definition compile_argv :: "string \<Rightarrow> string \<Rightarrow> string \<Rightarrow> string \<Rightarrow> string \<Rightarrow> string list" where
  "compile_argv nspawn_bin tools_tree kernel_abs log_abs scr =
     [''sudo'', nspawn_bin, ''--quiet'', ''--register=no'', ''--keep-unit'', ''--ephemeral'', ''--directory'',
      tools_tree, ''--bind'', kernel_abs @ '':/build'', ''--bind'', log_abs @ '':/build.log'']
     @ concat (map env_args compile_env) @ [''/bin/bash'', ''-c'', scr]"

definition compile_run :: "host \<Rightarrow> string \<Rightarrow> string \<Rightarrow> string \<Rightarrow> string \<Rightarrow> string \<Rightarrow> unit kernel_io" where
  "compile_run h tools_tree kernel_dir out_vmlinuz random_seed log_path =
     then_io (write_bytes h log_path []) (\<lambda>_.
     then_io (canonicalize h kernel_dir) (\<lambda>kernel_abs.
     then_io (canonicalize h log_path) (\<lambda>log_abs.
     then_io (require_tool h ''systemd-nspawn'') (\<lambda>nspawn_bin.
     then_io (run_command_streaming h (compile_argv nspawn_bin tools_tree kernel_abs log_abs
                (compile_script (case cpus h of None \<Rightarrow> 1 | Some n \<Rightarrow> n) random_seed))) (\<lambda>_.
     let bz = path_join kernel_abs ''arch/x86/boot/bzImage'' in
     then_io (io_get (path_exists h bz)) (\<lambda>there.
     then_io (io_check there (NoBzImage bz)) (\<lambda>_.
     copy_file h bz out_vmlinuz)))))))"

section \<open>What the steps guarantee\<close>

lemma tarball_cached_Inr:
  "tarball_cached h dest e w = (Inr hit, w') \<longleftrightarrow> w' = w \<and>
     (if path_exists h dest w
      then (\<exists>c. \<not> denied h Fetch dest w \<and> node_at h w dest = Some (Regular c)
              \<and> hit = (hex_sha256 h c = to_ascii_lowercase e))
      else \<not> hit)"
  by (auto simp: tarball_cached_def io_simps eq_ignore_ascii_case_def split: if_splits)

text \<open>
  The tarball that \<open>fetch\<close> returns has the pinned SHA-256 at the moment it returns, whether it came from the
  cache or from the network, whatever the download left behind.
\<close>

theorem fetch_returns_pinned:
  assumes "fetch h version expected cache_dir w = (Inr p, w')"
  shows "p = tarball_dest cache_dir version
    \<and> (\<exists>c. node_at h w' p = Some (Regular c) \<and> hex_sha256 h c = to_ascii_lowercase expected)"
  using assms
  by (auto simp: fetch_def io_simps tarball_cached_Inr eq_ignore_ascii_case_def Let_def split: if_splits)

definition read_as :: "host \<Rightarrow> world \<Rightarrow> string \<Rightarrow> string \<times> string \<Rightarrow> bool" where
  "read_as h w f nb \<longleftrightarrow> fst nb = fragment_name f \<and> node_at h w f = Some (Regular (snd nb))"

lemma verify_fragment_options_Inr:
  assumes "verify_fragment_options h fs resolved w = (Inr u, w')"
  shows "w' = w \<and> (\<exists>bodies config. list_all2 (read_as h w) fs bodies
    \<and> node_at h w resolved = Some (Regular config) \<and> check_fragment_options bodies config = Inr ())"
proof -
  let ?read = "\<lambda>f. then_io (read_to_string h f) (\<lambda>body. io_return (fragment_name f, body)) :: (string \<times> string) kernel_io"
  obtain bodies w1 config where *: "io_map ?read fs w = (Inr bodies, w1)"
    "node_at h w1 resolved = Some (Regular config)" "check_fragment_options bodies config = Inr ()" "w' = w1"
    using assms by (auto simp: verify_fragment_options_def io_simps)
  have "reads_only (?read f)" for f by auto
  then have "w1 = w \<and> list_all2 (\<lambda>f b. ?read f w = (Inr b, w)) fs bodies"
    using *(1) io_map_reads [of ?read] by blast
  moreover have "?read f w = (Inr b, w) \<Longrightarrow> read_as h w f b" for f b
    by (auto simp: io_simps read_as_def)
  ultimately show ?thesis using * by (blast intro: list_all2_mono)
qed

lemma canonical_option_Inr [io_simps]:
  "canonical_option h p w = (Inr q, w') \<longleftrightarrow>
     w' = w \<and> q = map_option (canon h) p \<and> pred_option (\<lambda>f. path_exists h f w) p"
  by (auto simp: canonical_option_def io_simps split: option.splits)

definition config_inputs :: "string \<Rightarrow> string \<Rightarrow> string \<Rightarrow> string option \<Rightarrow> string list" where
  "config_inputs required hardening cvm extra =
     [required, hardening, cvm] @ (case extra of None \<Rightarrow> [] | Some e \<Rightarrow> [e])"

lemma configure_phase_spec:
  assumes "run_configure_phase h tools_tree dir required hardening cvm extra w = (Inr u, w')"
  shows "\<exists>config bodies. node_at h w' (path_join (canon h dir) ''.config'') = Some (Regular config)
    \<and> hardened (config_values config) \<and> all_honoured (config_values config) (fragment_lines bodies)
    \<and> list_all2 (read_as h w') (map (canon h) (config_inputs required hardening cvm extra)) bodies"
proof -
  let ?resolved = "path_join (canon h dir) ''.config''"
  let ?fs = "map (canon h) (config_inputs required hardening cvm extra)"
  obtain w1 w2 u1 where v: "verify_fragment_options h ?fs ?resolved w1 = (Inr u1, w2)"
    and b: "verify_builder_invariants h ?resolved w2 = (Inr u, w')"
    using assms unfolding run_configure_phase_def
    by (cases extra) (auto simp: io_simps Let_def config_inputs_def)
  obtain bodies config where 1: "w2 = w1" "list_all2 (read_as h w1) ?fs bodies"
    "node_at h w1 ?resolved = Some (Regular config)" "check_fragment_options bodies config = Inr ()"
    using verify_fragment_options_Inr [OF v] by blast
  have 2: "w' = w2" "check_builder_invariants config = Inr ()"
    using b 1 by (auto simp: verify_builder_invariants_def io_simps)
  show ?thesis
    using 1 2 builder_invariants_hardened check_fragment_options_spec unfolding all_honoured_def by blast
qed

text \<open>
  When the configure phase succeeds, the \<open>.config\<close> that the kernel is compiled with is hardened: lockdown and
  the trusted AML are on, no way to read kernel memory is compiled in, whatever the fragments of the caller ask
  for; and it honours the last request of every fragment, the caller's one last.
\<close>

theorem configured_kernel_hardened:
  assumes "run_configure_phase h tools_tree dir required hardening cvm extra w = (Inr (), w')"
  shows "\<exists>config bodies. node_at h w' (path_join (canon h dir) ''.config'') = Some (Regular config)
    \<and> hardened (config_values config) \<and> all_honoured (config_values config) (fragment_lines bodies)
    \<and> list_all2 (read_as h w') (map (canon h) (config_inputs required hardening cvm extra)) bodies"
  using assms by (rule configure_phase_spec)

end
