(* ===== verification/KernelTools.thy ===== *)
theory KernelTools
  imports KernelSource
begin

text \<open>
  \<open>src/commands/kernel/tools_tree.rs\<close>: the tools tree that kernels are built in, its rebuild stamp, and the digest
  of its inputs.  The tree of inputs holds no symbolic links, so the canonical path of an entry is the canonical path
  of its directory with the name of the entry; the walk keeps both.
\<close>

definition TOOLS_TREE_DIR :: string where "TOOLS_TREE_DIR = ''mkosi/kernel-builder''"
definition TOOLS_TREE_CONF :: string where "TOOLS_TREE_CONF = ''mkosi/kernel-builder/mkosi.conf''"
definition TOOLS_TREE_SANDBOX :: string where "TOOLS_TREE_SANDBOX = ''mkosi/kernel-builder/mkosi.sandbox''"
definition TOOLS_TREE_OUTPUT :: string where "TOOLS_TREE_OUTPUT = ''mkosi/kernel-builder/mkosi.output''"
definition HARNESS_TOOLS_TREE_OUTPUT :: string where
  "HARNESS_TOOLS_TREE_OUTPUT = ''mkosi/kernel-builder/mkosi.output-acpi''"
definition HARNESS_TOOLS_PACKAGES :: "string list" where
  "HARNESS_TOOLS_PACKAGES = [''libc6-dev'', ''python3'', ''qemu-system-x86'']"

section \<open>The walk\<close>

definition is_subdir :: "host \<Rightarrow> world \<Rightarrow> string \<Rightarrow> string \<Rightarrow> string \<Rightarrow> bool" where
  "is_subdir h w path dir n \<longleftrightarrow>
     \<not> denied h Look (path_join path n) w \<and> bt_get w (dir @ ''/'' @ n) = Some Directory"

text \<open>The entries strictly below a directory.\<close>

definition entries_below :: "world \<Rightarrow> string \<Rightarrow> string set" where
  "entries_below w dir = {q \<in> set (map fst w). prefix (dir @ ''/'') q}"

lemma child_dirs_smaller:
  assumes "distinct ns" and "\<And>n. n \<in> set ns \<Longrightarrow> CHR ''/'' \<notin> set n \<and> bt_get w (dir @ ''/'' @ n) = Some Directory"
  shows "(\<Sum>n\<leftarrow>ns. Suc (card (entries_below w (dir @ ''/'' @ n)))) \<le> card (entries_below w dir)"
proof -
  let ?S = "\<lambda>n. insert (dir @ ''/'' @ n) (entries_below w (dir @ ''/'' @ n))"
  have fin: "finite (entries_below w d)" for d by (simp add: entries_below_def)
  have key: "dir @ ''/'' @ n \<in> set (map fst w)" if "n \<in> set ns" for n
    using assms(2) [OF that] by (auto simp: bt_get_def dest!: map_of_SomeD intro!: image_eqI)
  have sub: "(\<Union>n \<in> set ns. ?S n) \<subseteq> entries_below w dir"
    using key by (auto simp: entries_below_def prefix_def)
  have head: "a = b" if "a @ x = b @ y" "CHR ''/'' \<notin> set a" "CHR ''/'' \<notin> set b"
    "x = [] \<or> hd x = CHR ''/''" "y = [] \<or> hd y = CHR ''/''" for a b x y :: string
  proof -
    have t: "takeWhile (\<lambda>c. c \<noteq> CHR ''/'') (a @ x) = a" if "CHR ''/'' \<notin> set a" "x = [] \<or> hd x = CHR ''/''"
      for a x :: string
      using that by (cases x) (auto simp: takeWhile_append takeWhile_eq_all_conv intro: takeWhile_append2)
    show ?thesis using t [of a x] t [of b y] that by metis
  qed
  have disj: "?S m \<inter> ?S n = {}" if "m \<in> set ns" "n \<in> set ns" "m \<noteq> n" for m n
  proof (rule ccontr)
    assume "?S m \<inter> ?S n \<noteq> {}"
    then obtain q where q: "q \<in> ?S m" "q \<in> ?S n" by blast
    have "\<exists>x. q = dir @ ''/'' @ k @ x \<and> (x = [] \<or> hd x = CHR ''/'')" if "q \<in> ?S k" for k
      using that by (auto simp: entries_below_def prefix_def)
    then obtain x y where "dir @ ''/'' @ m @ x = dir @ ''/'' @ n @ y" "x = [] \<or> hd x = CHR ''/''"
        "y = [] \<or> hd y = CHR ''/''"
      using q by metis
    then have "m @ x = n @ y" "x = [] \<or> hd x = CHR ''/''" "y = [] \<or> hd y = CHR ''/''" by simp_all
    then show False using head assms(2) that by blast
  qed
  have "(\<Sum>n\<leftarrow>ns. Suc (card (entries_below w (dir @ ''/'' @ n)))) = (\<Sum>n \<in> set ns. card (?S n))"
  proof -
    have "dir @ ''/'' @ n \<notin> entries_below w (dir @ ''/'' @ n)" for n
      by (auto simp: entries_below_def prefix_def)
    then have "card (?S n) = Suc (card (entries_below w (dir @ ''/'' @ n)))" for n
      using fin by simp
    then show ?thesis using assms(1) by (simp add: sum_list_distinct_conv_sum_set)
  qed
  also have "\<dots> = card (\<Union>n \<in> set ns. ?S n)"
    by (rule card_UN_disjoint [symmetric]) (use fin disj in auto)
  also have "\<dots> \<le> card (entries_below w dir)"
    by (rule card_mono) (use fin sub in auto)
  finally show ?thesis .
qed

lemma child_names_ok: "n \<in> set (child_names w dir) \<Longrightarrow> CHR ''/'' \<notin> set n"
  by (auto simp: child_names_def child_name_def List.map_filter_def split: option.splits if_splits)

text \<open>The loop over the stack of directories: a popped directory adds its files and pushes its directories.\<close>

function walk ::
  "host \<Rightarrow> world \<Rightarrow> (string \<times> string) list \<Rightarrow> string list \<Rightarrow> 'e io_error fault + string list" where
  "walk h w [] files = Inr files"
| "walk h w ((path, dir) # stack) files =
     (if denied h Fetch path w \<or> bt_get w dir \<noteq> Some Directory then bail (Io path)
      else
        walk h w
          (map (\<lambda>n. (path_join path n, dir @ ''/'' @ n)) (rev (filter (is_subdir h w path dir) (child_names w dir)))
             @ stack)
          (files @ map (path_join path) (filter (\<lambda>n. \<not> is_subdir h w path dir n) (child_names w dir))))"
  by pat_completeness auto
termination
proof (relation "measure (\<lambda>(h, w, stack, files). \<Sum>pd\<leftarrow>stack. Suc (card (entries_below w (snd pd))))")
  fix h :: host and w path dir and stack :: "(string \<times> string) list" and files :: "string list"
  let ?ns = "filter (is_subdir h w path dir) (child_names w dir)"
  have "(\<Sum>n\<leftarrow>?ns. Suc (card (entries_below w (dir @ ''/'' @ n)))) \<le> card (entries_below w dir)"
    by (rule child_dirs_smaller) (auto simp: is_subdir_def dest: child_names_ok, simp add: child_names_def)
  then show "((h, w, map (\<lambda>n. (path_join path n, dir @ ''/'' @ n)) (rev ?ns) @ stack,
      files @ map (path_join path) (filter (\<lambda>n. \<not> is_subdir h w path dir n) (child_names w dir))),
      h, w, (path, dir) # stack, files)
    \<in> measure (\<lambda>(h, w, stack, files). \<Sum>pd\<leftarrow>stack. Suc (card (entries_below w (snd pd))))"
    by (simp add: comp_def rev_map [symmetric] sum_list_rev)
qed simp

section \<open>The digest\<close>

definition hash_line :: "host \<Rightarrow> string \<times> string \<Rightarrow> string" where
  "hash_line h pc = fst pc @ '':'' @ hex_sha256 h (snd pc) @ NL"

definition tree_transcript :: "host \<Rightarrow> (string \<times> string) list \<Rightarrow> string" where
  "tree_transcript h entries = concat (map (hash_line h) entries)"

definition hash_tree_inputs :: "host \<Rightarrow> string \<Rightarrow> string \<Rightarrow> string kernel_io" where
  "hash_tree_inputs h conf sandbox =
     then_io (\<lambda>w. (walk h w [(sandbox, canon h sandbox)] [conf], w)) (\<lambda>files.
     then_io (io_map (\<lambda>f. then_io (read_bytes h f) (\<lambda>c. io_return (f, c))) (sort_key path_components files)) (\<lambda>entries.
     io_return (hex_sha256 h (tree_transcript h entries))))"

definition tools_tree_inputs_digest :: "host \<Rightarrow> string kernel_io" where
  "tools_tree_inputs_digest h = hash_tree_inputs h TOOLS_TREE_CONF TOOLS_TREE_SANDBOX"

section \<open>The tree\<close>

definition stamp_key :: "string \<Rightarrow> string list \<Rightarrow> string" where
  "stamp_key digest extra_packages = digest @ NL @ join_str '','' extra_packages"

definition tools_mkosi_args :: "host \<Rightarrow> string \<Rightarrow> string list \<Rightarrow> string list" where
  "tools_mkosi_args h out extra_packages =
     [''--directory'', TOOLS_TREE_DIR, ''--output-directory='' @ path_join (cwd h) out, ''--force'']
     @ map (\<lambda>pkg. ''--package='' @ pkg) extra_packages"

definition rebuild_tools_tree :: "host \<Rightarrow> string list \<Rightarrow> string \<Rightarrow> string \<Rightarrow> string kernel_io" where
  "rebuild_tools_tree h extra_packages out key =
     (let tree = path_join out ''image''; stamp_path = path_join out ''.confos-tools-stamp'' in
      then_io (io_try (remove_file h stamp_path :: unit kernel_io)) (\<lambda>_.
      then_io (create_dir_all h out) (\<lambda>_.
      then_io (run_mkosi h (tools_mkosi_args h out extra_packages)) (\<lambda>_.
      then_io (io_get (path_exists h tree)) (\<lambda>there.
      then_io (io_check there (NoToolsTree tree)) (\<lambda>_.
      then_io (write_bytes h stamp_path key) (\<lambda>_.
      canonicalize h tree)))))))"

definition tools_tree_current :: "host \<Rightarrow> bool \<Rightarrow> string \<Rightarrow> string \<Rightarrow> bool kernel_io" where
  "tools_tree_current h force out key =
     then_io (io_get (path_exists h (path_join out ''image''))) (\<lambda>there.
     if \<not> force \<and> there then
       then_io (io_try (read_to_string h (path_join out ''.confos-tools-stamp'') :: string kernel_io)) (\<lambda>stamped.
       io_return (stamped = Some key))
     else io_return False)"

definition ensure_tools_tree :: "host \<Rightarrow> bool \<Rightarrow> string list \<Rightarrow> string \<Rightarrow> string kernel_io" where
  "ensure_tools_tree h force extra_packages out =
     then_io (tools_tree_inputs_digest h) (\<lambda>digest.
     let key = stamp_key digest extra_packages in
     then_io (tools_tree_current h force out key) (\<lambda>current.
     if current then canonicalize h (path_join out ''image'')
     else rebuild_tools_tree h extra_packages out key))"

section \<open>What the digest and the stamp say\<close>

lemma hex_sha256_chars: "CHR 0x0A \<notin> set (hex_sha256 h c)" "length (hex_sha256 h c) = 64"
  using graphic_hex_encode [of "le_bytes 32 (unat (sha256 h (as_bytes c)))"]
  by (auto simp: hex_sha256_def graphic_def byte_of_def)

definition clean :: "string \<times> string \<Rightarrow> bool" where
  "clean e \<longleftrightarrow> CHR 0x0A \<notin> set (fst e)"

lemma hash_line_inject:
  assumes "clean a" "clean b" and "hash_line h a @ s = hash_line h b @ t"
  shows "fst a = fst b" "hex_sha256 h (snd a) = hex_sha256 h (snd b)" "s = t"
proof -
  let ?l = "\<lambda>e. fst e @ '':'' @ hex_sha256 h (snd e)"
  have nl: "CHR 0x0A \<notin> set (?l e)" if "clean e" for e
    using that hex_sha256_chars by (simp add: clean_def)
  have t: "takeWhile (\<lambda>c. c \<noteq> CHR 0x0A) (?l e @ CHR 0x0A # u) = ?l e" if "clean e" for e u
    using nl [OF that] by (subst takeWhile_append2) auto
  have eq: "?l a @ CHR 0x0A # s = ?l b @ CHR 0x0A # t"
    using assms(3) by (simp add: hash_line_def NL_def)
  have l: "?l a = ?l b"
    using arg_cong [OF eq, of "takeWhile (\<lambda>c. c \<noteq> CHR 0x0A)"] unfolding t [OF assms(1)] t [OF assms(2)] .
  show "s = t"
    using eq unfolding l by (simp only: same_append_eq list.inject)
  have "length (fst a) = length (fst b)"
    using arg_cong [OF l, of length] hex_sha256_chars(2) by simp
  then show "fst a = fst b" "hex_sha256 h (snd a) = hex_sha256 h (snd b)"
    using l by simp_all
qed

lemma tree_transcript_inject:
  "list_all clean xs \<Longrightarrow> list_all clean ys \<Longrightarrow> tree_transcript h xs = tree_transcript h ys \<Longrightarrow>
   list_all2 (\<lambda>a b. fst a = fst b \<and> hex_sha256 h (snd a) = hex_sha256 h (snd b)) xs ys"
proof (induction xs arbitrary: ys)
  case Nil
  then show ?case by (cases ys) (simp_all add: tree_transcript_def hash_line_def NL_def)
next
  case (Cons x xs)
  then obtain y zs where ys: "ys = y # zs"
    by (cases ys) (simp_all add: tree_transcript_def hash_line_def NL_def)
  then have eq: "hash_line h x @ tree_transcript h xs = hash_line h y @ tree_transcript h zs"
    using Cons.prems by (simp add: tree_transcript_def)
  have c: "clean x" "clean y" "list_all clean xs" "list_all clean zs" using Cons.prems ys by simp_all
  note h = hash_line_inject [OF c(1,2) eq]
  show ?case
    unfolding ys list_all2_Cons by (intro conjI h(1,2) Cons.IH c h(3))
qed

text \<open>The files of a tree with their contents, in the order of the digest.\<close>

definition tree_entries :: "host \<Rightarrow> string \<Rightarrow> string \<Rightarrow> world \<Rightarrow> (string \<times> string) list \<Rightarrow> bool" where
  "tree_entries h conf sandbox w entries \<longleftrightarrow>
     (\<exists>files. walk h w [(sandbox, canon h sandbox)] [conf] = (Inr files :: kernel_error io_error fault + string list)
        \<and> list_all2 (\<lambda>f e. fst e = f \<and> node_at h w f = Some (Regular (snd e))) (sort_key path_components files) entries)"

lemma hash_tree_inputs_Inr:
  assumes "hash_tree_inputs h conf sandbox w = (Inr d, w')"
  shows "w' = w \<and> (\<exists>es. tree_entries h conf sandbox w es \<and> d = hex_sha256 h (tree_transcript h es))"
proof -
  let ?read = "\<lambda>f. then_io (read_bytes h f) (\<lambda>c. io_return (f, c)) :: (string \<times> string) kernel_io"
  obtain files es w1 where *: "walk h w [(sandbox, canon h sandbox)] [conf]
      = (Inr files :: kernel_error io_error fault + string list)"
    "io_map ?read (sort_key path_components files) w = (Inr es, w1)"
    "d = hex_sha256 h (tree_transcript h es)" "w' = w1"
    using assms by (auto simp: hash_tree_inputs_def io_simps)
  have "reads_only (?read f)" for f by auto
  from io_map_reads [of ?read, OF this *(2)]
  have "w1 = w" "list_all2 (\<lambda>f e. ?read f w = (Inr e, w)) (sort_key path_components files) es" by simp_all
  moreover have "?read f w = (Inr e, w) \<Longrightarrow> fst e = f \<and> node_at h w f = Some (Regular (snd e))" for f e
    by (auto simp: io_simps)
  ultimately show ?thesis
    using * unfolding tree_entries_def by (blast intro: list_all2_mono)
qed

text \<open>The messages hashed for the digest of a tree.\<close>

definition tree_messages :: "host \<Rightarrow> (string \<times> string) list \<Rightarrow> bytes list" where
  "tree_messages h es = map as_bytes (tree_transcript h es # map snd es)"

lemma equal_transcripts:
  assumes "hex_sha256 h (tree_transcript h xs) = hex_sha256 h (tree_transcript h ys)"
    and "list_all clean xs" "list_all clean ys"
  shows "xs = ys \<or> collision_in (sha256 h) (tree_messages h xs @ tree_messages h ys)"
proof (rule disjCI)
  assume no: "\<not> collision_in (sha256 h) (tree_messages h xs @ tree_messages h ys)"
  have inj: "a = b" if "sha256 h (as_bytes a) = sha256 h (as_bytes b)"
    "as_bytes a \<in> set (tree_messages h xs @ tree_messages h ys)"
    "as_bytes b \<in> set (tree_messages h xs @ tree_messages h ys)" for a b
    using no that unfolding collision_in_def by (metis as_bytes_eq_iff)
  have "tree_transcript h xs = tree_transcript h ys"
    by (rule inj) (use assms(1) in \<open>simp_all add: tree_messages_def\<close>)
  then have "list_all2 (\<lambda>a b. fst a = fst b \<and> hex_sha256 h (snd a) = hex_sha256 h (snd b)) xs ys"
    using assms tree_transcript_inject by blast
  then have "list_all2 (=) xs ys"
  proof (rule list.rel_mono_strong)
    fix a b assume ab: "a \<in> set xs" "b \<in> set ys" "fst a = fst b \<and> hex_sha256 h (snd a) = hex_sha256 h (snd b)"
    have "snd a = snd b"
      by (rule inj) (use ab in \<open>simp_all add: tree_messages_def\<close>)
    with ab(3) show "a = b" by (simp add: prod_eq_iff)
  qed
  then show "xs = ys" by (simp add: list.rel_eq)
qed

text \<open>
  Equal digests of the inputs of the tools tree, taken at two times, mean the same files with the same contents
  in the same order, or a collision of SHA-256 among what was hashed, or a file name with a newline.
\<close>

theorem tools_digest_binds:
  assumes "tools_tree_inputs_digest h v = (Inr d, v')" and "tools_tree_inputs_digest h w = (Inr d, w')"
  shows "\<exists>xs ys. tree_entries h TOOLS_TREE_CONF TOOLS_TREE_SANDBOX v xs
    \<and> tree_entries h TOOLS_TREE_CONF TOOLS_TREE_SANDBOX w ys
    \<and> (xs = ys \<or> collision_in (sha256 h) (tree_messages h xs @ tree_messages h ys)
        \<or> list_ex (\<lambda>e. CHR 0x0A \<in> set (fst e)) (xs @ ys))"
proof -
  obtain xs ys where t: "tree_entries h TOOLS_TREE_CONF TOOLS_TREE_SANDBOX v xs"
      "tree_entries h TOOLS_TREE_CONF TOOLS_TREE_SANDBOX w ys"
    and d: "hex_sha256 h (tree_transcript h xs) = hex_sha256 h (tree_transcript h ys)"
    using assms hash_tree_inputs_Inr unfolding tools_tree_inputs_digest_def by metis
  have n: "list_ex (\<lambda>e. CHR 0x0A \<in> set (fst e)) (xs @ ys) \<longleftrightarrow> \<not> (list_all clean xs \<and> list_all clean ys)"
    by (auto simp: list_all_iff list_ex_iff clean_def)
  have b: "xs = ys \<or> collision_in (sha256 h) (tree_messages h xs @ tree_messages h ys)
      \<or> list_ex (\<lambda>e. CHR 0x0A \<in> set (fst e)) (xs @ ys)"
    unfolding n using equal_transcripts [OF d] by argo
  show ?thesis
    by (rule exI [of _ xs], rule exI [of _ ys]) (rule conjI [OF t(1) conjI [OF t(2) b]])
qed

lemma rebuild_tools_tree_Inr:
  assumes "rebuild_tools_tree h pkgs out key w = (Inr p, w')"
  shows "p = canon h (path_join out ''image'') \<and> path_exists h (path_join out ''image'') w'
    \<and> node_at h w' (path_join out ''.confos-tools-stamp'') = Some (Regular key)"
  using assms by (auto simp: rebuild_tools_tree_def io_simps Let_def)

text \<open>
  A tools tree that is returned, reused or rebuilt, exists, and the stamp beside it names the digest of the
  inputs that was computed at the start and the extra packages.
\<close>

theorem tools_tree_stamped:
  assumes "ensure_tools_tree h force pkgs out w = (Inr p, w')"
  shows "\<exists>d. tools_tree_inputs_digest h w = (Inr d, w) \<and> p = canon h (path_join out ''image'')
    \<and> path_exists h (path_join out ''image'') w'
    \<and> node_at h w' (path_join out ''.confos-tools-stamp'') = Some (Regular (stamp_key d pkgs))"
proof -
  obtain d w1 where d: "tools_tree_inputs_digest h w = (Inr d, w1)"
    and r: "then_io (tools_tree_current h force out (stamp_key d pkgs)) (\<lambda>current.
        if current then canonicalize h (path_join out ''image'')
        else rebuild_tools_tree h pkgs out (stamp_key d pkgs)) w1 = (Inr p, w')"
    using assms by (auto simp: ensure_tools_tree_def io_simps Let_def)
  have w1: "w1 = w" using d hash_tree_inputs_Inr unfolding tools_tree_inputs_digest_def by blast
  obtain b w2 where b: "tools_tree_current h force out (stamp_key d pkgs) w1 = (Inr b, w2)"
    "(if b then canonicalize h (path_join out ''image'') else rebuild_tools_tree h pkgs out (stamp_key d pkgs)) w2
      = (Inr p, w')"
    using r by (auto simp: then_io_Inr)
  show ?thesis
  proof (cases b)
    case True
    then have "io_try (read_to_string h (path_join out ''.confos-tools-stamp'') :: string kernel_io) w1
        = (Inr (Some (stamp_key d pkgs)), w2)"
      using b(1) by (auto simp: tools_tree_current_def io_simps simp del: io_try_Inr split: if_splits)
    then have "w2 = w1" "node_at h w1 (path_join out ''.confos-tools-stamp'') = Some (Regular (stamp_key d pkgs))"
      by (auto simp: io_try_Inr io_simps)
    then show ?thesis using True b(2) d w1 by (auto simp: io_simps)
  next
    case False
    then show ?thesis using b(2) rebuild_tools_tree_Inr d w1 by fastforce
  qed
qed

end
