(* ===== verification/KernelBuild.thy ===== *)
theory KernelBuild
  imports KernelTools
begin

text \<open>
  \<open>src/commands/kernel.rs\<close>, \<open>src/kernel/manifest.rs\<close> and \<open>src/kernel_cache.rs\<close>: the kernel build, its fingerprint,
  its cache and its manifest.  The JSON text of a manifest is a parameter, a printer with its parser.
\<close>

section \<open>Manifest\<close>

record fingerprint =
  fp_linux_version :: string
  fp_tarball :: string
  fp_required_config :: string
  fp_hardening_config :: string
  fp_confidential_config :: string
  fp_extra_config :: string
  fp_snapshot_config :: string
  fp_module_signing_cert :: string
  fp_randstruct_seed :: string
  fp_trusted_dsdt :: string
  fp_trusted_aml_patch :: string
  fp_snp_mr_patch :: string
  fp_tools_tree :: string

record kernel_manifest =
  km_version :: nat
  km_linux_version :: string
  km_inputs :: fingerprint
  km_vmlinuz_sha256 :: string
  km_built_at :: string

record json_codec =
  print_json :: "kernel_manifest \<Rightarrow> string"
  parse_json :: "string \<Rightarrow> kernel_manifest option"

definition read_kernel_manifest :: "host \<Rightarrow> json_codec \<Rightarrow> string \<Rightarrow> kernel_manifest kernel_io" where
  "read_kernel_manifest h j p =
     then_io (read_to_string h p) (\<lambda>s.
     case parse_json j s of None \<Rightarrow> io_fail (Io p) | Some m \<Rightarrow> io_return m)"

definition write_kernel_manifest :: "host \<Rightarrow> json_codec \<Rightarrow> string \<Rightarrow> kernel_manifest \<Rightarrow> unit kernel_io" where
  "write_kernel_manifest h j p m = write_bytes h p (print_json j m)"

section \<open>Inputs\<close>

definition REQUIRED_FRAGMENT :: string where "REQUIRED_FRAGMENT = ''kernel/required.config''"
definition RANDSTRUCT_SEED :: string where "RANDSTRUCT_SEED = ''kernel/randstruct.seed''"
definition STAGED_SIGNING_CERT :: string where "STAGED_SIGNING_CERT = ''confos-module-signing.crt''"
definition DEFAULT_SIGNING_CERT :: string where "DEFAULT_SIGNING_CERT = ''kernel/module-signing.crt''"
definition HARDENING_FRAGMENT :: string where "HARDENING_FRAGMENT = ''kernel/hardening.config''"
definition CVM_FRAGMENT :: string where "CVM_FRAGMENT = ''kernel/confidential.config''"
definition SNAPSHOT_PATH :: string where "SNAPSHOT_PATH = ''kernel/config-x86_64.snapshot''"
definition VERSION_PATH :: string where "VERSION_PATH = ''kernel/version''"
definition ACPI_HARNESS_DIR :: string where "ACPI_HARNESS_DIR = ''tests/acpi''"

definition pinned_version :: "host \<Rightarrow> kernel_version kernel_io" where
  "pinned_version h =
     then_io (kernel_version_read h VERSION_PATH) (\<lambda>version.
     then_io (io_each (\<lambda>patch. verify_version h patch (linux_version version)) PATCHES) (\<lambda>_.
     io_return version))"

text \<open>The stem of the fragment, when it is UTF-8, not empty, and not hidden.\<close>

definition usable_stem :: "string \<Rightarrow> string option" where
  "usable_stem f =
     (case file_stem f of
        None \<Rightarrow> None
      | Some s \<Rightarrow> if valid_str s \<and> s \<noteq> [] \<and> \<not> prefix ''.'' s then Some s else None)"

definition snapshot_path :: "string option \<Rightarrow> kernel_error fault + string" where
  "snapshot_path fragment =
     (case fragment of
        None \<Rightarrow> Inr SNAPSHOT_PATH
      | Some f \<Rightarrow>
          and_then (ok_or (Err (NoFileStem f)) (usable_stem f)) (\<lambda>stem.
          Inr (path_join (parent_dir f) (''config-x86_64-'' @ stem @ ''.snapshot''))))"

definition verify_signing_cert :: "host \<Rightarrow> string \<Rightarrow> unit kernel_io" where
  "verify_signing_cert h cert =
     then_io (io_get (path_is_file h cert)) (\<lambda>there.
     then_io (io_check there (CertNotFound cert)) (\<lambda>_.
     then_io (io_try (read_to_string h cert :: string kernel_io)) (\<lambda>text.
     io_check (contains_str ''-----BEGIN CERTIFICATE-----'' (case text of None \<Rightarrow> [] | Some t \<Rightarrow> t))
       (CertNotPem cert))))"

definition optional_sha256 :: "host \<Rightarrow> string option \<Rightarrow> string kernel_io" where
  "optional_sha256 h f = (case f of None \<Rightarrow> io_return [] | Some f \<Rightarrow> sha256_file h f)"

definition snapshot_sha256 :: "host \<Rightarrow> string \<Rightarrow> string kernel_io" where
  "snapshot_sha256 h snapshot =
     then_io (io_get (path_exists h snapshot)) (\<lambda>there. if there then sha256_file h snapshot else io_return [])"

definition compute_fingerprint ::
  "host \<Rightarrow> kernel_version \<Rightarrow> string option \<Rightarrow> string \<Rightarrow> string \<Rightarrow> fingerprint kernel_io" where
  "compute_fingerprint h version fragment signing_cert snapshot =
     then_io (sha256_file h REQUIRED_FRAGMENT) (\<lambda>required.
     then_io (sha256_file h HARDENING_FRAGMENT) (\<lambda>hardening.
     then_io (sha256_file h CVM_FRAGMENT) (\<lambda>confidential.
     then_io (sha256_file h signing_cert) (\<lambda>cert.
     then_io (sha256_file h RANDSTRUCT_SEED) (\<lambda>seed.
     then_io (sha256_file h DSDT_SOURCE) (\<lambda>dsdt.
     then_io (sha256_file h AML_PATCH) (\<lambda>aml.
     then_io (sha256_file h SNP_MR_PATCH) (\<lambda>snp_mr.
     then_io (optional_sha256 h fragment) (\<lambda>extra.
     then_io (snapshot_sha256 h snapshot) (\<lambda>snap.
     then_io (tools_tree_inputs_digest h) (\<lambda>tools.
     io_return
       \<lparr> fp_linux_version = linux_version version, fp_tarball = tarball_sha256 version,
         fp_required_config = required, fp_hardening_config = hardening, fp_confidential_config = confidential,
         fp_extra_config = extra, fp_snapshot_config = snap, fp_module_signing_cert = cert,
         fp_randstruct_seed = seed, fp_trusted_dsdt = dsdt, fp_trusted_aml_patch = aml, fp_snp_mr_patch = snp_mr,
         fp_tools_tree = tools \<rparr>)))))))))))"

definition verify_inputs_unchanged :: "fingerprint \<Rightarrow> fingerprint \<Rightarrow> kernel_error fault + unit" where
  "verify_inputs_unchanged staged finished =
     (let expected = staged \<lparr> fp_snapshot_config := fp_snapshot_config finished \<rparr> in
      ensure (finished = expected) (Err InputsChanged))"

section \<open>Sources\<close>

definition extract_pinned_source ::
  "host \<Rightarrow> kernel_version \<Rightarrow> string \<Rightarrow> string \<Rightarrow> string \<Rightarrow> string kernel_io" where
  "extract_pinned_source h version tools_tree cache_dir dest =
     then_io (fetch h (linux_version version) (tarball_sha256 version) cache_dir) (\<lambda>tarball.
     let kernel_src = path_join dest (''linux-'' @ linux_version version) in
     then_io (force_remove_dir_all h kernel_src) (\<lambda>_.
     then_io (create_dir_all h dest) (\<lambda>_.
     then_io (extract_tarball h tarball dest) (\<lambda>_.
     then_io (io_get (path_exists h kernel_src)) (\<lambda>there.
     then_io (io_check there (NoSourceTree kernel_src)) (\<lambda>_.
     then_io (aml_stage h tools_tree kernel_src) (\<lambda>_.
     then_io (snp_mr_stage h tools_tree kernel_src) (\<lambda>_.
     io_return kernel_src))))))))"

text \<open>The replaced \<open>gen-randstruct-seed.sh\<close>.\<close>

definition seed_script :: "string \<Rightarrow> string" where
  "seed_script seed =
     script [''#!/bin/sh'',
       ''# Replaced by confos: fixed seed for reproducible builds (#85).'',
       ''SEED='' @ seed,
       ''echo '' @ [CHR 0x22] @ ''$SEED'' @ [CHR 0x22] @ '' > '' @ [CHR 0x22] @ ''$1'' @ [CHR 0x22],
       ''HASH=$(echo -n '' @ [CHR 0x22] @ ''$SEED'' @ [CHR 0x22] @ '' | sha256sum | cut -d'' @ [CHR 0x27] @ '' ''
         @ [CHR 0x27] @ '' -f1)'',
       ''echo '' @ [CHR 0x22] @ ''#define RANDSTRUCT_HASHED_SEED '' @ [CHR 0x5C, CHR 0x22] @ ''$HASH''
         @ [CHR 0x5C, CHR 0x22, CHR 0x22] @ '' > '' @ [CHR 0x22] @ ''$2'' @ [CHR 0x22]]"

definition valid_seed :: "string \<Rightarrow> bool" where
  "valid_seed seed \<longleftrightarrow> length seed = 64 \<and> list_all is_ascii_hexdigit seed"

text \<open>The sources prepared for a reproducible build: seed, BTF flags, certificate.  File modes are not modelled.\<close>

definition pin_sources :: "host \<Rightarrow> string \<Rightarrow> string \<Rightarrow> string kernel_io" where
  "pin_sources h kernel_src signing_cert =
     then_io (read_to_string h RANDSTRUCT_SEED) (\<lambda>text.
     let seed = trim text in
     then_io (io_check (valid_seed seed) BadSeed) (\<lambda>_.
     then_io (write_bytes h (path_join kernel_src ''scripts/gen-randstruct-seed.sh'') (seed_script seed)) (\<lambda>_.
     let btf_mk = path_join kernel_src ''scripts/Makefile.btf'' in
     then_io (read_to_string h btf_mk) (\<lambda>mk.
     let pinned = replace_str ''-j$(JOBS)'' ''-j1'' mk in
     then_io (io_check (pinned \<noteq> mk) NoJobsFlag) (\<lambda>_.
     then_io (write_bytes h btf_mk pinned) (\<lambda>_.
     let certs_dir = path_join kernel_src ''certs'' in
     then_io (create_dir_all h certs_dir) (\<lambda>_.
     then_io (copy_file h signing_cert (path_join certs_dir STAGED_SIGNING_CERT)) (\<lambda>_.
     io_return seed))))))))"

section \<open>The command\<close>

record kernel_args =
  ka_ensure_tools :: bool
  ka_force :: bool
  ka_output :: string
  ka_fragment :: "string option"
  ka_signing_cert :: "string option"
  ka_packages :: "string list"

text \<open>The checks before anything is written: the version, the certificate, the snapshot and the fragment.\<close>

definition admit_inputs :: "host \<Rightarrow> kernel_args \<Rightarrow> (kernel_version \<times> string \<times> string) kernel_io" where
  "admit_inputs h args =
     then_io (pinned_version h) (\<lambda>version.
     let signing_cert = (case ka_signing_cert args of None \<Rightarrow> DEFAULT_SIGNING_CERT | Some c \<Rightarrow> c) in
     then_io (io_of (snapshot_path (ka_fragment args))) (\<lambda>snapshot.
     then_io (case ka_fragment args of
                None \<Rightarrow> io_return ()
              | Some f \<Rightarrow> then_io (io_get (path_exists h f)) (\<lambda>there. io_check there (FragmentNotFound f))) (\<lambda>_.
     then_io (verify_signing_cert h signing_cert) (\<lambda>_.
     io_return (version, signing_cert, snapshot)))))"

text \<open>The manifest that the cache offers for the staged inputs, after its artifact was hashed again.\<close>

definition cache_lookup ::
  "host \<Rightarrow> json_codec \<Rightarrow> bool \<Rightarrow> string \<Rightarrow> string \<Rightarrow> fingerprint \<Rightarrow> bool kernel_io" where
  "cache_lookup h j force manifest_path vmlinuz_path staged =
     then_io (io_get (\<lambda>w. \<not> force \<and> path_exists h manifest_path w \<and> path_exists h vmlinuz_path w)) (\<lambda>look.
     if \<not> look then io_return False
     else
       then_io (io_try (read_kernel_manifest h j manifest_path)) (\<lambda>cached.
       case cached of
         None \<Rightarrow> io_return False
       | Some m \<Rightarrow>
           if km_inputs m \<noteq> staged then io_return False
           else
             then_io (sha256_file h vmlinuz_path) (\<lambda>actual.
             then_io (io_check (eq_ignore_ascii_case actual (km_vmlinuz_sha256 m)) ArtifactCorrupted) (\<lambda>_.
             io_return True))))"

text \<open>The build after a cache miss.\<close>

definition build_kernel ::
  "host \<Rightarrow> json_codec \<Rightarrow> (bool \<Rightarrow> string list \<Rightarrow> string \<Rightarrow> string kernel_io) \<Rightarrow> kernel_args \<Rightarrow> kernel_version
     \<Rightarrow> string \<Rightarrow> string \<Rightarrow> string \<Rightarrow> fingerprint \<Rightarrow> unit kernel_io" where
  "build_kernel h j tools args version signing_cert snapshot out_dir staged =
     (let vmlinuz_path = path_join out_dir ''vmlinuz''; log_path = path_join out_dir ''build.log'';
          build_dir = path_join out_dir ''build'' in
     then_io (tools (ka_force args) (ka_packages args) TOOLS_TREE_OUTPUT) (\<lambda>tools_tree.
     then_io (force_remove_dir_all h build_dir) (\<lambda>_.
     then_io (extract_pinned_source h version tools_tree (path_join out_dir ''cache'') build_dir) (\<lambda>kernel_src.
     then_io (pin_sources h kernel_src signing_cert) (\<lambda>seed.
     then_io (run_configure_phase h tools_tree kernel_src REQUIRED_FRAGMENT HARDENING_FRAGMENT CVM_FRAGMENT
                (ka_fragment args)) (\<lambda>_.
     then_io (update_snapshot h (path_join kernel_src ''.config'') snapshot) (\<lambda>_.
     then_io (write_bytes h log_path []) (\<lambda>_.
     then_io (compile_run h tools_tree kernel_src vmlinuz_path seed log_path) (\<lambda>_.
     then_io (compute_fingerprint h version (ka_fragment args) signing_cert snapshot) (\<lambda>inputs.
     then_io (io_of (verify_inputs_unchanged staged inputs)) (\<lambda>_.
     then_io (sha256_file h vmlinuz_path) (\<lambda>vmlinuz.
     write_kernel_manifest h j (path_join out_dir ''manifest.json'')
       \<lparr> km_version = 1, km_linux_version = linux_version version, km_inputs = inputs,
         km_vmlinuz_sha256 = vmlinuz, km_built_at = now h \<rparr>))))))))))))"

definition run_with_tools ::
  "host \<Rightarrow> json_codec \<Rightarrow> (bool \<Rightarrow> string list \<Rightarrow> string \<Rightarrow> string kernel_io) \<Rightarrow> kernel_args \<Rightarrow> unit kernel_io" where
  "run_with_tools h j tools args =
     then_io (admit_inputs h args) (\<lambda>(version, signing_cert, snapshot).
     then_io (create_dir_all h (ka_output args)) (\<lambda>_.
     then_io (canonicalize h (ka_output args)) (\<lambda>out_dir.
     then_io (compute_fingerprint h version (ka_fragment args) signing_cert snapshot) (\<lambda>staged.
     then_io (cache_lookup h j (ka_force args) (path_join out_dir ''manifest.json'') (path_join out_dir ''vmlinuz'')
                staged) (\<lambda>hit.
     if hit then
       io_when (ka_ensure_tools args)
         (then_io (tools False (ka_packages args) TOOLS_TREE_OUTPUT) (\<lambda>_. io_return ()))
     else build_kernel h j tools args version signing_cert snapshot out_dir staged)))))"

definition kernel_run :: "host \<Rightarrow> json_codec \<Rightarrow> kernel_args \<Rightarrow> unit kernel_io" where
  "kernel_run h j = run_with_tools h j (ensure_tools_tree h)"

section \<open>The kernel source command\<close>

definition run_acpi_harness ::
  "host \<Rightarrow> string \<Rightarrow> string \<Rightarrow> kernel_version \<Rightarrow> string list \<Rightarrow> unit kernel_io" where
  "run_acpi_harness h tools_tree out_dir version extra_args =
     then_io (canonicalize h ACPI_HARNESS_DIR) (\<lambda>harness.
     nspawn_exec h tools_tree
       [\<lparr> bind_host = out_dir, bind_guest = ''/work'', bind_read_only = False \<rparr>,
        \<lparr> bind_host = harness, bind_guest = ''/harness'', bind_read_only = True \<rparr>]
       []
       ([''python3'', ''/harness/run.py'', ''--source'', ''/work/linux-'' @ linux_version version,
         ''--output'', ''/work/results''] @ extra_args))"

definition prepare_source :: "host \<Rightarrow> bool \<Rightarrow> string list \<Rightarrow> string \<Rightarrow> unit kernel_io" where
  "prepare_source h acpi_harness harness_args out =
     then_io (io_check (acpi_harness \<or> harness_args = []) HarnessArgs) (\<lambda>_.
     then_io (pinned_version h) (\<lambda>version.
     then_io (ensure_tools_tree h False HARNESS_TOOLS_PACKAGES HARNESS_TOOLS_TREE_OUTPUT) (\<lambda>tools_tree.
     then_io (create_dir_all h out) (\<lambda>_.
     then_io (canonicalize h out) (\<lambda>out_dir.
     then_io (extract_pinned_source h version tools_tree (path_join out_dir ''cache'') out_dir) (\<lambda>_.
     io_when acpi_harness (run_acpi_harness h tools_tree out_dir version harness_args)))))))"

section \<open>The artifact\<close>

definition KERNEL_OUT_DIR :: string where "KERNEL_OUT_DIR = ''output/kernel''"

record kernel_artifact =
  vmlinuz_path :: string
  artifact_version :: string
  artifact_manifest :: kernel_manifest

definition ensure_kernel ::
  "host \<Rightarrow> json_codec \<Rightarrow> bool \<Rightarrow> string option \<Rightarrow> string option \<Rightarrow> string list \<Rightarrow> kernel_artifact kernel_io" where
  "ensure_kernel h j force fragment cert packages =
     then_io (kernel_run h j \<lparr> ka_ensure_tools = False, ka_force = force, ka_output = KERNEL_OUT_DIR,
                ka_fragment = fragment, ka_signing_cert = cert, ka_packages = packages \<rparr>) (\<lambda>_.
     then_io (read_kernel_manifest h j (path_join KERNEL_OUT_DIR ''manifest.json'')) (\<lambda>m.
     io_return \<lparr> vmlinuz_path = path_join KERNEL_OUT_DIR ''vmlinuz'', artifact_version = km_linux_version m,
                 artifact_manifest = m \<rparr>))"

section \<open>Reading steps\<close>

lemma reads_only_walk [looks]: "reads_only (\<lambda>w. (walk h w s fs, w))"
  by (simp add: reads_only_def)

lemma reads_only_pinned [looks]: "reads_only (pinned_version h)"
  unfolding pinned_version_def kernel_version_read_def verify_version_def by (intro looks)

lemma reads_only_digest [looks]: "reads_only (tools_tree_inputs_digest h)"
  unfolding tools_tree_inputs_digest_def hash_tree_inputs_def by (intro looks)

lemma reads_only_fingerprint [looks]: "reads_only (compute_fingerprint h v f c s)"
  unfolding compute_fingerprint_def optional_sha256_def snapshot_sha256_def
  by (intro looks)

lemma reads_only_cert [looks]: "reads_only (verify_signing_cert h c)"
  unfolding verify_signing_cert_def by (intro looks)

lemma reads_only_admit [looks]: "reads_only (admit_inputs h args)"
  unfolding admit_inputs_def Let_def
  by (intro looks)

lemma reads_only_manifest [looks]: "reads_only (read_kernel_manifest h j p)"
  unfolding read_kernel_manifest_def by (intro looks)

lemma reads_only_lookup [looks]: "reads_only (cache_lookup h j force m v staged)"
  unfolding cache_lookup_def
  by (intro looks)

section \<open>Fingerprints\<close>

definition content :: "host \<Rightarrow> world \<Rightarrow> string \<Rightarrow> string option" where
  "content h w p = (case node_at h w p of Some (Regular c) \<Rightarrow> Some c | _ \<Rightarrow> None)"

lemma content_eq [simp]: "node_at h w p = Some (Regular c) \<longleftrightarrow> content h w p = Some c"
  by (auto simp: content_def split: option.splits node.splits)

text \<open>What the kernel is made of: every file that enters the build, and the fragment of the caller.\<close>

definition build_inputs :: "host \<Rightarrow> world \<Rightarrow> string option \<Rightarrow> string \<Rightarrow> string option list" where
  "build_inputs h w fragment cert =
     map (content h w) [REQUIRED_FRAGMENT, HARDENING_FRAGMENT, CVM_FRAGMENT, cert, RANDSTRUCT_SEED, DSDT_SOURCE,
       AML_PATCH, SNP_MR_PATCH] @ [Option.bind fragment (content h w)]"

definition input_messages :: "string option list \<Rightarrow> bytes list" where
  "input_messages cs = map as_bytes (List.map_filter id cs)"

definition fp_hashes :: "fingerprint \<Rightarrow> string list" where
  "fp_hashes fp =
     [fp_required_config fp, fp_hardening_config fp, fp_confidential_config fp, fp_module_signing_cert fp,
      fp_randstruct_seed fp, fp_trusted_dsdt fp, fp_trusted_aml_patch fp, fp_snp_mr_patch fp, fp_extra_config fp]"

definition hash_option :: "host \<Rightarrow> string option \<Rightarrow> string" where
  "hash_option h c = (case c of None \<Rightarrow> [] | Some c \<Rightarrow> hex_sha256 h c)"

lemma fingerprint_of_inputs:
  assumes "compute_fingerprint h v frag cert snap w = (Inr fp, w')"
  shows "fp_linux_version fp = linux_version v" "fp_tarball fp = tarball_sha256 v"
    "fp_hashes fp = map (hash_option h) (build_inputs h w frag cert)"
    "tools_tree_inputs_digest h w = (Inr (fp_tools_tree fp), w)"
    "list_all (\<lambda>c. c \<noteq> None) (take 8 (build_inputs h w frag cert))"
proof -
  obtain a1 a2 a3 a4 a5 a6 a7 a8 a9 a10 a11 w1 w2 w3 w4 w5 w6 w7 w8 w9 w10 w11 where *:
    "sha256_file h REQUIRED_FRAGMENT w = ((Inr a1 :: kernel_error io_error fault + string), w1)"
    "sha256_file h HARDENING_FRAGMENT w1 = ((Inr a2 :: kernel_error io_error fault + string), w2)"
    "sha256_file h CVM_FRAGMENT w2 = ((Inr a3 :: kernel_error io_error fault + string), w3)"
    "sha256_file h cert w3 = ((Inr a4 :: kernel_error io_error fault + string), w4)"
    "sha256_file h RANDSTRUCT_SEED w4 = ((Inr a5 :: kernel_error io_error fault + string), w5)"
    "sha256_file h DSDT_SOURCE w5 = ((Inr a6 :: kernel_error io_error fault + string), w6)"
    "sha256_file h AML_PATCH w6 = ((Inr a7 :: kernel_error io_error fault + string), w7)"
    "sha256_file h SNP_MR_PATCH w7 = ((Inr a8 :: kernel_error io_error fault + string), w8)"
    "optional_sha256 h frag w8 = (Inr a9, w9)"
    "snapshot_sha256 h snap w9 = (Inr a10, w10)"
    "tools_tree_inputs_digest h w10 = (Inr a11, w11)"
    "io_return
       \<lparr> fp_linux_version = linux_version v, fp_tarball = tarball_sha256 v,
         fp_required_config = a1, fp_hardening_config = a2, fp_confidential_config = a3,
         fp_extra_config = a9, fp_snapshot_config = a10, fp_module_signing_cert = a4,
         fp_randstruct_seed = a5, fp_trusted_dsdt = a6, fp_trusted_aml_patch = a7, fp_snp_mr_patch = a8,
         fp_tools_tree = a11 \<rparr> w11 = ((Inr fp :: kernel_error io_error fault + fingerprint), w')"
    using assms unfolding compute_fingerprint_def by (elim then_ioE) (rule that, assumption+)
  have "w1 = w" "w2 = w1" "w3 = w2" "w4 = w3" "w5 = w4" "w6 = w5" "w7 = w6" "w8 = w7"
    using *(1-8) by (simp_all add: sha256_file_Inr)
  moreover have "w9 = w8" "w10 = w9" "w11 = w10"
    using *(9,10) reads_onlyD [OF reads_only_digest *(11)]
    by (auto simp: optional_sha256_def snapshot_sha256_def io_simps split: option.splits if_splits)
  ultimately have w: "w1 = w" "w2 = w" "w3 = w" "w4 = w" "w5 = w" "w6 = w" "w7 = w" "w8 = w" "w9 = w" "w10 = w"
    "w11 = w" by simp_all
  note r = * [unfolded w]
  have c: "a1 = hash_option h (content h w REQUIRED_FRAGMENT)" "a2 = hash_option h (content h w HARDENING_FRAGMENT)"
    "a3 = hash_option h (content h w CVM_FRAGMENT)" "a4 = hash_option h (content h w cert)"
    "a5 = hash_option h (content h w RANDSTRUCT_SEED)" "a6 = hash_option h (content h w DSDT_SOURCE)"
    "a7 = hash_option h (content h w AML_PATCH)" "a8 = hash_option h (content h w SNP_MR_PATCH)"
    using r(1-8) by (auto simp: sha256_file_Inr hash_option_def)
  have e: "a9 = hash_option h (Option.bind frag (content h w))"
    using r(9) by (auto simp: optional_sha256_def io_simps hash_option_def split: option.splits)
  have fp: "fp = \<lparr> fp_linux_version = linux_version v, fp_tarball = tarball_sha256 v,
         fp_required_config = a1, fp_hardening_config = a2, fp_confidential_config = a3,
         fp_extra_config = a9, fp_snapshot_config = a10, fp_module_signing_cert = a4,
         fp_randstruct_seed = a5, fp_trusted_dsdt = a6, fp_trusted_aml_patch = a7, fp_snp_mr_patch = a8,
         fp_tools_tree = a11 \<rparr>"
    using r(12) by (simp add: io_steps)
  show "fp_linux_version fp = linux_version v" "fp_tarball fp = tarball_sha256 v" by (simp_all add: fp)
  show "fp_hashes fp = map (hash_option h) (build_inputs h w frag cert)"
    unfolding fp_hashes_def build_inputs_def by (simp add: fp c e)
  show "tools_tree_inputs_digest h w = (Inr (fp_tools_tree fp), w)"
    using r(11) by (simp add: fp)
  show "list_all (\<lambda>c. c \<noteq> None) (take 8 (build_inputs h w frag cert))"
    using r(1-8) by (auto simp: build_inputs_def sha256_file_Inr)
qed

lemma hash_options_bind:
  assumes "map (hash_option h) xs = map (hash_option h) ys"
  shows "xs = ys \<or> collision_in (sha256 h) (input_messages (xs @ ys))"
proof (rule disjCI)
  assume no: "\<not> collision_in (sha256 h) (input_messages (xs @ ys))"
  have "a = b" if "a \<in> set xs" "b \<in> set ys" "hash_option h a = hash_option h b" for a b
  proof (cases "a = None \<or> b = None")
    case True
    have "hex_sha256 h c \<noteq> [] \<and> [] \<noteq> hex_sha256 h c" for c using hex_sha256_chars(2) [of h c] by auto
    then show ?thesis using True that(3) by (auto simp: hash_option_def split: option.splits)
  next
    case False
    then obtain c d where cd: "a = Some c" "b = Some d" by auto
    have m: "as_bytes e \<in> set (input_messages zs)" if "Some e \<in> set zs" for e zs
      using that by (force simp: input_messages_def List.map_filter_def)
    have "as_bytes c \<in> set (input_messages (xs @ ys))" "as_bytes d \<in> set (input_messages (xs @ ys))"
      using m [of c "xs @ ys"] m [of d "xs @ ys"] that cd by simp_all
    then show ?thesis
      using no that(3) cd unfolding collision_in_def
      by (fastforce simp: hash_option_def)
  qed
  then have "list_all2 (=) xs ys"
    using assms by (auto simp: list_all2_conv_all_nth list_eq_iff_nth_eq)
  then show "xs = ys" by (simp add: list.rel_eq)
qed


section \<open>Runs\<close>

lemma run_with_tools_Inr:
  assumes "run_with_tools h j tools args w = (Inr u, w')"
  obtains version cert snapshot w1 staged hit where
    "admit_inputs h args w = (Inr (version, cert, snapshot), w)"
    "create_dir_all h (ka_output args) w = ((Inr () :: kernel_error io_error fault + unit), w1)"
    "compute_fingerprint h version (ka_fragment args) cert snapshot w1 = (Inr staged, w1)"
    "cache_lookup h j (ka_force args) (path_join (canon h (ka_output args)) ''manifest.json'')
       (path_join (canon h (ka_output args)) ''vmlinuz'') staged w1 = (Inr hit, w1)"
    "hit \<Longrightarrow> io_when (ka_ensure_tools args)
       (then_io (tools False (ka_packages args) TOOLS_TREE_OUTPUT) (\<lambda>_. io_return ())) w1 = (Inr u, w')"
    "\<not> hit \<Longrightarrow> build_kernel h j tools args version cert snapshot (canon h (ka_output args)) staged w1 = (Inr u, w')"
proof -
  let ?mp = "path_join (canon h (ka_output args)) ''manifest.json''"
  let ?vp = "path_join (canon h (ka_output args)) ''vmlinuz''"
  note r = assms [unfolded run_with_tools_def]
  obtain adm w0 where 1: "admit_inputs h args w = (Inr adm, w0)"
    using r by (rule then_ioE)
  obtain version cert snapshot where adm: "adm = (version, cert, snapshot)" by (cases adm)
  note r = r [unfolded then_io_run(1) [of "admit_inputs h args" w, OF 1] adm prod.case]
  obtain w1 where 2: "create_dir_all h (ka_output args) w0 = ((Inr () :: kernel_error io_error fault + unit), w1)"
    using r by (elim then_ioE) simp
  note r = r [unfolded then_io_run(1) [of "create_dir_all h (ka_output args)" w0, OF 2]]
  obtain w1' where 3: "canonicalize h (ka_output args) w1
      = ((Inr (canon h (ka_output args)) :: kernel_error io_error fault + string), w1')" "w1' = w1"
    using r by (elim then_ioE) (simp add: canonicalize_Inr)
  note r = r [unfolded then_io_run(1) [of "canonicalize h (ka_output args)" w1, OF 3(1)]]
  obtain staged w2 where 4: "compute_fingerprint h version (ka_fragment args) cert snapshot w1' = (Inr staged, w2)"
    using r by (rule then_ioE)
  note r = r [unfolded then_io_run(1) [of "compute_fingerprint h version (ka_fragment args) cert snapshot" w1', OF 4]]
  obtain hit w3 where 5: "cache_lookup h j (ka_force args) ?mp ?vp staged w2 = (Inr hit, w3)"
    using r by (rule then_ioE)
  note r = r [unfolded then_io_run(1) [of "cache_lookup h j (ka_force args) ?mp ?vp staged" w2, OF 5]]
  have w: "w0 = w" "w2 = w1" "w3 = w1"
    using reads_onlyD [OF reads_only_admit 1] reads_onlyD [OF reads_only_fingerprint 4]
      reads_onlyD [OF reads_only_lookup 5] 3(2) by simp_all
  show ?thesis
    by (rule that [of version cert snapshot w1 staged hit])
      (use 1 2 4 5 r adm w 3(2) in \<open>simp_all split: if_splits\<close>)
qed

lemma cache_lookup_hit:
  assumes "cache_lookup h j force mp vp staged w = (Inr True, w')"
  shows "\<not> force \<and> (\<exists>s m c. content h w mp = Some s \<and> valid_str s \<and> \<not> denied h Fetch mp w
    \<and> parse_json j s = Some m \<and> km_inputs m = staged
    \<and> content h w vp = Some c \<and> hex_sha256 h c = to_ascii_lowercase (km_vmlinuz_sha256 m))"
proof -
  note r = assms [unfolded cache_lookup_def]
  have f: "\<not> force"
    using r by (auto simp: io_return_def split: if_splits)
  obtain cached w2 where 1: "io_try (read_kernel_manifest h j mp) w
      = ((Inr cached :: kernel_error io_error fault + kernel_manifest option), w2)"
    using r by (auto simp: io_return_def split: if_splits elim: then_ioE)
  have k: "then_io (io_try (read_kernel_manifest h j mp)) k w = k cached w2"
    for k :: "kernel_manifest option \<Rightarrow> bool kernel_io"
    by (rule then_io_run(1) [of "io_try (read_kernel_manifest h j mp)" w, OF 1])
  have r: "(case cached of None \<Rightarrow> io_return False
       | Some m \<Rightarrow> if km_inputs m \<noteq> staged then io_return False
           else then_io (sha256_file h vp) (\<lambda>actual.
             then_io (io_check (eq_ignore_ascii_case actual (km_vmlinuz_sha256 m)) ArtifactCorrupted) (\<lambda>_.
             io_return True))) w2 = (Inr True, w')"
    using r by (auto simp: io_steps k split: if_splits)
  obtain m where m: "cached = Some m" "km_inputs m = staged"
    using r by (cases cached) (auto simp: io_return_def split: if_splits)
  have rm: "read_kernel_manifest h j mp w = (Inr m, w2)"
    using 1 m by (simp add: io_try_Inr)
  have w2: "w2 = w" by (rule reads_onlyD [OF reads_only_manifest rm])
  obtain s where "content h w mp = Some s" "valid_str s" "\<not> denied h Fetch mp w" "parse_json j s = Some m"
    using rm by (auto simp: read_kernel_manifest_def io_simps split: option.splits)
  moreover obtain c where "content h w vp = Some c" "hex_sha256 h c = to_ascii_lowercase (km_vmlinuz_sha256 m)"
    using r m w2 by (auto simp: io_simps eq_ignore_ascii_case_def)
  ultimately show ?thesis using f m(2) by blast
qed

lemma build_kernel_Inr:
  assumes "build_kernel h j tools args version cert snapshot out staged w = (Inr u, w')"
  obtains tree src seed wa wb wc wd new inputs c where
    "run_configure_phase h tree src REQUIRED_FRAGMENT HARDENING_FRAGMENT CVM_FRAGMENT (ka_fragment args) wa = (Inr (), wb)"
    "valid_seed seed"
    "wc = bt_insert (canon h (path_join out ''build.log'')) (Regular []) (bt_insert (canon h snapshot) (Regular new) wb)"
    "compile_run h tree src (path_join out ''vmlinuz'') seed (path_join out ''build.log'') wc = (Inr (), wd)"
    "compute_fingerprint h version (ka_fragment args) cert snapshot wd = (Inr inputs, wd)"
    "inputs = staged \<lparr> fp_snapshot_config := fp_snapshot_config inputs \<rparr>"
    "content h wd (path_join out ''vmlinuz'') = Some c"
    "write_kernel_manifest h j (path_join out ''manifest.json'')
       \<lparr> km_version = 1, km_linux_version = linux_version version, km_inputs = inputs,
         km_vmlinuz_sha256 = hex_sha256 h c, km_built_at = now h \<rparr> wd = (Inr u, w')"
proof -
  obtain tree src seed w4 wa wb wb1 wc wd we wf wg changed inputs vm u1 u2 u3 u4 u5 where *:
    "pin_sources h src cert w4 = (Inr seed, wa)"
    "run_configure_phase h tree src REQUIRED_FRAGMENT HARDENING_FRAGMENT CVM_FRAGMENT (ka_fragment args) wa = (Inr u1, wb)"
    "update_snapshot h (path_join src ''.config'') snapshot wb = (Inr changed, wb1)"
    "write_bytes h (path_join out ''build.log'') [] wb1 = ((Inr u2 :: kernel_error io_error fault + unit), wc)"
    "compile_run h tree src (path_join out ''vmlinuz'') seed (path_join out ''build.log'') wc = (Inr u3, wd)"
    "compute_fingerprint h version (ka_fragment args) cert snapshot wd = (Inr inputs, we)"
    "io_of (verify_inputs_unchanged staged inputs) we = ((Inr u4 :: kernel_error io_error fault + unit), wf)"
    "sha256_file h (path_join out ''vmlinuz'') wf = ((Inr vm :: kernel_error io_error fault + string), wg)"
    "write_kernel_manifest h j (path_join out ''manifest.json'')
       \<lparr> km_version = 1, km_linux_version = linux_version version, km_inputs = inputs,
         km_vmlinuz_sha256 = vm, km_built_at = now h \<rparr> wg = (Inr u5, w')"
    using assms unfolding build_kernel_def Let_def
    by (elim then_ioE) (rule that, assumption+)
  have "valid_seed seed"
    using *(1) unfolding pin_sources_def by (auto simp: io_simps Let_def)
  moreover obtain new where "wb1 = bt_insert (canon h snapshot) (Regular new) wb"
  proof -
    have "w2 = w1" if "io_try (read_bytes h snapshot :: string kernel_io) w1 = (old, w2)" for w1 w2 old
      by (rule reads_onlyD [OF reads_only_try that]) (rule reads_only_fs)
    then show ?thesis
      using *(3) that by (auto simp: update_snapshot_def then_io_Inr read_bytes_Inr write_bytes_Inr io_steps)
  qed
  moreover have we: "we = wd" "wf = wd" "verify_inputs_unchanged staged inputs = Inr ()"
    using reads_onlyD [OF reads_only_fingerprint *(6)] *(7) by (simp_all add: io_steps)
  moreover obtain c where "content h wd (path_join out ''vmlinuz'') = Some c" "vm = hex_sha256 h c" "wg = wd"
    using *(8) we by (auto simp: sha256_file_Inr)
  moreover have "inputs = staged \<lparr> fp_snapshot_config := fp_snapshot_config inputs \<rparr>"
    using we(3) by (simp add: verify_inputs_unchanged_def Let_def)
  moreover have "wc = bt_insert (canon h (path_join out ''build.log'')) (Regular []) wb1"
    using *(4) by (simp add: write_bytes_Inr)
  ultimately show ?thesis
    using *(2,5,6,9) that [of tree src wa wb seed wc new wd inputs c] by simp
qed

text \<open>What a run that built a kernel leaves: which configuration was compiled, and what the manifest says of it.\<close>

definition out_path :: "host \<Rightarrow> kernel_args \<Rightarrow> string \<Rightarrow> string" where
  "out_path h args name = path_join (canon h (ka_output args)) name"

text \<open>No source tree has its \<open>.config\<close> at this path.\<close>

definition not_a_config :: "host \<Rightarrow> string \<Rightarrow> bool" where
  "not_a_config h p \<longleftrightarrow> (\<forall>src. canon h p \<noteq> canon h (path_join (canon h src) ''.config''))"

lemma snapshot_admitted:
  assumes "admit_inputs h args w = (Inr (version, cert, snapshot), w')"
  shows "snapshot_path (ka_fragment args) = Inr snapshot"
  using assms unfolding admit_inputs_def by (auto simp: io_simps Let_def split: option.splits)


text \<open>The file system is the same but for one path.\<close>

definition same_but :: "host \<Rightarrow> string \<Rightarrow> world \<Rightarrow> world \<Rightarrow> bool" where
  "same_but h p w w' \<longleftrightarrow> (\<forall>q. canon h q \<noteq> canon h p \<longrightarrow> node_at h w' q = node_at h w q)"

text \<open>The result of a run: a manifest that describes the artifact beside it and the inputs as they are.\<close>

definition described ::
  "host \<Rightarrow> json_codec \<Rightarrow> kernel_args \<Rightarrow> kernel_manifest \<Rightarrow> world \<Rightarrow> bool" where
  "described h j args m w \<longleftrightarrow>
     (\<exists>s. content h w (out_path h args ''manifest.json'') = Some s \<and> parse_json j s = Some m)
     \<and> (\<exists>c. content h w (out_path h args ''vmlinuz'') = Some c
          \<and> hex_sha256 h c = to_ascii_lowercase (km_vmlinuz_sha256 m))
     \<and> (\<exists>version cert snapshot w1. same_but h (out_path h args ''manifest.json'') w1 w
          \<and> compute_fingerprint h version (ka_fragment args) cert snapshot w1 = (Inr (km_inputs m), w1))"

lemma run_described:
  assumes run: "run_with_tools h j tools args w = (Inr u, w')" and "\<not> ka_ensure_tools args"
    and codec: "\<And>m. parse_json j (print_json j m) = Some m"
    and paths: "canon h (out_path h args ''manifest.json'') \<noteq> canon h (out_path h args ''vmlinuz'')"
  shows "\<exists>m. described h j args m w'"
proof -
  obtain version cert snap w1 staged hit where r:
    "compute_fingerprint h version (ka_fragment args) cert snap w1 = (Inr staged, w1)"
    "cache_lookup h j (ka_force args) (out_path h args ''manifest.json'') (out_path h args ''vmlinuz'') staged w1
       = (Inr hit, w1)"
    "hit \<Longrightarrow> io_when (ka_ensure_tools args)
       (then_io (tools False (ka_packages args) TOOLS_TREE_OUTPUT) (\<lambda>_. io_return ())) w1 = (Inr u, w')"
    "\<not> hit \<Longrightarrow> build_kernel h j tools args version cert snap (canon h (ka_output args)) staged w1 = (Inr u, w')"
    unfolding out_path_def by (rule run_with_tools_Inr [OF run]) blast
  show ?thesis
  proof (cases hit)
    case True
    have w: "w' = w1" using r(3) [OF True] assms(2) by (simp add: io_steps)
    have "cache_lookup h j (ka_force args) (out_path h args ''manifest.json'') (out_path h args ''vmlinuz'') staged w1
       = (Inr True, w1)"
      using r(2) True by simp
    from cache_lookup_hit [OF this] show ?thesis
      using r(1) unfolding w described_def same_but_def by blast
  next
    case False
    obtain wd inputs c where b1:
      "compute_fingerprint h version (ka_fragment args) cert snap wd = (Inr inputs, wd)"
      "content h wd (out_path h args ''vmlinuz'') = Some c"
      "write_kernel_manifest h j (out_path h args ''manifest.json'')
       \<lparr> km_version = 1, km_linux_version = linux_version version, km_inputs = inputs,
         km_vmlinuz_sha256 = hex_sha256 h c, km_built_at = now h \<rparr> wd = (Inr u, w')"
      unfolding out_path_def by (rule build_kernel_Inr [OF r(4) [OF False]]) (rule that [unfolded out_path_def], assumption+)
    obtain m :: kernel_manifest where b:
      "compute_fingerprint h version (ka_fragment args) cert snap wd = (Inr inputs, wd)"
      "content h wd (out_path h args ''vmlinuz'') = Some c" "km_inputs m = inputs" "km_vmlinuz_sha256 m = hex_sha256 h c"
      "write_kernel_manifest h j (out_path h args ''manifest.json'') m wd = (Inr u, w')"
      by (rule that [OF b1(1,2) _ _ b1(3)]) simp_all
    have w: "w' = bt_insert (canon h (out_path h args ''manifest.json'')) (Regular (print_json j m)) wd"
      using b(5) by (simp add: write_kernel_manifest_def write_bytes_Inr)
    have "content h w' (out_path h args ''manifest.json'') = Some (print_json j m)"
      unfolding w content_def by simp
    moreover have "content h w' (out_path h args ''vmlinuz'') = Some c"
      using b(2) paths unfolding w content_def by simp
    moreover have "same_but h (out_path h args ''manifest.json'') wd w'"
      unfolding w same_but_def by simp
    ultimately show ?thesis
      using b(1,3,4) codec unfolding described_def by (metis hex_sha256_lower)
  qed
qed

text \<open>
  The artifact that \<open>ensure_kernel\<close> hands to the image build, reused or built, is a kernel image whose SHA-256 is
  the one in the manifest beside it, and the manifest names the hashes of the input files as they are now.
\<close>

theorem artifact_matches_manifest:
  assumes "ensure_kernel h j force fragment cert packages w = (Inr a, w')"
    and "\<forall>m. parse_json j (print_json j m) = Some m"
    and "\<forall>p x. canon h (path_join (canon h p) x) = canon h (path_join p x)"
    and "canon h ''output/kernel/manifest.json'' \<noteq> canon h ''output/kernel/vmlinuz''"
  shows "\<exists>c. content h w' (vmlinuz_path a) = Some c
    \<and> hex_sha256 h c = to_ascii_lowercase (km_vmlinuz_sha256 (artifact_manifest a))
    \<and> artifact_version a = km_linux_version (artifact_manifest a)
    \<and> (\<exists>version cert snapshot w1. same_but h ''output/kernel/manifest.json'' w1 w'
         \<and> compute_fingerprint h version fragment cert snapshot w1 = (Inr (km_inputs (artifact_manifest a)), w1))"
proof -
  define args where "args = \<lparr> ka_ensure_tools = False, ka_force = force, ka_output = KERNEL_OUT_DIR,
                ka_fragment = fragment, ka_signing_cert = cert, ka_packages = packages \<rparr>"
  let ?m = "artifact_manifest a"
  have o: "out_path h args x = path_join (canon h KERNEL_OUT_DIR) x" for x by (simp add: out_path_def args_def)
  have out: "canon h (out_path h args x) = canon h (path_join KERNEL_OUT_DIR x)" for x
    unfolding o using assms(3) by simp
  have lit: "path_join KERNEL_OUT_DIR ''manifest.json'' = ''output/kernel/manifest.json''"
    "path_join KERNEL_OUT_DIR ''vmlinuz'' = ''output/kernel/vmlinuz''"
    by code_simp+
  have cont: "content h v (out_path h args x) = content h v (path_join KERNEL_OUT_DIR x)" for v x
    by (simp add: content_def node_at_def out)
  obtain w2 where run: "kernel_run h j args w = (Inr (), w2)"
    and rm: "read_kernel_manifest h j (path_join KERNEL_OUT_DIR ''manifest.json'') w2 = (Inr ?m, w')"
    and a: "vmlinuz_path a = path_join KERNEL_OUT_DIR ''vmlinuz''" "artifact_version a = km_linux_version ?m"
    using assms(1) unfolding ensure_kernel_def args_def by (auto simp: then_io_Inr io_steps)
  have w: "w2 = w'" using reads_onlyD [OF reads_only_manifest rm] by simp
  obtain s where s: "content h w' (path_join KERNEL_OUT_DIR ''manifest.json'') = Some s" "parse_json j s = Some ?m"
    using rm w by (auto simp: read_kernel_manifest_def io_simps split: option.splits)
  obtain m where d: "described h j args m w'"
    using run_described [OF run [unfolded kernel_run_def]] assms(2,4) w
    by (metis out lit args_def kernel_args.select_convs(1))
  have "m = ?m" using d s unfolding described_def cont by simp
  moreover have "same_but h (out_path h args ''manifest.json'') v v' = same_but h ''output/kernel/manifest.json'' v v'" for v v'
    unfolding same_but_def out lit ..
  moreover have "ka_fragment args = fragment" by (simp add: args_def)
  ultimately show ?thesis using d a unfolding described_def cont lit by simp
qed

end
