(* ===== verification/KernelWitness.thy ===== *)
theory KernelWitness
  imports KernelBuild
begin

text \<open>A build on a small machine: it shows that the hypotheses about kernel builds can hold together.\<close>

definition quoted :: "string \<Rightarrow> string" where "quoted s = [CHR 0x22] @ s @ [CHR 0x22]"

definition sample_config :: string where
  "sample_config = script
     [''CONFIG_SECURITY_LOCKDOWN_LSM_EARLY=y'', ''CONFIG_LOCK_DOWN_KERNEL_FORCE_CONFIDENTIALITY=y'',
      ''CONFIG_ACPI=y'', ''CONFIG_ACPI_CUSTOM_DSDT=y'', ''CONFIG_ACPI_TRUSTED_AML=y'',
      ''CONFIG_ACPI_CUSTOM_DSDT_FILE='' @ quoted ''confos-trusted-dsdt.h'']"

definition sample_src :: string where "sample_src = ''output/kernel/build/linux-6''"

definition sample_zeros :: string where "sample_zeros = replicate 64 CHR ''0''"
definition sample_pin :: string where
  "sample_pin = script [''LINUX_VERSION=6'', ''LINUX_TARBALL_SHA256='' @ sample_zeros]"
definition sample_patch :: string where "sample_patch = script [''Linux-Version: 6'', ''---'']"
definition sample_cert :: string where "sample_cert = ''-----BEGIN CERTIFICATE-----''"
definition sample_mk :: string where "sample_mk = ''-j$(JOBS)''"

definition sample_products :: "(string \<times> node) list" where
  "sample_products =
     [(sample_src, Directory), (sample_src @ ''/scripts/Makefile.btf'', Regular sample_mk),
      (sample_src @ ''/.config'', Regular sample_config),
      (sample_src @ ''/arch/x86/boot/bzImage'', Regular ''kernel''),
      (''output/kernel/cache/linux-6.tar.xz'', Regular []),
      (''mkosi/kernel-builder/mkosi.output/image'', Directory)]"

definition sample_exec :: "string list \<Rightarrow> world \<Rightarrow> cmd_result \<times> world" where
  "sample_exec argv w =
     (\<lparr> exit_ok = True, cmd_stdout = [], cmd_stderr = [] \<rparr>,
      foldl (\<lambda>w (p, n). bt_insert p n w) w sample_products)"

definition sample_files :: "(string \<times> node) list" where
  "sample_files =
     [(VERSION_PATH, Regular sample_pin),
      (AML_PATCH, Regular sample_patch),
      (SNP_MR_PATCH, Regular sample_patch),
      (DEFAULT_SIGNING_CERT, Regular sample_cert),
      (REQUIRED_FRAGMENT, Regular []), (HARDENING_FRAGMENT, Regular []), (CVM_FRAGMENT, Regular []),
      (RANDSTRUCT_SEED, Regular sample_zeros), (DSDT_SOURCE, Regular []),
      (TOOLS_TREE_CONF, Regular []), (TOOLS_TREE_SANDBOX, Directory), (''/bin/mkosi'', Regular [])]"

definition sample_world :: world where
  "sample_world = bt_insert SNAPSHOT_PATH (Regular []) (foldl (\<lambda>w (p, n). bt_insert p n w) [] sample_files)"

definition sample_args :: kernel_args where
  "sample_args = \<lparr> ka_ensure_tools = False, ka_force = True, ka_output = KERNEL_OUT_DIR,
     ka_fragment = None, ka_signing_cert = None, ka_packages = [] \<rparr>"

lemma sample_products_world:
  "sample_exec argv w = (\<lparr> exit_ok = True, cmd_stdout = [], cmd_stderr = [] \<rparr>,
     bt_insert ''mkosi/kernel-builder/mkosi.output/image'' Directory
      (bt_insert ''output/kernel/cache/linux-6.tar.xz'' (Regular [])
      (bt_insert ''output/kernel/build/linux-6/arch/x86/boot/bzImage'' (Regular ''kernel'')
      (bt_insert ''output/kernel/build/linux-6/.config'' (Regular sample_config)
      (bt_insert ''output/kernel/build/linux-6/scripts/Makefile.btf'' (Regular sample_mk)
      (bt_insert ''output/kernel/build/linux-6'' Directory w))))))"
  by (simp add: sample_exec_def sample_products_def sample_src_def)

text \<open>Evaluation: lookups go through the updates of the file system.\<close>

lemma path_join_names:
  "dir \<noteq> [] \<Longrightarrow> last dir \<noteq> CHR ''/'' \<Longrightarrow> name \<noteq> [] \<Longrightarrow> hd name \<noteq> CHR ''/'' \<Longrightarrow>
    path_join dir name = dir @ ''/'' @ name"
  by (cases name; cases dir rule: rev_cases) (auto simp: path_join_def suffix_def)

lemma sample_host_simps:
  "canon (sample_host e) p = p" "denied (sample_host e) a p w = False" "exec (sample_host e) = e"
  "which (sample_host e) t = Some (''/bin/'' @ t)" "sha256 (sample_host e) bs = 0" "cwd (sample_host e) = ''/work''"
  by (simp_all add: sample_host_def)

lemma sample_hash: "hex_sha256 (sample_host e) c = sample_zeros"
proof -
  have "hex_encode (le_bytes 32 0) = sample_zeros" by code_simp
  then show ?thesis by (simp add: hex_sha256_def sample_host_simps)
qed

text \<open>A directory that nothing is in.\<close>

definition no_children :: "world \<Rightarrow> string \<Rightarrow> bool" where
  "no_children w dir \<longleftrightarrow> (\<forall>k \<in> set (map fst w). child_name dir k = None)"

lemma no_children_simps:
  "no_children [] dir" "no_children (bt_insert k v w) dir \<longleftrightarrow> child_name dir k = None \<and> no_children w dir"
  "no_children w dir \<Longrightarrow> no_children (filter P w) dir"
  using bt_insert_keys [of k v w] by (auto simp: no_children_def)

lemma no_children_create:
  "no_children w dir \<Longrightarrow> list_all (\<lambda>q. child_name dir q = None) ps \<Longrightarrow>
    no_children (foldl (\<lambda>w q. bt_or_insert q Directory w) w ps) dir"
  by (induction ps arbitrary: w) (simp_all add: bt_or_insert_def no_children_simps split: option.splits)

lemma no_children_or_insert:
  "no_children w dir \<Longrightarrow> child_name dir q = None \<Longrightarrow> no_children (bt_or_insert q n w) dir"
  by (simp add: bt_or_insert_def no_children_simps split: option.splits)

lemma walk_empty:
  "no_children w dir \<Longrightarrow> walk h w [(p, dir)] files
    = (if denied h Fetch p w \<or> bt_get w dir \<noteq> Some Directory then bail (Io p) else Inr files)"
proof -
  assume "no_children w dir"
  then have "List.map_filter (child_name dir) (map fst w) = []"
    by (simp add: map_filter_empty no_children_def)
  then show ?thesis by (simp add: child_names_def)
qed

lemma sample_texts:
  "kernel_version_parse sample_pin
    = Inr \<lparr> linux_version = ''6'', tarball_sha256 = sample_zeros \<rparr>"
  "supported_version sample_patch = Inr ''6''"
  "valid_str sample_pin"
  "valid_str sample_patch"
  "valid_str sample_cert" "contains_str ''-----BEGIN CERTIFICATE-----'' sample_cert"
  "valid_str sample_zeros" "trim sample_zeros = sample_zeros"
  "valid_seed sample_zeros" "valid_str sample_mk"
  "replace_str ''-j$(JOBS)'' ''-j1'' sample_mk = ''-j1''" "sample_mk \<noteq> ''-j1''" "''-j1'' \<noteq> sample_mk"
  "to_ascii_lowercase sample_zeros = sample_zeros"
  by code_simp+

lemma sample_config_checks:
  "check_builder_invariants sample_config = Inr ()"
  "check_fragment_options [(''required.config'', []), (''hardening.config'', []), (''confidential.config'', [])] sample_config = Inr ()"
  "valid_str sample_config" "valid_str []"
  by code_simp+

lemma if_app: "(if b then m else m') w = (if b then m w else m' w)"
  by simp

lemmas io_eval = if_app then_io_def io_return_def io_fail_def io_of_def io_get_def io_check_def io_when_def io_try_def
  sample_host_simps path_exists_def path_is_file_def canonicalize_def read_bytes_def read_to_string_def
  write_bytes_def copy_file_def create_dir_all_def remove_dir_all_def remove_file_def run_command_def
  run_command_streaming_def require_tool_def node_at_def

lemma sample_create:
  "bt_get (foldl (\<lambda>w q. bt_or_insert q Directory w) w ps) p
    = (case bt_get w p of Some n \<Rightarrow> Some n | None \<Rightarrow> if p \<in> set ps then Some Directory else None)"
  by (induction ps arbitrary: w) (auto split: option.splits)

lemmas sample_paths = VERSION_PATH_def AML_PATCH_def SNP_MR_PATCH_def DEFAULT_SIGNING_CERT_def REQUIRED_FRAGMENT_def
  HARDENING_FRAGMENT_def CVM_FRAGMENT_def RANDSTRUCT_SEED_def DSDT_SOURCE_def TOOLS_TREE_CONF_def TOOLS_TREE_SANDBOX_def

lemma sample_lookup:
  "bt_get sample_world p = (if p = ''kernel/config-x86_64.snapshot'' then Some (Regular []) else map_of (rev sample_files) p)"
  using bt.get_collect [of "[]" sample_files p] unfolding sample_world_def SNAPSHOT_PATH_def by (simp split: option.splits)

lemma sample_no_children: "no_children sample_world TOOLS_TREE_SANDBOX"
  by (simp add: sample_world_def sample_files_def no_children_def child_name_def sample_paths SNAPSHOT_PATH_def
      strip_prefix_def)

lemmas sample_script = script_def NL_def

lemmas sample_eval = io_eval sample_lookup sample_files_def sample_texts Let_def sample_paths sample_create path_join_names
  bt_get_filter sample_products_world sample_hash

lemma sample_admit: "admit_inputs (sample_host sample_exec) sample_args sample_world
   = (Inr (\<lparr> linux_version = ''6'', tarball_sha256 = sample_zeros \<rparr>, DEFAULT_SIGNING_CERT, SNAPSHOT_PATH), sample_world)"
  by (simp add: admit_inputs_def pinned_version_def kernel_version_read_def verify_version_def PATCHES_def
      verify_signing_cert_def snapshot_path_def sample_args_def sample_eval)

definition sample_fp :: fingerprint where
  "sample_fp = \<lparr> fp_linux_version = ''6'', fp_tarball = sample_zeros, fp_required_config = sample_zeros,
     fp_hardening_config = sample_zeros, fp_confidential_config = sample_zeros, fp_extra_config = [],
     fp_snapshot_config = sample_zeros, fp_module_signing_cert = sample_zeros, fp_randstruct_seed = sample_zeros,
     fp_trusted_dsdt = sample_zeros, fp_trusted_aml_patch = sample_zeros, fp_snp_mr_patch = sample_zeros,
     fp_tools_tree = sample_zeros \<rparr>"

definition is_regular :: "world \<Rightarrow> string \<Rightarrow> bool" where
  "is_regular w p \<longleftrightarrow> (case bt_get w p of Some (Regular _) \<Rightarrow> True | _ \<Rightarrow> False)"

lemma sample_digest:
  assumes "is_regular w TOOLS_TREE_CONF" "bt_get w TOOLS_TREE_SANDBOX = Some Directory"
    "no_children w TOOLS_TREE_SANDBOX"
  shows "tools_tree_inputs_digest (sample_host e) w = (Inr sample_zeros, w)"
  using assms by (auto simp: tools_tree_inputs_digest_def hash_tree_inputs_def io_eval walk_empty sample_hash is_regular_def
    simp del: walk.simps split: option.splits node.splits)

lemma sample_fingerprint:
  assumes "list_all (is_regular w) [REQUIRED_FRAGMENT, HARDENING_FRAGMENT, CVM_FRAGMENT,
      DEFAULT_SIGNING_CERT, RANDSTRUCT_SEED, DSDT_SOURCE, AML_PATCH, SNP_MR_PATCH, TOOLS_TREE_CONF]"
    and "bt_get w TOOLS_TREE_SANDBOX = Some Directory" "no_children w TOOLS_TREE_SANDBOX"
    and "is_regular w SNAPSHOT_PATH"
  shows "compute_fingerprint (sample_host e) \<lparr> linux_version = ''6'', tarball_sha256 = sample_zeros \<rparr>
    None DEFAULT_SIGNING_CERT SNAPSHOT_PATH w
    = (Inr sample_fp, w)"
proof -
  have s: "sha256_file (sample_host e) p w = ((Inr sample_zeros :: kernel_error io_error fault + string), w)"
    if "is_regular w p" for p
    using that by (auto simp: sha256_file_def io_eval sample_hash is_regular_def split: option.splits node.splits)
  have t: "tools_tree_inputs_digest (sample_host e) w = (Inr sample_zeros, w)"
    using assms(1-3) by (simp add: sample_digest)
  have n: "snapshot_sha256 (sample_host e) SNAPSHOT_PATH w
      = (Inr sample_zeros, w)"
    using assms(4) s [of SNAPSHOT_PATH]
    by (auto simp: snapshot_sha256_def io_eval is_regular_def split: option.splits node.splits)
  show ?thesis
    using assms by (simp add: compute_fingerprint_def then_io_def s t n optional_sha256_def io_return_def sample_fp_def)
qed

text \<open>
  What holds throughout the build: the inputs are there, and no path that the build makes a directory, or writes, is
  something else.
\<close>

definition sample_dirs :: "string list" where
  "sample_dirs = [''output'', ''output/kernel'', ''output/kernel/build'', ''output/kernel/cache'', sample_src,
     sample_src @ ''/certs'', sample_src @ ''/.fragments'', ''mkosi'', ''mkosi/kernel-builder'',
     ''mkosi/kernel-builder/mkosi.output'', ''mkosi/kernel-builder/mkosi.output/image'']"

definition sample_written :: "string list" where
  "sample_written = [SNAPSHOT_PATH, ''output/kernel/build.log'', ''output/kernel/vmlinuz'', ''output/kernel/manifest.json'',
     ''mkosi/kernel-builder/mkosi.output/.confos-tools-stamp'', sample_src @ ''/scripts/gen-randstruct-seed.sh'',
     sample_src @ ''/scripts/Makefile.btf'', sample_src @ ''/certs/confos-module-signing.crt'',
     sample_src @ ''/confos-trusted-dsdt.asl'', sample_src @ ''/confos-trusted-aml.patch'',
     sample_src @ ''/confos-snp-mr.patch'', sample_src @ ''/.fragments/required.config'',
     sample_src @ ''/.fragments/hardening.config'', sample_src @ ''/.fragments/confidential.config'']"

definition good :: "world \<Rightarrow> bool" where
  "good w \<longleftrightarrow> list_all (\<lambda>(p, n). bt_get w p = Some n) sample_files
     \<and> list_all (\<lambda>p. bt_get w p = None \<or> bt_get w p = Some Directory) sample_dirs
     \<and> list_all (\<lambda>p. bt_get w p \<noteq> Some Directory) sample_written
     \<and> is_regular w SNAPSHOT_PATH \<and> no_children w TOOLS_TREE_SANDBOX"

lemma good_insert:
  assumes "good w" "p \<notin> fst ` set sample_files" "p \<in> set sample_dirs \<Longrightarrow> n = Directory"
    "p \<in> set sample_written \<Longrightarrow> \<exists>c. n = Regular c" "child_name TOOLS_TREE_SANDBOX p = None"
  shows "good (bt_insert p n w)"
proof -
  have "(q, m) \<in> set sample_files \<Longrightarrow> q \<noteq> p" for q m using assms(2) by force
  moreover have "SNAPSHOT_PATH \<in> set sample_written" by (simp add: sample_written_def)
  ultimately show ?thesis
    using assms(1,3,4,5) unfolding good_def list_all_iff by (auto simp: no_children_simps is_regular_def split: node.splits)
qed

lemma good_or_insert:
  assumes "good w" "p \<notin> set sample_written" "p \<notin> fst ` set sample_files" "child_name TOOLS_TREE_SANDBOX p = None"
  shows "good (bt_or_insert p Directory w)"
  using assms good_insert unfolding bt_or_insert_def by (auto split: option.splits)

lemma good_filter:
  assumes "good w" "list_all (\<lambda>(p, n). P p) sample_files" "P SNAPSHOT_PATH"
  shows "good (filter (\<lambda>(q, _). P q) w)"
  using assms by (auto simp: good_def list_all_iff bt_get_filter no_children_simps is_regular_def)

lemmas sample_names = sample_paths SNAPSHOT_PATH_def sample_src_def sample_files_def sample_dirs_def sample_written_def

lemma good_lookups:
  assumes "good w"
  shows "list_all (\<lambda>(p, n). bt_get w p = Some n) sample_files"
    "list_all (\<lambda>p. bt_get w p = None \<or> bt_get w p = Some Directory) sample_dirs"
    "list_all (\<lambda>p. bt_get w p \<noteq> Some Directory) sample_written" "no_children w TOOLS_TREE_SANDBOX"
    "is_regular w SNAPSHOT_PATH"
  using assms by (simp_all add: good_def)

lemma good_start: "good sample_world"
proof -
  have "list_all (\<lambda>(p, n). bt_get sample_world p = Some n) sample_files"
    "list_all (\<lambda>p. bt_get sample_world p = None) sample_dirs"
    "list_all (\<lambda>p. bt_get sample_world p \<noteq> Some Directory) sample_written" "is_regular sample_world SNAPSHOT_PATH"
    by (simp_all add: sample_lookup sample_names is_regular_def)
  then show ?thesis using sample_no_children by (auto simp: good_def list_all_iff)
qed

lemma good_create:
  assumes "good w" "set (lineage d) \<subseteq> set sample_dirs"
  shows "\<exists>w'. create_dir_all (sample_host e) d w = (Inr (), w') \<and> good w' \<and> (\<forall>p. bt_get w p \<noteq> None \<longrightarrow> bt_get w' p = bt_get w p)
     \<and> (\<forall>p \<in> set (lineage d). bt_get w' p = Some Directory)"
proof -
  have dirs: "p \<in> set sample_dirs \<Longrightarrow> p \<notin> set sample_written \<and> p \<notin> fst ` set sample_files
      \<and> child_name TOOLS_TREE_SANDBOX p = None" for p
    by (auto simp: sample_names child_name_def strip_prefix_def)
  have g: "set ps \<subseteq> set sample_dirs \<Longrightarrow> good v \<Longrightarrow> good (foldl (\<lambda>w q. bt_or_insert q Directory w) v ps)" for ps v
    using dirs by (induction ps arbitrary: v) (auto intro!: good_or_insert)
  have ok: "p \<in> set (lineage d) \<Longrightarrow> bt_get w p = None \<or> bt_get w p = Some Directory" for p
    using good_lookups(2) [OF assms(1)] assms(2) by (auto simp: list_all_iff)
  then have "\<not> list_ex (\<lambda>q. bt_get w q \<notin> {None, Some Directory}) (lineage d)"
    by (auto simp: list_ex_iff)
  then show ?thesis
    using g [OF assms(2,1)] ok
    by (auto simp: create_dir_all_def sample_host_simps sample_create split: option.splits) (metis option.inject option.distinct(1))
qed

abbreviation H :: host where "H \<equiv> sample_host sample_exec"

text \<open>What a command leaves.\<close>

definition produced :: "world \<Rightarrow> bool" where
  "produced w \<longleftrightarrow> list_all (\<lambda>(p, n). bt_get w p = Some n) sample_products"

lemma sample_command:
  assumes "good w"
  shows "\<exists>w'. run_command H argv w = ((Inr \<lparr> exit_ok = True, cmd_stdout = [], cmd_stderr = [] \<rparr> ::
      'e io_error fault + cmd_result), w') \<and> good w' \<and> produced w'
      \<and> (\<forall>p. p \<notin> fst ` set sample_products \<longrightarrow> bt_get w' p = bt_get w p)"
proof -
  have "good (snd (sample_exec argv w))"
    unfolding sample_products_world snd_conv
    by (intro good_insert assms) (simp_all add: sample_names child_name_def strip_prefix_def)
  moreover have "produced (snd (sample_exec argv w))"
    unfolding sample_products_world snd_conv by (simp add: produced_def sample_products_def sample_src_def)
  moreover have "p \<notin> fst ` set sample_products \<Longrightarrow> bt_get (snd (sample_exec argv w)) p = bt_get w p" for p
    unfolding sample_products_world snd_conv by (simp add: sample_products_def sample_src_def)
  ultimately show ?thesis
    by (simp add: run_command_def sample_host_simps sample_products_world)
qed

lemma sample_nspawn:
  assumes "good w"
  shows "\<exists>w'. nspawn_exec H tree binds env argv w = ((Inr () :: 'e io_error fault + unit), w') \<and> good w' \<and> produced w'
      \<and> (\<forall>p. p \<notin> fst ` set sample_products \<longrightarrow> bt_get w' p = bt_get w p)"
proof -
  from sample_command [OF assms] obtain w' where "run_command H (''sudo'' # ''/bin/systemd-nspawn'' #
       [''--quiet'', ''--register=no'', ''--keep-unit'', ''--ephemeral'', ''--directory'', tree]
       @ concat (map bind_args binds) @ concat (map env_args env) @ argv) w
     = ((Inr \<lparr> exit_ok = True, cmd_stdout = [], cmd_stderr = [] \<rparr> :: 'e io_error fault + cmd_result), w')"
    "good w'" "produced w'" "\<forall>p. p \<notin> fst ` set sample_products \<longrightarrow> bt_get w' p = bt_get w p" by blast
  then show ?thesis
    by (simp add: nspawn_exec_def require_tool_def sample_host_simps run_command_streaming_def then_io_run io_steps)
qed

lemma good_read:
  assumes "good w" "(p, Regular c) \<in> set sample_files"
  shows "read_bytes H p w = ((Inr c :: 'e io_error fault + string), w)"
  using good_lookups(1) [OF assms(1)] assms(2)
  by (auto simp: read_bytes_def node_at_def sample_host_simps list_all_iff)

lemma good_write:
  assumes "good w" "p \<in> set sample_written"
  shows "write_bytes H p c w = ((Inr () :: 'e io_error fault + unit), bt_insert p (Regular c) w)"
    "good (bt_insert p (Regular c) w)"
proof -
  have n: "p \<notin> fst ` set sample_files \<and> p \<notin> set sample_dirs \<and> child_name TOOLS_TREE_SANDBOX p = None"
    using assms(2) by (auto simp: sample_names child_name_def strip_prefix_def)
  show "write_bytes H p c w = ((Inr () :: 'e io_error fault + unit), bt_insert p (Regular c) w)"
    using good_lookups(3) [OF assms(1)] assms(2)
    by (auto simp: write_bytes_def node_at_def sample_host_simps list_all_iff)
  show "good (bt_insert p (Regular c) w)"
    by (rule good_insert [OF assms(1)]) (use n in auto)
qed

end
