(* ===== verification/KernelSample.thy ===== *)
theory KernelSample
  imports KernelWitness
begin

text \<open>
  A whole kernel build on the sample machine, step by step: from a world where the entries \<open>fs\<close> are known, each step
  returns a known value and leaves a world with known entries.
\<close>

definition runs :: "(world \<Rightarrow> bool) \<Rightarrow> ('e, 'a) io \<Rightarrow> 'a \<Rightarrow> (world \<Rightarrow> bool) \<Rightarrow> bool" where
  "runs P m v Q \<longleftrightarrow> (\<forall>w. P w \<longrightarrow> (\<exists>w'. m w = (Inr v, w') \<and> Q w'))"

lemma runs_then: "runs P m v Q \<Longrightarrow> runs Q (f v) u R \<Longrightarrow> runs P (then_io m f) u R"
  unfolding runs_def by (metis then_io_run(1))

lemma runs_same: "(\<And>w. P w \<Longrightarrow> m w = (Inr v, w)) \<Longrightarrow> runs P m v P"
  by (simp add: runs_def)

lemma runs_post: "runs P m v Q \<Longrightarrow> (\<And>w. Q w \<Longrightarrow> Q' w) \<Longrightarrow> runs P m v Q'"
  unfolding runs_def by blast

definition has :: "(string \<times> node) list \<Rightarrow> world \<Rightarrow> bool" where
  "has fs w \<longleftrightarrow> good w \<and> (\<forall>(p, n) \<in> set fs. bt_get w p = Some n)"

lemma has_get: "has fs w \<Longrightarrow> (p, n) \<in> set (sample_files @ fs) \<Longrightarrow> bt_get w p = Some n"
  using good_lookups(1) by (fastforce simp: has_def list_all_iff)

lemma runs_simple:
  "runs P (io_return v) v P" "runs P (io_of (Inr v)) v P" "runs P (io_check True e) () P"
  by (simp_all add: runs_def io_steps)

lemma has_create:
  assumes "set (lineage d) \<subseteq> set sample_dirs" "d \<in> set (lineage d)" "set gs \<subseteq> insert (d, Directory) (set fs)"
  shows "runs (has fs) (create_dir_all H d :: ('e, unit) io) () (has gs)"
  unfolding runs_def
proof (intro allI impI)
  fix w assume w: "has fs w"
  then obtain w' where c: "create_dir_all H d w = ((Inr () :: 'e io_error fault + unit), w')" "good w'"
    "\<forall>p. bt_get w p \<noteq> None \<longrightarrow> bt_get w' p = bt_get w p" "\<forall>p \<in> set (lineage d). bt_get w' p = Some Directory"
    using good_create [OF _ assms(1)] unfolding has_def by blast
  have "bt_get w' p = Some n" if "(p, n) \<in> set gs" for p n
  proof (cases "(p, n) \<in> set fs")
    case True
    then have "bt_get w p = Some n" using w by (auto simp: has_def)
    then show ?thesis using c(3) by simp
  next
    case False
    then show ?thesis using that assms(2,3) c(4) by auto
  qed
  then have "has gs w'" using c(2) by (auto simp: has_def)
  then show "\<exists>w'. create_dir_all H d w = ((Inr () :: 'e io_error fault + unit), w') \<and> has gs w'"
    using c(1) by blast
qed

lemma has_write:
  assumes "p \<in> set sample_written" "set gs \<subseteq> insert (p, Regular c) {(q, n) \<in> set fs. q \<noteq> p}"
  shows "runs (has fs) (write_bytes H p c) () (has gs)"
  unfolding runs_def
proof (intro allI impI)
  fix w assume w: "has fs w"
  then have g: "good w" by (simp add: has_def)
  have "bt_get (bt_insert p (Regular c) w) q = Some n" if "(q, n) \<in> set gs" for q n
    using that assms(2) w by (auto simp: has_def)
  then have "has gs (bt_insert p (Regular c) w)"
    using good_write(2) [OF g assms(1)] by (auto simp: has_def)
  then show "\<exists>w'. write_bytes H p c w = (Inr (), w') \<and> has gs w'"
    using good_write(1) [OF g assms(1)] by blast
qed

lemma has_filter:
  assumes "has fs w" "list_all (\<lambda>(p, n). \<not> below d p) sample_files" "\<not> below d SNAPSHOT_PATH"
    "set gs \<subseteq> {(p, n) \<in> set fs. \<not> below d p}"
  shows "has gs (filter (\<lambda>(q, _). \<not> below d q) w)"
proof -
  have "bt_get w p = Some n \<and> \<not> below d p" if "(p, n) \<in> set gs" for p n
    using that assms(1,4) unfolding has_def by blast
  then show ?thesis
    using good_filter [of w "\<lambda>p. \<not> below d p"] assms(1-3) unfolding has_def bt_get_filter by auto
qed

lemma has_less: "has fs w \<Longrightarrow> set gs \<subseteq> set fs \<Longrightarrow> has gs w"
  unfolding has_def by blast

abbreviation after_command :: "(string \<times> node) list \<Rightarrow> (string \<times> node) set" where
  "after_command fs \<equiv> set sample_products \<union> {(q, n) \<in> set fs. q \<notin> fst ` set sample_products}"

lemma produced_get: "produced w \<Longrightarrow> (p, n) \<in> set sample_products \<Longrightarrow> bt_get w p = Some n"
  by (auto simp: produced_def list_all_iff)

lemma has_after:
  assumes "has fs w" "good w'" "produced w'" "\<forall>p. p \<notin> fst ` set sample_products \<longrightarrow> bt_get w' p = bt_get w p"
    "set gs \<subseteq> after_command fs"
  shows "has gs w'"
proof -
  have "bt_get w' p = Some n" if "(p, n) \<in> set gs" for p n
  proof (cases "(p, n) \<in> set sample_products")
    case True
    then show ?thesis using produced_get [OF assms(3)] by blast
  next
    case False
    then have "(p, n) \<in> set fs" "p \<notin> fst ` set sample_products" using that assms(5) by auto
    then show ?thesis using assms(1,4) by (auto simp: has_def)
  qed
  then show ?thesis using assms(2) by (auto simp: has_def)
qed

definition sample_ok :: cmd_result where
  "sample_ok = \<lparr> exit_ok = True, cmd_stdout = [], cmd_stderr = [] \<rparr>"

lemma has_command:
  assumes "set gs \<subseteq> after_command fs"
  shows "runs (has fs) (run_command H argv) sample_ok (has gs)"
  unfolding runs_def
proof (intro allI impI)
  fix w assume w: "has fs w"
  then have "good w" by (simp add: has_def)
  from sample_command [OF this] obtain w' where "run_command H argv w = ((Inr sample_ok :: 'a io_error fault + cmd_result), w')"
    "good w'" "produced w'" "\<forall>p. p \<notin> fst ` set sample_products \<longrightarrow> bt_get w' p = bt_get w p"
    unfolding sample_ok_def by blast
  then show "\<exists>w'. run_command H argv w = ((Inr sample_ok :: 'a io_error fault + cmd_result), w') \<and> has gs w'"
    using has_after [OF w _ _ _ assms] by blast
qed

lemma has_stream:
  assumes "set gs \<subseteq> after_command fs"
  shows "runs (has fs) (run_command_streaming H argv) () (has gs)"
  unfolding run_command_streaming_def by (rule runs_then [OF has_command [OF assms] runs_simple(1)])

lemma has_nspawn:
  assumes "set gs \<subseteq> after_command fs"
  shows "runs (has fs) (nspawn_exec H tree binds env argv) () (has gs)"
proof -
  have "runs P (require_tool H ''systemd-nspawn'') ''/bin/systemd-nspawn'' P" for P
    by (rule runs_same) (simp add: require_tool_def sample_host_simps io_steps)
  then show ?thesis
    unfolding nspawn_exec_def by (rule runs_then) (rule has_stream [OF assms])
qed

lemma has_remove:
  assumes "(d, Directory) \<in> set fs" "list_all (\<lambda>(p, n). \<not> below d p) sample_files" "\<not> below d SNAPSHOT_PATH"
    "set gs \<subseteq> {(p, n) \<in> set fs. \<not> below d p}"
  shows "runs (has fs) (remove_dir_all H d) () (has gs)"
  unfolding runs_def
proof (intro allI impI)
  fix w assume w: "has fs w"
  have "bt_get w d = Some Directory" using w assms(1) by (auto simp: has_def)
  moreover have "has gs (filter (\<lambda>(q, _). \<not> below d q) w)"
    by (rule has_filter [OF w assms(2-4)])
  ultimately show "\<exists>w'. remove_dir_all H d w = (Inr (), w') \<and> has gs w'"
    by (auto simp: remove_dir_all_def node_at_def sample_host_simps)
qed

lemma has_force_remove:
  assumes "d \<in> set sample_dirs" "list_all (\<lambda>(p, n). \<not> below d p) sample_files" "\<not> below d SNAPSHOT_PATH"
    "set gs \<subseteq> {(p, n) \<in> set fs. \<not> below d p}"
  shows "runs (has fs) (force_remove_dir_all H d) () (has gs)"
  unfolding runs_def
proof (intro allI impI)
  fix w assume w: "has fs w"
  have "bt_get w d = None \<or> bt_get w d = Some Directory"
    using good_lookups(2) w assms(1) by (auto simp: has_def list_all_iff)
  moreover have "has gs w" using w assms(4) by (auto intro: has_less)
  moreover have "has gs (filter (\<lambda>(q, _). \<not> below d q) w)"
    by (rule has_filter [OF w assms(2-4)])
  ultimately show "\<exists>w'. force_remove_dir_all H d w = (Inr (), w') \<and> has gs w'"
    by (auto simp: force_remove_dir_all_def remove_dir_all_def node_at_def sample_host_simps path_exists_def)
qed

abbreviation known :: "(string \<times> node) list \<Rightarrow> (string \<times> node) set" where "known fs \<equiv> set (sample_files @ fs)"

lemma has_read: "(p, Regular c) \<in> known fs \<Longrightarrow> runs (has fs) (read_bytes H p) c (has fs)"
  by (rule runs_same) (use has_get in \<open>fastforce simp: read_bytes_def node_at_def sample_host_simps\<close>)

lemma has_text: "(p, Regular c) \<in> known fs \<Longrightarrow> valid_str c \<Longrightarrow> runs (has fs) (read_to_string H p) c (has fs)"
  unfolding read_to_string_def by (rule runs_then, erule has_read, simp only: if_True, rule runs_simple)

lemma has_sha: "(p, Regular c) \<in> known fs \<Longrightarrow> runs (has fs) (sha256_file H p) sample_zeros (has fs)"
  unfolding sha256_file_def by (rule runs_then, erule has_read, simp only: sample_hash, rule runs_simple)

lemma has_exists: "(p, n) \<in> known fs \<Longrightarrow> runs (has fs) (io_get (path_exists H p)) True (has fs)"
  by (rule runs_same) (use has_get in \<open>fastforce simp: path_exists_def node_at_def sample_host_simps io_steps\<close>)

lemma has_canon: "(p, n) \<in> known fs \<Longrightarrow> runs (has fs) (canonicalize H p) p (has fs)"
  by (rule runs_same) (use has_get in \<open>fastforce simp: canonicalize_def path_exists_def node_at_def sample_host_simps\<close>)

lemma has_copy:
  assumes "(p, Regular c) \<in> known fs" "q \<in> set sample_written"
    "set gs \<subseteq> insert (q, Regular c) {(q', n) \<in> set fs. q' \<noteq> q}"
  shows "runs (has fs) (copy_file H p q) () (has gs)"
  unfolding copy_file_def by (rule runs_then, rule has_read [OF assms(1)], rule has_write [OF assms(2,3)])

lemma runs_forget:
  assumes "\<And>w. P w \<Longrightarrow> \<exists>v w'. m w = (Inr v, w') \<and> Q w'" "\<And>v. runs Q (f v) u R"
  shows "runs P (then_io m f) u R"
  unfolding runs_def
proof (intro allI impI)
  fix w assume "P w"
  then obtain v w' where m: "m w = (Inr v, w')" "Q w'" using assms(1) by blast
  then show "\<exists>w'. then_io m f w = (Inr u, w') \<and> R w'"
    using assms(2) [of v] unfolding runs_def by (simp add: then_io_run(1))
qed

text \<open>The same with the known entries afterwards written out.\<close>

abbreviation next_entries :: "(string \<times> node) list \<Rightarrow> (string \<times> node) list" where
  "next_entries fs \<equiv> sample_products @ filter (\<lambda>(q, _). q \<notin> fst ` set sample_products) fs"

lemma step_create:
  "set (lineage d) \<subseteq> set sample_dirs \<Longrightarrow> d \<in> set (lineage d) \<Longrightarrow>
    runs (has fs) (create_dir_all H d) () (has ((d, Directory) # fs))"
  by (rule has_create) auto

lemma step_write:
  "p \<in> set sample_written \<Longrightarrow> runs (has fs) (write_bytes H p c) () (has ((p, Regular c) # filter (\<lambda>(q, _). q \<noteq> p) fs))"
  by (rule has_write) auto

lemma step_copy:
  "(p, Regular c) \<in> known fs \<Longrightarrow> q \<in> set sample_written \<Longrightarrow>
    runs (has fs) (copy_file H p q) () (has ((q, Regular c) # filter (\<lambda>(q', _). q' \<noteq> q) fs))"
  by (rule has_copy) auto

lemma step_command: "runs (has fs) (run_command H argv) sample_ok (has (next_entries fs))"
  by (rule has_command) auto

lemma step_stream: "runs (has fs) (run_command_streaming H argv) () (has (next_entries fs))"
  by (rule has_stream) auto

lemma step_nspawn: "runs (has fs) (nspawn_exec H tree binds env argv) () (has (next_entries fs))"
  by (rule has_nspawn) auto

lemma step_force_remove:
  "d \<in> set sample_dirs \<Longrightarrow> list_all (\<lambda>(p, n). \<not> below d p) sample_files \<Longrightarrow> \<not> below d SNAPSHOT_PATH \<Longrightarrow>
    runs (has fs) (force_remove_dir_all H d) () (has (filter (\<lambda>(p, _). \<not> below d p) fs))"
  by (rule has_force_remove) auto

lemma step_remove:
  "(d, Directory) \<in> set fs \<Longrightarrow> list_all (\<lambda>(p, n). \<not> below d p) sample_files \<Longrightarrow> \<not> below d SNAPSHOT_PATH \<Longrightarrow>
    runs (has fs) (remove_dir_all H d) () (has (filter (\<lambda>(p, _). \<not> below d p) fs))"
  by (rule has_remove) auto

lemma has_digest: "runs (has fs) (tools_tree_inputs_digest H) sample_zeros (has fs)"
proof (rule runs_same)
  fix w assume w: "has fs w"
  have "(TOOLS_TREE_CONF, Regular []) \<in> set sample_files" "(TOOLS_TREE_SANDBOX, Directory) \<in> set sample_files"
    by (simp_all add: sample_files_def)
  then have "is_regular w TOOLS_TREE_CONF" "bt_get w TOOLS_TREE_SANDBOX = Some Directory"
    using has_get [OF w] unfolding is_regular_def by fastforce+
  then show "tools_tree_inputs_digest H w = (Inr sample_zeros, w)"
    using sample_digest good_lookups(4) w unfolding has_def by blast
qed

lemma has_fingerprint:
  "runs (has fs) (compute_fingerprint H \<lparr> linux_version = ''6'', tarball_sha256 = sample_zeros \<rparr> None
     DEFAULT_SIGNING_CERT SNAPSHOT_PATH) sample_fp (has fs)"
proof (rule runs_same)
  fix w assume w: "has fs w"
  have "list_all (is_regular w) [REQUIRED_FRAGMENT, HARDENING_FRAGMENT, CVM_FRAGMENT, DEFAULT_SIGNING_CERT,
      RANDSTRUCT_SEED, DSDT_SOURCE, AML_PATCH, SNP_MR_PATCH, TOOLS_TREE_CONF]"
    "bt_get w TOOLS_TREE_SANDBOX = Some Directory"
    using good_lookups(1) w unfolding has_def by (auto simp: list_all_iff sample_files_def is_regular_def)
  then show "compute_fingerprint H \<lparr> linux_version = ''6'', tarball_sha256 = sample_zeros \<rparr> None DEFAULT_SIGNING_CERT
      SNAPSHOT_PATH w = (Inr sample_fp, w)"
    using sample_fingerprint good_lookups(4,5) w unfolding has_def by blast
qed

lemmas sample_eqs = path_join_names sample_names sample_products_def TOOLS_TREE_OUTPUT_def KERNEL_OUT_DIR_def lineage_def
  below_def prefixes.simps

lemma has_mkosi: "runs (has fs) (run_mkosi H args) () (has (next_entries fs))"
proof -
  have m: "runs (has fs) (require_tool H ''mkosi'') ''/bin/mkosi'' (has fs)"
    by (rule runs_same) (simp add: require_tool_def sample_host_simps io_steps)
  have "tee_scan [] = []" by code_simp
  then have t: "tee_scan (cmd_stdout sample_ok) @ tee_scan (cmd_stderr sample_ok) = []" by (simp add: sample_ok_def)
  have r: "runs (has fs) (resolve_mkosi H) ''/bin/mkosi'' (has fs)"
    unfolding resolve_mkosi_def by (rule runs_then [OF m has_canon [where n = "Regular []"]]) (simp add: sample_files_def)
  show ?thesis
    unfolding run_mkosi_def by (rule runs_then [OF r], rule runs_then, rule step_command) (auto simp: t runs_simple)
qed

lemma has_no_stamp:
  "has fs w \<Longrightarrow> \<exists>v w'. io_try (remove_file H ''mkosi/kernel-builder/mkosi.output/.confos-tools-stamp'' :: ('e, unit) io) w
     = (Inr v, w') \<and> has [] w'"
  using good_filter [of w "\<lambda>p. p \<noteq> ''mkosi/kernel-builder/mkosi.output/.confos-tools-stamp''"]
  by (auto simp: io_try_def remove_file_def sample_host_simps node_at_def has_def sample_names split: option.splits node.splits)

lemmas sample_joins = TOOLS_TREE_OUTPUT_def KERNEL_OUT_DIR_def path_join_names

lemma has_tools:
  "runs (has fs) (ensure_tools_tree H True [] TOOLS_TREE_OUTPUT) ''mkosi/kernel-builder/mkosi.output/image''
     (has sample_products)"
proof -
  have j: "path_join TOOLS_TREE_OUTPUT ''image'' = ''mkosi/kernel-builder/mkosi.output/image''"
    "path_join TOOLS_TREE_OUTPUT ''.confos-tools-stamp'' = ''mkosi/kernel-builder/mkosi.output/.confos-tools-stamp''"
    by (simp_all add: sample_joins)
  have d: "set (lineage TOOLS_TREE_OUTPUT) \<subseteq> set sample_dirs" "TOOLS_TREE_OUTPUT \<in> set (lineage TOOLS_TREE_OUTPUT)"
    by (simp_all add: sample_eqs)
  show ?thesis
    unfolding ensure_tools_tree_def tools_tree_current_def rebuild_tools_tree_def Let_def j
    apply (rule runs_then, rule has_digest)
    apply (rule runs_then [where v = False], rule runs_same, simp add: io_steps)
    apply (simp only: if_False)
    apply (rule runs_forget [where Q = "has []"], erule has_no_stamp)
    apply (rule runs_then, rule step_create [OF d])
    apply (rule runs_then, rule has_mkosi)
    apply (rule runs_then, rule has_exists [where n = Directory], simp add: sample_eqs)
    apply (rule runs_then, rule runs_simple)
    apply (rule runs_then, rule step_write, simp add: sample_names)
    apply (rule runs_post, rule has_canon [where n = Directory], simp add: sample_eqs)
    apply (erule has_less, simp add: sample_eqs)
    done
qed

abbreviation sample_version :: kernel_version where
  "sample_version \<equiv> \<lparr> linux_version = ''6'', tarball_sha256 = sample_zeros \<rparr>"

lemma has_fetch:
  assumes "(''output/kernel/cache/linux-6.tar.xz'', Regular []) \<in> known fs"
  shows "runs (has fs) (fetch H ''6'' sample_zeros ''output/kernel/cache'') ''output/kernel/cache/linux-6.tar.xz'' (has fs)"
proof -
  have j: "tarball_dest ''output/kernel/cache'' ''6'' = ''output/kernel/cache/linux-6.tar.xz''"
    by (simp add: tarball_dest_def sample_joins)
  have c: "runs (has fs) (create_dir_all H ''output/kernel/cache'') () (has fs)"
    by (rule has_create) (auto simp: sample_eqs)
  have t: "runs (has fs) (tarball_cached H ''output/kernel/cache/linux-6.tar.xz'' sample_zeros) True (has fs)"
  proof (rule runs_same)
    fix w assume "has fs w"
    then have "bt_get w ''output/kernel/cache/linux-6.tar.xz'' = Some (Regular [])"
      using assms by (rule has_get)
    then show "tarball_cached H ''output/kernel/cache/linux-6.tar.xz'' sample_zeros w = (Inr True, w)"
      by (simp add: tarball_cached_Inr path_exists_def node_at_def sample_host_simps sample_hash sample_texts)
  qed
  show ?thesis
    unfolding fetch_def Let_def j
    apply (rule runs_then, rule c)
    apply (rule runs_then, rule t)
    apply (simp only: if_True)
    apply (rule runs_simple)
    done
qed

lemmas sample_src_eqs = sample_eqs sample_host_simps

lemma has_source:
  assumes "(''output/kernel/cache/linux-6.tar.xz'', Regular []) \<in> known fs"
  shows "runs (has fs) (extract_pinned_source H sample_version tree ''output/kernel/cache'' ''output/kernel/build'')
     sample_src (has sample_products)"
proof -
  have j: "path_join ''output/kernel/build'' (''linux-'' @ ''6'') = sample_src"
    "path_join sample_src STAGED_DSDT = sample_src @ ''/confos-trusted-dsdt.asl''"
    "path_join sample_src STAGED_AML_PATCH = sample_src @ ''/confos-trusted-aml.patch''"
    "path_join sample_src STAGED_SNP_MR_PATCH = sample_src @ ''/confos-snp-mr.patch''"
    by (simp_all add: sample_joins sample_src_def STAGED_DSDT_def STAGED_AML_PATCH_def STAGED_SNP_MR_PATCH_def)
  have v: "linux_version sample_version = ''6''" "tarball_sha256 sample_version = sample_zeros" by simp_all
  show ?thesis
    unfolding extract_pinned_source_def Let_def v j aml_stage_def snp_mr_stage_def nspawn_def extract_tarball_def
    apply (rule runs_then, rule has_fetch [OF assms])
    apply (rule runs_then, rule step_force_remove, simp add: sample_eqs, simp add: sample_eqs, simp add: sample_eqs)
    apply (rule runs_then, rule step_create, simp add: sample_eqs, simp add: sample_eqs)
    apply (rule runs_then, rule step_stream)
    apply (rule runs_then, rule has_exists [where n = Directory], simp add: sample_eqs)
    apply (rule runs_then, rule runs_simple)
    apply (rule runs_then)
     apply (rule runs_then, rule step_copy [where c = "[]"], simp add: sample_eqs, simp add: sample_eqs)
     apply (rule runs_then, rule step_copy [where c = sample_patch], simp add: sample_eqs, simp add: sample_eqs)
     apply (rule step_nspawn)
    apply (rule runs_then)
     apply (rule runs_then, rule step_copy [where c = sample_patch], simp add: sample_eqs, simp add: sample_eqs)
     apply (rule step_nspawn)
    apply (rule runs_post, rule runs_simple)
    apply (erule has_less, simp add: sample_eqs)
    done
qed

lemma has_pins:
  "runs (has sample_products) (pin_sources H sample_src DEFAULT_SIGNING_CERT) sample_zeros (has [(sample_src, Directory)])"
proof -
  have j: "path_join sample_src ''scripts/gen-randstruct-seed.sh'' = sample_src @ ''/scripts/gen-randstruct-seed.sh''"
    "path_join sample_src ''scripts/Makefile.btf'' = sample_src @ ''/scripts/Makefile.btf''"
    "path_join sample_src ''certs'' = sample_src @ ''/certs''"
    "path_join (sample_src @ ''/certs'') STAGED_SIGNING_CERT = sample_src @ ''/certs/confos-module-signing.crt''"
    by (simp_all add: sample_joins sample_src_def STAGED_SIGNING_CERT_def)
  have n: "replace_str ''-j$(JOBS)'' ''-j1'' sample_mk \<noteq> sample_mk" using sample_texts by simp
  show ?thesis
    unfolding pin_sources_def Let_def j
    apply (rule runs_then, rule has_text [where c = sample_zeros], simp add: sample_eqs, rule sample_texts)
    unfolding sample_texts
    apply (rule runs_then, simp only: sample_texts, rule runs_simple)
    apply (rule runs_then, rule step_write, simp add: sample_eqs)
    apply (rule runs_then, rule has_text [where c = sample_mk], simp add: sample_eqs, rule sample_texts)
    apply (rule runs_then, simp only: n, simp only: simp_thms, rule runs_simple)
    apply (rule runs_then, rule step_write, simp add: sample_eqs)
    apply (rule runs_then, rule step_create, simp add: sample_eqs, simp add: sample_eqs)
    apply (rule runs_then, rule step_copy [where c = sample_cert], simp add: sample_eqs, simp add: sample_eqs)
    apply (rule runs_post, rule runs_simple)
    apply (erule has_less, simp add: sample_eqs)
    done
qed

lemma has_fragments:
  assumes "(resolved, Regular sample_config) \<in> known fs"
  shows "runs (has fs) (verify_fragment_options H [REQUIRED_FRAGMENT, HARDENING_FRAGMENT, CVM_FRAGMENT] resolved) ()
     (has fs)"
proof -
  have n: "fragment_name REQUIRED_FRAGMENT = ''required.config''" "fragment_name HARDENING_FRAGMENT = ''hardening.config''"
    "fragment_name CVM_FRAGMENT = ''confidential.config''"
    by (simp_all add: sample_paths fragment_name_def file_name_def path_split_def)
  have r: "runs (has fs) (then_io (read_to_string H f) (\<lambda>body. io_return (g, body))) (g, []) (has fs)"
    if "(f, Regular []) \<in> set sample_files" for f and g :: string
    by (rule runs_then, rule has_text [where c = "[]"]) (use that in \<open>simp_all add: runs_simple sample_config_checks\<close>)
  have m: "runs (has fs) (io_map (\<lambda>f. then_io (read_to_string H f) (\<lambda>body. io_return (fragment_name f, body)))
      [REQUIRED_FRAGMENT, HARDENING_FRAGMENT, CVM_FRAGMENT])
      [(''required.config'', []), (''hardening.config'', []), (''confidential.config'', [])] (has fs)"
    unfolding io_map.simps n
    apply (rule runs_then, rule r, simp add: sample_files_def)
    apply (rule runs_then, rule runs_then, rule r, simp add: sample_files_def)
     apply (rule runs_then, rule runs_then, rule r, simp add: sample_files_def)
      apply (rule runs_then, rule runs_simple, rule runs_simple)
     apply (rule runs_simple)
    apply (rule runs_simple)
    done
  show ?thesis
    unfolding verify_fragment_options_def
    apply (rule runs_then, rule m)
    apply (rule runs_then, rule has_text, rule assms, rule sample_config_checks)
    apply (simp only: sample_config_checks map_err_simps)
    apply (rule runs_simple)
    done
qed

lemma has_configure:
  "runs (has [(sample_src, Directory)])
     (run_configure_phase H tree sample_src REQUIRED_FRAGMENT HARDENING_FRAGMENT CVM_FRAGMENT None) ()
     (has sample_products)"
proof -
  have j: "path_join sample_src ''.fragments'' = sample_src @ ''/.fragments''"
    "path_join sample_src ''.config'' = sample_src @ ''/.config''"
    "path_join (sample_src @ ''/.fragments'') ''required.config'' = sample_src @ ''/.fragments/required.config''"
    "path_join (sample_src @ ''/.fragments'') ''hardening.config'' = sample_src @ ''/.fragments/hardening.config''"
    "path_join (sample_src @ ''/.fragments'') ''confidential.config'' = sample_src @ ''/.fragments/confidential.config''"
    by (simp_all add: sample_joins sample_src_def)
  show ?thesis
    unfolding run_configure_phase_def Let_def nspawn_def canonical_option_def stage_extra_def option.case verify_builder_invariants_def
    apply (rule runs_then, rule has_canon [where n = Directory], simp)
    apply (rule runs_then, rule has_canon [where n = "Regular []"], simp add: sample_files_def)
    apply (rule runs_then, rule has_canon [where n = "Regular []"], simp add: sample_files_def)
    apply (rule runs_then, rule has_canon [where n = "Regular []"], simp add: sample_files_def)
    apply (rule runs_then, rule runs_simple)
    unfolding j option.case append_Nil2
    apply (rule runs_then, rule step_create, simp add: sample_eqs, simp add: sample_eqs)
    apply (rule runs_then, rule step_copy [where c = "[]"], simp add: sample_files_def, simp add: sample_written_def)
    apply (rule runs_then, rule step_copy [where c = "[]"], simp add: sample_files_def, simp add: sample_written_def)
    apply (rule runs_then, rule step_copy [where c = "[]"], simp add: sample_files_def, simp add: sample_written_def)
    apply (rule runs_then, rule runs_simple)
    apply (rule runs_then, rule step_nspawn)
    apply (rule runs_then, rule step_remove, simp add: sample_eqs, simp add: sample_eqs, simp add: sample_eqs)
    apply (rule runs_then, rule has_fragments, simp add: sample_eqs)
    apply (rule runs_then, rule has_text [where c = sample_config], simp add: sample_eqs, rule sample_config_checks)
    apply (simp only: sample_config_checks map_err_simps)
    apply (rule runs_post, rule runs_simple)
    apply (erule has_less, simp add: sample_eqs)
    done
qed

lemma has_snapshot:
  assumes "has sample_products w"
  shows "\<exists>v w'. update_snapshot H (sample_src @ ''/.config'') SNAPSHOT_PATH w = (Inr v, w') \<and> has sample_products w'"
proof -
  have "is_regular w SNAPSHOT_PATH" by (rule good_lookups(5)) (use assms in \<open>simp add: has_def\<close>)
  then obtain c where c: "bt_get w SNAPSHOT_PATH = Some (Regular c)"
    by (auto simp: is_regular_def split: option.splits node.splits)
  have n: "bt_get w (sample_src @ ''/.config'') = Some (Regular sample_config)"
    by (rule has_get [OF assms]) (simp add: sample_products_def)
  have r: "runs (has sample_products) (write_bytes H SNAPSHOT_PATH sample_config :: unit kernel_io) ()
      (has sample_products)"
    by (rule has_write) (auto simp: sample_eqs)
  then obtain w' where "write_bytes H SNAPSHOT_PATH sample_config w = ((Inr () :: kernel_error io_error fault + unit), w')"
    "has sample_products w'"
    using assms unfolding runs_def by blast
  then show ?thesis
    using c n by (simp add: update_snapshot_def then_io_def read_bytes_def node_at_def sample_host_simps io_try_def io_return_def)
qed

lemma has_compile:
  "runs (has ((''output/kernel/build.log'', Regular []) # sample_products))
     (compile_run H tree sample_src ''output/kernel/vmlinuz'' seed ''output/kernel/build.log'') ()
     (has [(''output/kernel/vmlinuz'', Regular ''kernel'')])"
proof -
  have j: "path_join sample_src ''arch/x86/boot/bzImage'' = sample_src @ ''/arch/x86/boot/bzImage''"
    by (simp add: sample_joins sample_src_def)
  have t: "runs P (require_tool H ''systemd-nspawn'') ''/bin/systemd-nspawn'' P" for P
    by (rule runs_same) (simp add: require_tool_def sample_host_simps io_steps)
  show ?thesis
    unfolding compile_run_def Let_def
    apply (rule runs_then, rule step_write, simp add: sample_written_def)
    apply (rule runs_then, rule has_canon [where n = Directory], simp add: sample_eqs)
    apply (rule runs_then, rule has_canon [where n = "Regular []"], simp add: sample_eqs)
    apply (rule runs_then, rule t)
    apply (rule runs_then, rule step_stream)
    unfolding j
    apply (rule runs_then, rule has_exists [where n = "Regular ''kernel''"], simp add: sample_products_def)
    apply (rule runs_then, rule runs_simple)
    apply (rule has_copy [where c = "''kernel''"], simp add: sample_products_def, simp add: sample_written_def)
    apply simp
    done
qed

definition sample_manifest :: kernel_manifest where
  "sample_manifest = \<lparr> km_version = 1, km_linux_version = ''6'', km_inputs = sample_fp,
     km_vmlinuz_sha256 = sample_zeros, km_built_at = ''2026-01-01T00:00:00Z'' \<rparr>"

lemma has_build:
  "runs (has fs) (build_kernel H j (ensure_tools_tree H) sample_args sample_version DEFAULT_SIGNING_CERT SNAPSHOT_PATH
      ''output/kernel'' sample_fp) ()
    (has [(''output/kernel/manifest.json'', Regular (print_json j sample_manifest)),
          (''output/kernel/vmlinuz'', Regular ''kernel'')])"
proof -
  have p: "path_join ''output/kernel'' ''vmlinuz'' = ''output/kernel/vmlinuz''"
    "path_join ''output/kernel'' ''build.log'' = ''output/kernel/build.log''"
    "path_join ''output/kernel'' ''build'' = ''output/kernel/build''"
    "path_join ''output/kernel'' ''cache'' = ''output/kernel/cache''"
    "path_join ''output/kernel'' ''manifest.json'' = ''output/kernel/manifest.json''"
    "path_join sample_src ''.config'' = sample_src @ ''/.config''"
    by (simp_all add: sample_joins sample_src_def)
  have a: "ka_force sample_args = True" "ka_packages sample_args = []" "ka_fragment sample_args = None"
    by (simp_all add: sample_args_def)
  have v: "verify_inputs_unchanged sample_fp sample_fp = Inr ()"
    by (simp add: verify_inputs_unchanged_def)
  have m: "\<lparr> km_version = 1, km_linux_version = linux_version sample_version, km_inputs = sample_fp,
         km_vmlinuz_sha256 = sample_zeros, km_built_at = now H \<rparr> = sample_manifest"
    by (simp add: sample_manifest_def sample_host_def)
  show ?thesis
    unfolding build_kernel_def Let_def p a
    apply (rule runs_then, rule has_tools)
    apply (rule runs_then)
     apply (rule has_force_remove [where gs = "[(''output/kernel/cache/linux-6.tar.xz'', Regular [])]"])
        apply (simp add: sample_eqs)
       apply (simp add: sample_eqs)
      apply (simp add: sample_eqs)
     apply (simp add: sample_eqs)
    apply (rule runs_then, rule has_source, simp)
    apply (rule runs_then, rule has_pins)
    apply (rule runs_then, rule has_configure)
    unfolding p
    apply (rule runs_forget [where Q = "has sample_products"], erule has_snapshot)
    apply (rule runs_then)
     apply (rule has_write [where gs = "(''output/kernel/build.log'', Regular []) # sample_products"])
      apply (simp add: sample_eqs)
     apply (simp add: sample_eqs)
    apply (rule runs_then, rule has_compile)
    apply (rule runs_then, rule has_fingerprint)
    unfolding v
    apply (rule runs_then, rule runs_simple)
    apply (rule runs_then, rule has_sha [where c = "''kernel''"], simp)
    unfolding m write_kernel_manifest_def
    apply (rule has_write)
     apply (simp add: sample_eqs)
    apply simp
    done
qed

lemma sample_run:
  "\<exists>w'. run_with_tools H j (ensure_tools_tree H) sample_args sample_world = (Inr (), w')
     \<and> has [(''output/kernel/manifest.json'', Regular (print_json j sample_manifest)),
          (''output/kernel/vmlinuz'', Regular ''kernel'')] w'"
proof -
  have p: "path_join ''output/kernel'' ''vmlinuz'' = ''output/kernel/vmlinuz''"
    "path_join ''output/kernel'' ''manifest.json'' = ''output/kernel/manifest.json''"
    by (simp_all add: sample_joins)
  have a: "ka_force sample_args = True" "ka_fragment sample_args = None" "ka_output sample_args = ''output/kernel''"
    by (simp_all add: sample_args_def KERNEL_OUT_DIR_def)
  have c: "cache_lookup H j True m v staged w = (Inr False, w)" for m v staged w
    by (simp add: cache_lookup_def io_steps)
  have "runs (has []) (then_io (create_dir_all H ''output/kernel'') (\<lambda>_.
     then_io (canonicalize H ''output/kernel'') (\<lambda>out_dir.
     then_io (compute_fingerprint H sample_version None DEFAULT_SIGNING_CERT SNAPSHOT_PATH) (\<lambda>staged.
     then_io (cache_lookup H j True (path_join out_dir ''manifest.json'') (path_join out_dir ''vmlinuz'') staged) (\<lambda>hit.
     if hit then io_when (ka_ensure_tools sample_args)
         (then_io (ensure_tools_tree H False (ka_packages sample_args) TOOLS_TREE_OUTPUT) (\<lambda>_. io_return ()))
     else build_kernel H j (ensure_tools_tree H) sample_args sample_version DEFAULT_SIGNING_CERT SNAPSHOT_PATH out_dir
       staged))))) ()
     (has [(''output/kernel/manifest.json'', Regular (print_json j sample_manifest)),
          (''output/kernel/vmlinuz'', Regular ''kernel'')])"
    apply (rule runs_then, rule step_create, simp add: sample_eqs, simp add: sample_eqs)
    apply (rule runs_then, rule has_canon [where n = Directory], simp)
    apply (rule runs_then, rule has_fingerprint)
    apply (rule runs_then [where v = False], rule runs_same, rule c)
    apply (simp only: if_False)
    apply (rule has_build)
    done
  moreover have "has [] sample_world" using good_start by (simp add: has_def)
  moreover have "then_io (admit_inputs H sample_args) f sample_world
      = f (sample_version, DEFAULT_SIGNING_CERT, SNAPSHOT_PATH) sample_world" for f :: "_ \<Rightarrow> unit kernel_io"
    by (simp add: then_io_def sample_admit)
  ultimately show ?thesis
    unfolding run_with_tools_def a runs_def by simp
qed

end
