(* ===== verification/KernelWitnesses.thy ===== *)
theory KernelWitnesses
  imports KernelSample
begin

text \<open>The witnesses of the properties of kernel builds.\<close>

section \<open>A manifest codec\<close>

text \<open>A text for manifests that can be read back: every character is marked, every field ends.\<close>

definition put_field :: "string \<Rightarrow> string" where
  "put_field s = concat (map (\<lambda>c. [CHR ''x'', c]) s) @ ''e''"

fun get_field :: "string \<Rightarrow> (string \<times> string) option" where
  "get_field [] = None"
| "get_field [c] = (if c = CHR ''e'' then Some ([], []) else None)"
| "get_field (c # d # s) =
     (if c = CHR ''e'' then Some ([], d # s)
      else map_option (\<lambda>(f, r). (d # f, r)) (get_field s))"

fun get_fields :: "nat \<Rightarrow> string \<Rightarrow> string list" where
  "get_fields 0 s = []"
| "get_fields (Suc n) s = (case get_field s of None \<Rightarrow> [] | Some (f, r) \<Rightarrow> f # get_fields n r)"

lemma get_put_field: "get_field (put_field s @ r) = Some (s, r)"
proof (induction s)
  case Nil
  then show ?case by (cases r) (simp_all add: put_field_def)
next
  case (Cons c s)
  then show ?case by (simp add: put_field_def)
qed

lemma get_put_fields: "get_fields (length fs) (concat (map put_field fs)) = fs"
  by (induction fs) (simp_all add: get_put_field)

definition manifest_fields :: "kernel_manifest \<Rightarrow> string list" where
  "manifest_fields m =
     (let fp = km_inputs m in
      [replicate (km_version m) CHR ''v'', km_linux_version m, fp_linux_version fp, fp_tarball fp,
       fp_required_config fp, fp_hardening_config fp, fp_confidential_config fp, fp_extra_config fp,
       fp_snapshot_config fp, fp_module_signing_cert fp, fp_randstruct_seed fp, fp_trusted_dsdt fp,
       fp_trusted_aml_patch fp, fp_snp_mr_patch fp, fp_tools_tree fp, km_vmlinuz_sha256 m, km_built_at m])"

definition manifest_of :: "string list \<Rightarrow> kernel_manifest option" where
  "manifest_of f =
     (if length f \<noteq> 17 then None
      else Some \<lparr> km_version = length (f ! 0), km_linux_version = f ! 1,
        km_inputs = \<lparr> fp_linux_version = f ! 2, fp_tarball = f ! 3, fp_required_config = f ! 4,
          fp_hardening_config = f ! 5, fp_confidential_config = f ! 6, fp_extra_config = f ! 7,
          fp_snapshot_config = f ! 8, fp_module_signing_cert = f ! 9, fp_randstruct_seed = f ! 10,
          fp_trusted_dsdt = f ! 11, fp_trusted_aml_patch = f ! 12, fp_snp_mr_patch = f ! 13, fp_tools_tree = f ! 14 \<rparr>,
        km_vmlinuz_sha256 = f ! 15, km_built_at = f ! 16 \<rparr>)"

definition sample_codec :: json_codec where
  "sample_codec =
     \<lparr> print_json = (\<lambda>m. concat (map put_field (manifest_fields m))),
       parse_json = (\<lambda>s. manifest_of (get_fields 17 s)) \<rparr>"

lemma sample_codec_reads: "parse_json sample_codec (print_json sample_codec m) = Some m"
proof -
  have "get_fields (length (manifest_fields m)) (concat (map put_field (manifest_fields m))) = manifest_fields m"
    by (rule get_put_fields)
  moreover have "length (manifest_fields m) = 17" by (simp add: manifest_fields_def Let_def)
  moreover have "manifest_of (manifest_fields m) = Some m"
    by (simp add: manifest_of_def manifest_fields_def Let_def)
  ultimately show ?thesis by (simp add: sample_codec_def)
qed

lemma sample_manifest_text: "valid_str (print_json sample_codec sample_manifest)"
proof -
  have f: "\<forall>f \<in> set (manifest_fields sample_manifest). \<forall>c \<in> set f. (of_char c :: nat) < 128"
    by (simp add: manifest_fields_def sample_manifest_def sample_fp_def sample_zeros_def)
  have "(of_char c :: nat) < 128"
    if "c \<in> set (concat (map put_field (manifest_fields sample_manifest)))" for c
  proof -
    have "set (put_field f) \<subseteq> insert CHR ''e'' (insert CHR ''x'' (set f))" for f
      by (auto simp: put_field_def)
    then have "c = CHR ''e'' \<or> c = CHR ''x'' \<or> (\<exists>f \<in> set (manifest_fields sample_manifest). c \<in> set f)"
      using that by fastforce
    then show ?thesis using f by auto
  qed
  then show ?thesis
    using utf8_decode_ascii by (simp add: valid_str_def sample_codec_def)
qed

section \<open>Witnesses\<close>

lemma ends_with_config: "suffix ''.config'' (path_join src ''.config'')"
  by (auto simp: path_join_def suffix_def)

lemma not_a_config_sample: "\<not> suffix ''.config'' p \<Longrightarrow> not_a_config H p"
  using ends_with_config unfolding not_a_config_def sample_host_simps by metis


lemma sample_artifact:
  "\<exists>a w'. ensure_kernel H sample_codec True None None [] sample_world = (Inr a, w')"
proof -
  obtain w' where r: "run_with_tools H sample_codec (ensure_tools_tree H) sample_args sample_world = (Inr (), w')"
    and m: "has [(''output/kernel/manifest.json'', Regular (print_json sample_codec sample_manifest)),
      (''output/kernel/vmlinuz'', Regular ''kernel'')] w'"
    using sample_run by blast
  note v = sample_manifest_text
  have j: "path_join KERNEL_OUT_DIR ''manifest.json'' = ''output/kernel/manifest.json''"
    by (simp add: sample_joins)
  have "bt_get w' ''output/kernel/manifest.json'' = Some (Regular (print_json sample_codec sample_manifest))"
    by (rule has_get [OF m]) simp
  then have "read_kernel_manifest H sample_codec ''output/kernel/manifest.json'' w' = (Inr sample_manifest, w')"
    using v by (simp add: read_kernel_manifest_def read_to_string_def then_io_def read_bytes_def node_at_def
        sample_host_simps io_return_def sample_codec_reads)
  then have "ensure_kernel H sample_codec True None None [] sample_world
      = (Inr \<lparr> vmlinuz_path = path_join KERNEL_OUT_DIR ''vmlinuz'', artifact_version = km_linux_version sample_manifest,
                 artifact_manifest = sample_manifest \<rparr>, w')"
    using r unfolding ensure_kernel_def kernel_run_def sample_args_def j by (simp add: then_io_def io_return_def)
  then show ?thesis by blast
qed

lemma artifact_matches_manifest_witness:
  "\<exists>a w' c. ensure_kernel H sample_codec True None None [] sample_world = (Inr a, w')
     \<and> content H w' (vmlinuz_path a) = Some c"
proof -
  obtain a w' where a: "ensure_kernel H sample_codec True None None [] sample_world = (Inr a, w')"
    using sample_artifact by blast
  have "\<forall>m. parse_json sample_codec (print_json sample_codec m) = Some m"
    "\<forall>p x. canon H (path_join (canon H p) x) = canon H (path_join p x)"
    "canon H ''output/kernel/manifest.json'' \<noteq> canon H ''output/kernel/vmlinuz''"
    by (simp_all add: sample_codec_reads sample_host_simps)
  from artifact_matches_manifest [OF a this] show ?thesis using a by blast
qed

lemma sample_fingerprint_start:
  "compute_fingerprint H sample_version None DEFAULT_SIGNING_CERT SNAPSHOT_PATH sample_world = (Inr sample_fp, sample_world)"
proof -
  have "has [] sample_world" using good_start by (simp add: has_def)
  then obtain w' where f: "compute_fingerprint H sample_version None DEFAULT_SIGNING_CERT SNAPSHOT_PATH sample_world
      = (Inr sample_fp, w')"
    using has_fingerprint [of "[]"] unfolding runs_def by blast
  moreover have "w' = sample_world" using reads_onlyD [OF reads_only_fingerprint f] .
  ultimately show ?thesis by simp
qed


lemma tools_digest_binds_witness:
  "\<exists>h w d xs. tools_tree_inputs_digest h w = (Inr d, w) \<and> tree_entries h TOOLS_TREE_CONF TOOLS_TREE_SANDBOX w xs"
proof -
  have "has [] sample_world" using good_start by (simp add: has_def)
  then obtain w' where f: "tools_tree_inputs_digest H sample_world = (Inr sample_zeros, w')"
    using has_digest [of "[]"] unfolding runs_def by blast
  have "w' = sample_world" using reads_onlyD [OF reads_only_digest f] .
  then have d: "tools_tree_inputs_digest H sample_world = (Inr sample_zeros, sample_world)" using f by simp
  then show ?thesis using tools_digest_binds [OF d d] by blast
qed

lemma fetch_returns_pinned_witness:
  "\<exists>h w w' p c. fetch h ''6'' sample_zeros ''output/kernel/cache'' w = (Inr p, w') \<and> node_at h w' p = Some (Regular c)"
proof -
  let ?w = "bt_insert ''output/kernel/cache/linux-6.tar.xz'' (Regular []) sample_world"
  have "good ?w"
    by (rule good_insert [OF good_start]) (auto simp: sample_eqs child_name_def strip_prefix_def)
  then have "has [(''output/kernel/cache/linux-6.tar.xz'', Regular [])] ?w" by (simp add: has_def)
  then obtain w' where f: "fetch H ''6'' sample_zeros ''output/kernel/cache'' ?w
      = (Inr ''output/kernel/cache/linux-6.tar.xz'', w')"
    using has_fetch [of "[(''output/kernel/cache/linux-6.tar.xz'', Regular [])]"] unfolding runs_def by auto
  from fetch_returns_pinned [OF f] show ?thesis using f by blast
qed

lemma configured_kernel_hardened_witness:
  "\<exists>h tree dir w w' config. run_configure_phase h tree dir REQUIRED_FRAGMENT HARDENING_FRAGMENT CVM_FRAGMENT None w
       = (Inr (), w') \<and> hardened (config_values config)"
proof -
  let ?w = "bt_insert sample_src Directory sample_world"
  have "good ?w"
    by (rule good_insert [OF good_start]) (auto simp: sample_eqs child_name_def strip_prefix_def)
  then have "has [(sample_src, Directory)] ?w" by (simp add: has_def)
  then obtain w' where f: "run_configure_phase H [] sample_src REQUIRED_FRAGMENT HARDENING_FRAGMENT CVM_FRAGMENT None ?w
      = (Inr (), w')"
    using has_configure unfolding runs_def by blast
  from configured_kernel_hardened [OF f] show ?thesis using f by blast
qed

end
