(* ===== verification/FileTree.thy ===== *)
theory FileTree
  imports World
begin

text \<open>
  Directory trees: the entries of a directory without following links, and the steps that walk, make and remove them.
  Linux refuses every path of \<open>PATH_MAX\<close> bytes or more, so each recursion over directories ends: a path grows with
  every level.
\<close>

section \<open>Steps of another component\<close>

text \<open>A component that calls another wraps its errors.\<close>

definition map_io :: "('e \<Rightarrow> 'f) \<Rightarrow> ('e, 'a) io \<Rightarrow> ('f, 'a) io" where
  "map_io f m = (\<lambda>w. case m w of (r, w') \<Rightarrow> (map_err (map_io_error f) r, w'))"

lemma map_io_Inr [io_simps]: "map_io f m w = (Inr x, w') \<longleftrightarrow> m w = (Inr x, w')"
  by (auto simp: map_io_def split: prod.splits)

lemma map_io_run [exec_simps]: "m w = (Inr x, w') \<Longrightarrow> map_io f m w = (Inr x, w')"
  by (simp add: map_io_Inr)

lemma reads_only_map_io [intro, looks]: "reads_only m \<Longrightarrow> reads_only (map_io f m)"
  by (auto simp: reads_only_def map_io_def split: prod.splits) (metis snd_conv)

text \<open>What a recursive call may assume: the value that an earlier step can return, an element of the list.\<close>

lemma then_io_cong [fundef_cong]:
  assumes "m = m'" and "\<And>x w w'. m' w = (Inr x, w') \<Longrightarrow> f x = f' x"
  shows "then_io m f = then_io m' f'"
  using assms by (auto simp: then_io_def fun_eq_iff split: prod.splits sum.splits)

lemma io_each_cong [fundef_cong]:
  "xs = ys \<Longrightarrow> (\<And>x. x \<in> set ys \<Longrightarrow> f x = g x) \<Longrightarrow> io_each f xs = io_each g ys"
  by (induction xs arbitrary: ys) (auto intro: then_io_cong)

section \<open>Components of a path\<close>

lemma split_char_at: "split_char c (p @ c # s) = split_char c p @ split_char c s"
proof (induction p)
  case (Cons d p)
  obtain a as where "split_char c p = a # as" using split_char_not_Nil [of c p] by (cases "split_char c p") auto
  then show ?case using Cons by simp
qed simp

text \<open>\<open>Path::components\<close>: empty parts and \<open>.\<close> are dropped, except a \<open>.\<close> that the path begins with.\<close>

datatype component = RootDir | CurDir | ParentDir | Normal string

definition component_of :: "string \<Rightarrow> component" where
  "component_of s = (if s = ''..'' then ParentDir else Normal s)"

definition components_of :: "string \<Rightarrow> component list" where
  "components_of p =
     (let parts = split_char CHR ''/'' p in
      (if prefix ''/'' p then [RootDir] else if hd parts = ''.'' then [CurDir] else [])
      @ map component_of (filter (\<lambda>s. s \<noteq> [] \<and> s \<noteq> ''.'') parts))"

text \<open>\<open>Path::extension\<close>\<close>

definition path_extension :: "string \<Rightarrow> string option" where
  "path_extension p =
     (case file_name p of
        None \<Rightarrow> None
      | Some name \<Rightarrow>
          (case split_once CHR ''.'' (rev name) of
             None \<Rightarrow> None
           | Some (ext, stem) \<Rightarrow> if stem = [] then None else Some (rev ext)))"

section \<open>Entries\<close>

definition PATH_MAX :: nat where "PATH_MAX = 4096"

text \<open>An entry of a directory, not followed when it is a link.\<close>

definition entry_path :: "host \<Rightarrow> string \<Rightarrow> string \<Rightarrow> string" where
  "entry_path h dir name = path_join (canon h dir) name"

definition entry_at :: "host \<Rightarrow> string \<Rightarrow> string \<Rightarrow> world \<Rightarrow> node option" where
  "entry_at h dir name w = bt_get w (entry_path h dir name)"

text \<open>\<open>symlink_metadata(..).is_ok()\<close>\<close>

definition entry_exists :: "host \<Rightarrow> string \<Rightarrow> string \<Rightarrow> world \<Rightarrow> bool" where
  "entry_exists h dir name w \<longleftrightarrow> \<not> denied h Look (path_join dir name) w \<and> entry_at h dir name w \<noteq> None"

text \<open>\<open>.\<close> and \<open>..\<close> are no entries.\<close>

definition entry_names :: "world \<Rightarrow> string \<Rightarrow> string list" where
  "entry_names w dir = filter (\<lambda>n. n \<noteq> ''.'' \<and> n \<noteq> ''..'') (child_names w dir)"

definition read_dir :: "host \<Rightarrow> string \<Rightarrow> ('e, string list) io" where
  "read_dir h p = (\<lambda>w.
     if PATH_MAX \<le> length p \<or> denied h Fetch p w \<or> node_at h w p \<noteq> Some Directory then (bail (Io p), w)
     else (Inr (entry_names w (canon h p)), w))"

definition read_entry :: "host \<Rightarrow> string \<Rightarrow> string \<Rightarrow> ('e, node) io" where
  "read_entry h dir name = (\<lambda>w.
     if denied h Look (path_join dir name) w then (bail (Io (path_join dir name)), w)
     else case entry_at h dir name w of None \<Rightarrow> (bail (Io (path_join dir name)), w) | Some n \<Rightarrow> (Inr n, w))"

text \<open>\<open>remove_file\<close>: a link is removed, not what it points to.\<close>

definition remove_entry :: "host \<Rightarrow> string \<Rightarrow> string \<Rightarrow> ('e, unit) io" where
  "remove_entry h dir name = (\<lambda>w.
     if denied h Delete (path_join dir name) w \<or> entry_at h dir name w \<in> {None, Some Directory}
     then (bail (Io (path_join dir name)), w)
     else (Inr (), filter (\<lambda>(q, _). q \<noteq> entry_path h dir name) w))"

text \<open>\<open>symlink\<close> does not replace an entry.\<close>

definition make_link :: "host \<Rightarrow> string \<Rightarrow> string \<Rightarrow> string \<Rightarrow> ('e, unit) io" where
  "make_link h target dir name = (\<lambda>w.
     if denied h Store (path_join dir name) w \<or> entry_at h dir name w \<noteq> None
     then (bail (Io (path_join dir name)), w)
     else (Inr (), bt_insert (entry_path h dir name) (Link target) w))"

lemma child_name_ok:
  assumes "n \<in> set (entry_names w dir)"
  shows "n \<noteq> []" "CHR ''/'' \<notin> set n" "n \<noteq> ''.''" "n \<noteq> ''..''"
proof -
  obtain q where "child_name dir q = Some n" using assms by (auto simp: entry_names_def child_names_def List.map_filter_def)
  then show "n \<noteq> []" "CHR ''/'' \<notin> set n" by (auto simp: child_name_def split: option.splits if_splits)
  show "n \<noteq> ''.''" "n \<noteq> ''..''" using assms by (auto simp: entry_names_def)
qed

lemma child_join:
  assumes "n \<in> set (entry_names w dir)"
  shows "path_join p n = (if p = [] \<or> suffix ''/'' p then p @ n else p @ ''/'' @ n)" "length p < length (path_join p n)"
proof -
  have "\<not> prefix ''/'' n" using child_name_ok [OF assms] by (cases n) auto
  then show "path_join p n = (if p = [] \<or> suffix ''/'' p then p @ n else p @ ''/'' @ n)" by (simp add: path_join_def)
  then show "length p < length (path_join p n)" using child_name_ok(1) [OF assms] by simp
qed

lemma read_dir_Inr [io_simps]:
  "read_dir h p w = (Inr ns, w') \<longleftrightarrow>
     w' = w \<and> length p < PATH_MAX \<and> \<not> denied h Fetch p w \<and> node_at h w p = Some Directory \<and> ns = entry_names w (canon h p)"
  by (auto simp: read_dir_def)

lemma read_entry_Inr [io_simps]:
  "read_entry h dir name w = (Inr n, w') \<longleftrightarrow>
     w' = w \<and> \<not> denied h Look (path_join dir name) w \<and> entry_at h dir name w = Some n"
  by (auto simp: read_entry_def split: option.splits)

lemma make_link_Inr [io_simps]:
  "make_link h t dir name w = (Inr u, w') \<longleftrightarrow>
     \<not> denied h Store (path_join dir name) w \<and> entry_at h dir name w = None
     \<and> w' = bt_insert (entry_path h dir name) (Link t) w"
  by (auto simp: make_link_def)

lemma reads_only_entries [intro, looks]: "reads_only (read_dir h p)" "reads_only (read_entry h d n)"
  by (auto simp: reads_only_def read_dir_def read_entry_def split: option.splits)

text \<open>The measure of a recursion over directories.\<close>

lemma child_deeper:
  "read_dir h p w = (Inr ns, w') \<Longrightarrow> n \<in> set ns \<Longrightarrow>
    PATH_MAX - length (path_join p n) < PATH_MAX - length p"
  using child_join(2) [of n w "canon h p" p] by (auto simp: read_dir_Inr)

end
