(* ===== verification/Registry.thy ===== *)
theory Registry
  imports FileTree Tools
begin

text \<open>
  \<open>src/commands/push.rs\<close> and \<open>src/commands/pull.rs\<close>: an image directory to an OCI registry and back, through the
  external \<open>oras\<close>.  The tar and gzip formats, the JSON of an image config and the names of temporary files are
  parameters; what goes into the layer, with which header, is modelled.  A command that runs in a directory has that
  directory in front of its arguments.
\<close>

datatype registry_error =
    NoOutputDir string
  | OutputExists string
  | DirNotFound string
  | NoDiskImage string
  | NoFiles string
  | NoTag string
  | BadGzip string

type_synonym 'a registry_io = "(registry_error, 'a) io"

definition run_in_dir :: "host \<Rightarrow> string \<Rightarrow> string list \<Rightarrow> ('e, unit) io" where
  "run_in_dir h dir argv = run_command_streaming h (dir # argv)"

section \<open>Pulling\<close>

text \<open>The part after the last slash; the tag follows its first colon.\<close>

definition last_segment :: "string \<Rightarrow> string" where
  "last_segment ref = last (split_char CHR ''/'' ref)"

definition default_output_dir :: "string \<Rightarrow> string option" where
  "default_output_dir ref =
     (let segment = last_segment ref in
      if CHR ''@'' \<in> set segment then None
      else case split_once CHR '':'' segment of
             None \<Rightarrow> None
           | Some (_, tag) \<Rightarrow> if tag = [] then None else Some (path_join ''output'' tag))"

record pull_args =
  pl_image :: string
  pl_dir :: "string option"

definition pull_run :: "host \<Rightarrow> pull_args \<Rightarrow> unit registry_io" where
  "pull_run h args =
     then_io (require_tool h ''oras'') (\<lambda>_.
     then_io (io_of (case pl_dir args of
         Some dir \<Rightarrow> Inr dir
       | None \<Rightarrow> ok_or (Err (NoOutputDir (pl_image args))) (default_output_dir (pl_image args)))) (\<lambda>output_dir.
     then_io (io_get (path_exists h output_dir)) (\<lambda>there.
     then_io (io_check (\<not> there) (OutputExists output_dir)) (\<lambda>_.
     then_io (create_dir_all h output_dir) (\<lambda>_.
     then_io (canonicalize h output_dir) (\<lambda>dir.
     run_in_dir h dir [''oras'', ''pull'', pl_image args]))))))"

section \<open>Pushing\<close>

record push_args =
  pu_dir :: string
  pu_registry :: string
  pu_tag :: "string option"
  pu_cdi :: bool

definition image_ref :: "string \<Rightarrow> string option \<Rightarrow> string \<Rightarrow> registry_error fault + string" where
  "image_ref registry tag dir =
     and_then (case tag of Some t \<Rightarrow> Inr t | None \<Rightarrow> ok_or (Err (NoTag dir)) (file_name dir)) (\<lambda>tag.
     Inr (registry @ '':'' @ tag))"

text \<open>The regular files of the directory, by name; a link is none.\<close>

definition is_regular :: "node \<Rightarrow> bool" where
  "is_regular n = (case n of Regular _ \<Rightarrow> True | _ \<Rightarrow> False)"

definition regular_names :: "host \<Rightarrow> string \<Rightarrow> string list registry_io" where
  "regular_names h dir =
     then_io (read_dir h dir) (\<lambda>names.
     then_io (io_map (read_entry h dir) names) (\<lambda>nodes.
     io_return (sort (map fst (filter (\<lambda>(_, n). is_regular n) (zip names nodes))))))"

definition push_default :: "host \<Rightarrow> string \<Rightarrow> string list \<Rightarrow> string \<Rightarrow> unit registry_io" where
  "push_default h dir files ref =
     run_in_dir h dir ([''oras'', ''push'', ref, ''--artifact-type'', ''application/vnd.confos.image.v1''] @ files)"

text \<open>A tar header as the program fills it: no time, owner or mode of the file gets in.\<close>

record tar_entry =
  te_name :: string
  te_size :: nat
  te_mode :: nat
  te_mtime :: nat
  te_uid :: nat
  te_gid :: nat
  te_content :: string

record archiver =
  pack :: "tar_entry list \<Rightarrow> string"
  gunzip :: "string \<Rightarrow> string option"
  config_json :: "string \<Rightarrow> string"
  temp_dir :: string
  tarball_name :: string
  config_name :: string

definition cdi_entry :: "string \<times> string \<Rightarrow> tar_entry" where
  "cdi_entry nc =
     \<lparr> te_name = if fst nc = ''disk.raw'' then ''disk/disk.raw'' else fst nc, te_size = length (snd nc),
       te_mode = 420, te_mtime = 0, te_uid = 0, te_gid = 0, te_content = snd nc \<rparr>"

definition build_cdi_tarball :: "host \<Rightarrow> archiver \<Rightarrow> string \<Rightarrow> string list \<Rightarrow> string \<Rightarrow> unit registry_io" where
  "build_cdi_tarball h a dir files out_path =
     then_io (write_bytes h out_path []) (\<lambda>_.
     then_io (io_map (\<lambda>f. read_bytes h (path_join dir f)) files) (\<lambda>contents.
     write_bytes h out_path (pack a (map cdi_entry (zip files contents)))))"

definition cdi_image_config :: "host \<Rightarrow> archiver \<Rightarrow> string \<Rightarrow> string registry_io" where
  "cdi_image_config h a layer =
     then_io (read_bytes h layer) (\<lambda>c.
     then_io (io_of (ok_or (Err (BadGzip layer)) (gunzip a c))) (\<lambda>tar.
     io_return (config_json a (''sha256:'' @ hex_sha256 h tar))))"

text \<open>A temporary file, removed on every way out.\<close>

definition with_temp :: "host \<Rightarrow> string \<Rightarrow> 'a registry_io \<Rightarrow> 'a registry_io" where
  "with_temp h p m =
     then_io (write_bytes h p []) (\<lambda>_ w. case m w of (r, w') \<Rightarrow> (r, snd ((remove_file h p :: unit registry_io) w')))"

definition push_argv :: "archiver \<Rightarrow> string \<Rightarrow> string list" where
  "push_argv a ref =
     [''oras'', ''push'', ref, ''--config'', config_name a @ '':application/vnd.oci.image.config.v1+json'',
      tarball_name a @ '':application/vnd.oci.image.layer.v1.tar+gzip'']"

definition push_cdi :: "host \<Rightarrow> archiver \<Rightarrow> string \<Rightarrow> string list \<Rightarrow> string \<Rightarrow> unit registry_io" where
  "push_cdi h a dir files ref =
     (let tarball = path_join (temp_dir a) (tarball_name a); config = path_join (temp_dir a) (config_name a) in
      then_io (create_dir_all h (temp_dir a)) (\<lambda>_.
      with_temp h tarball
        (then_io (build_cdi_tarball h a dir files tarball) (\<lambda>_.
         with_temp h config
           (then_io (cdi_image_config h a tarball) (\<lambda>text.
            then_io (write_bytes h config text) (\<lambda>_.
            run_in_dir h (temp_dir a) (push_argv a ref))))))))"

definition push_run :: "host \<Rightarrow> archiver \<Rightarrow> push_args \<Rightarrow> unit registry_io" where
  "push_run h a args =
     then_io (require_tool h ''oras'') (\<lambda>_.
     then_io (io_try (canonicalize h (pu_dir args) :: string registry_io)) (\<lambda>found.
     then_io (io_of (ok_or (Err (DirNotFound (pu_dir args))) found)) (\<lambda>dir.
     then_io (io_get (path_exists h (path_join dir ''disk.raw''))) (\<lambda>there.
     then_io (io_check there (NoDiskImage dir)) (\<lambda>_.
     then_io (regular_names h dir) (\<lambda>files.
     then_io (io_check (files \<noteq> []) (NoFiles dir)) (\<lambda>_.
     then_io (io_of (image_ref (pu_registry args) (pu_tag args) dir)) (\<lambda>ref.
     if pu_cdi args then push_cdi h a dir files ref else push_default h dir files ref))))))))"

section \<open>References\<close>

lemma last_split_char: "c \<notin> set s \<Longrightarrow> last (split_char c (p @ c # s)) = s"
  by (simp add: split_char_at split_char_none)

lemma last_segment_iff:
  "last_segment r = s \<longleftrightarrow> (\<exists>p. r = p @ s \<and> (p = [] \<or> suffix ''/'' p)) \<and> CHR ''/'' \<notin> set s"
proof
  assume l: "last_segment r = s"
  show "(\<exists>p. r = p @ s \<and> (p = [] \<or> suffix ''/'' p)) \<and> CHR ''/'' \<notin> set s"
  proof (cases "CHR ''/'' \<in> set r")
    case True
    then obtain p t where r: "r = p @ CHR ''/'' # t" "CHR ''/'' \<notin> set t" by (metis split_list_last)
    then have "s = t" using l last_split_char by (simp add: last_segment_def)
    then have "r = (p @ ''/'') @ s" "suffix ''/'' (p @ ''/'')" using r(1) by (simp_all add: suffix_def)
    then show ?thesis using r(2) \<open>s = t\<close> by blast
  next
    case False
    then show ?thesis using l by (simp add: last_segment_def split_char_none)
  qed
next
  assume "(\<exists>p. r = p @ s \<and> (p = [] \<or> suffix ''/'' p)) \<and> CHR ''/'' \<notin> set s"
  then obtain p where p: "r = p @ s" "p = [] \<or> suffix ''/'' p" and s: "CHR ''/'' \<notin> set s" by blast
  show "last_segment r = s"
  proof (cases "p = []")
    case True
    then show ?thesis using p(1) s by (simp add: last_segment_def split_char_none)
  next
    case False
    then obtain q where "p = q @ ''/''" using p(2) by (auto simp: suffix_def)
    then show ?thesis using p(1) s last_split_char by (simp add: last_segment_def)
  qed
qed

text \<open>
  The default directory of a pull is the tag of the reference: it exists exactly when the name after the last slash
  carries a non-empty tag and no digest, so the colon of a registry port is never taken for a tag.
\<close>

theorem default_output_dir_tag:
  "default_output_dir ref = Some dir \<longleftrightarrow>
     (\<exists>path name tag. ref = path @ name @ '':'' @ tag \<and> (path = [] \<or> suffix ''/'' path)
        \<and> CHR ''/'' \<notin> set (name @ tag) \<and> CHR '':'' \<notin> set name \<and> CHR ''@'' \<notin> set (name @ tag) \<and> tag \<noteq> []
        \<and> dir = ''output/'' @ tag)"
proof -
  have o: "path_join ''output'' tag = ''output/'' @ tag" if "CHR ''/'' \<notin> set tag" "tag \<noteq> []" for tag
  proof -
    have "\<not> suffix ''/'' ''output''" by code_simp
    then show ?thesis using that by (cases tag) (auto simp: path_join_def)
  qed
  have seg: "\<exists>p. ref = p @ last_segment ref \<and> (p = [] \<or> suffix ''/'' p)" "CHR ''/'' \<notin> set (last_segment ref)"
    using last_segment_iff [of ref "last_segment ref"] by blast+
  show ?thesis
  proof
    assume d: "default_output_dir ref = Some dir"
    then obtain name tag where n: "last_segment ref = name @ CHR '':'' # tag" "CHR '':'' \<notin> set name"
      "CHR ''@'' \<notin> set (last_segment ref)" "tag \<noteq> []" "dir = path_join ''output'' tag"
      by (auto simp: default_output_dir_def Let_def split_once_Some split: option.splits if_splits)
    obtain p where "ref = p @ name @ '':'' @ tag" "p = [] \<or> suffix ''/'' p" using seg(1) n(1) by auto
    moreover have "CHR ''/'' \<notin> set (name @ tag)" "CHR ''@'' \<notin> set (name @ tag)" using seg(2) n(1,3) by auto
    moreover have "dir = ''output/'' @ tag" using n(4,5) o calculation(3) by simp
    ultimately show "\<exists>path name tag. ref = path @ name @ '':'' @ tag \<and> (path = [] \<or> suffix ''/'' path)
        \<and> CHR ''/'' \<notin> set (name @ tag) \<and> CHR '':'' \<notin> set name \<and> CHR ''@'' \<notin> set (name @ tag) \<and> tag \<noteq> []
        \<and> dir = ''output/'' @ tag"
      using n(2,4) by blast
  next
    assume "\<exists>path name tag. ref = path @ name @ '':'' @ tag \<and> (path = [] \<or> suffix ''/'' path)
        \<and> CHR ''/'' \<notin> set (name @ tag) \<and> CHR '':'' \<notin> set name \<and> CHR ''@'' \<notin> set (name @ tag) \<and> tag \<noteq> []
        \<and> dir = ''output/'' @ tag"
    then obtain path name tag where *: "ref = path @ name @ '':'' @ tag" "path = [] \<or> suffix ''/'' path"
      "CHR ''/'' \<notin> set (name @ tag)" "CHR '':'' \<notin> set name" "CHR ''@'' \<notin> set (name @ tag)" "tag \<noteq> []"
      "dir = ''output/'' @ tag"
      by blast
    have "last_segment ref = name @ '':'' @ tag" using * last_segment_iff [of ref "name @ '':'' @ tag"] by auto
    moreover have "split_once CHR '':'' (name @ '':'' @ tag) = Some (name, tag)"
      using *(4) by (simp add: split_once_Some)
    ultimately show "default_output_dir ref = Some dir"
      using * o by (simp add: default_output_dir_def)
  qed
qed

section \<open>The layer that is pushed\<close>

lemma with_tempE:
  assumes "with_temp h p m w = (Inr x, w')"
  obtains w1 w2 where "(write_bytes h p [] :: unit registry_io) w = (Inr (), w1)" "m w1 = (Inr x, w2)"
proof -
  obtain w1 where "(write_bytes h p [] :: unit registry_io) w = (Inr (), w1)"
    "(case m w1 of (r, w') \<Rightarrow> (r, snd ((remove_file h p :: unit registry_io) w'))) = (Inr x, w')"
    using assms by (auto simp: with_temp_def then_io_Inr)
  then show ?thesis using that by (cases "m w1") auto
qed


definition sample_archiver :: archiver where
  "sample_archiver =
     \<lparr> pack = (\<lambda>es. concat (map te_content es)), gunzip = Some, config_json = (\<lambda>s. s), temp_dir = ''/t'',
       tarball_name = ''l'', config_name = ''c'' \<rparr>"

definition push_world :: world where
  "push_world = [(''/i'', Directory), (''/i/disk.raw'', Regular ''disk''), (''/t'', Directory)]"


end
