(* ===== verification/ImageManifest.thy ===== *)
theory ImageManifest
  imports IgvmBuild Tools
begin

text \<open>
  \<open>src/manifest.rs\<close>, \<open>src/commands/igvm.rs\<close> and \<open>src/igvm/invoke.rs\<close>: the manifest of an image, and \<open>confos igvm\<close>,
  which derives further SNP variants from a sealed output.  The JSON text of a manifest is a parameter: a printer, a
  parser, and a look at the \<open>version\<close> field alone.
\<close>

section \<open>The manifest\<close>

definition MANIFEST_VERSION :: nat where "MANIFEST_VERSION = 3"

record file_entry =
  fe_path :: string
  fe_sha256 :: string

record snp_measurement =
  me_digest :: string
  me_algorithm :: string
  me_pages :: nat
  me_vmsas :: nat

record snp_variant =
  sv_smp :: nat
  sv_igvm :: file_entry
  sv_measurement :: snp_measurement

record tdx_measurement =
  tm_mrtd :: string
  tm_rtmr1 :: string
  tm_rtmr2 :: string
  tm_firmware :: "file_entry option"

record image_build =
  ib_timestamp :: string
  ib_memory :: string
  ib_format :: string
  ib_platform :: string

record image_kernel =
  ik_linux_version :: string
  ik_vmlinuz :: string
  ik_required_config :: string
  ik_hardening_config :: string
  ik_extra_config :: string
  ik_snapshot_config :: string
  ik_module_signing_cert :: string
  ik_randstruct_seed :: string
  ik_trusted_dsdt :: string
  ik_trusted_aml_patch :: string
  ik_snp_mr_patch :: "string option"

record image_inputs =
  ii_kernel :: "image_kernel option"
  ii_initrd :: file_entry
  ii_firmware :: "file_entry option"
  ii_base_image :: file_entry

record image_outputs =
  io_disk :: file_entry
  io_uki :: file_entry

record build_manifest =
  bm_version :: nat
  bm_build :: image_build
  bm_inputs :: image_inputs
  bm_outputs :: image_outputs
  bm_variants :: "snp_variant list"
  bm_tdx :: "tdx_measurement option"

datatype manifest_error =
    BadJson string
  | OldManifest nat
  | DirMissing string
  | FirmwareMissing string
  | UkiMissing string
  | ManifestMissing string
  | UkiDiffers
  | FirmwareDiffers
  | FirmwareUnknown
  | OutputFirmwareDiffers
  | ZeroSmp
  | IgvmFailed string

type_synonym 'a image_io = "(manifest_error, 'a) io"

text \<open>\<open>peek_version\<close> is \<open>None\<close> where the text is not JSON, \<open>Some None\<close> without a numeric \<open>version\<close>.\<close>

record manifest_codec =
  print_manifest :: "build_manifest \<Rightarrow> string"
  peek_version :: "string \<Rightarrow> nat option option"
  parse_manifest :: "string \<Rightarrow> build_manifest option"

definition basename_of :: "string \<Rightarrow> 'e fault + string" where
  "basename_of p = (case file_name p of None \<Rightarrow> panic | Some n \<Rightarrow> Inr n)"

definition write_manifest :: "host \<Rightarrow> manifest_codec \<Rightarrow> build_manifest \<Rightarrow> string \<Rightarrow> ('e, unit) io" where
  "write_manifest h j m p = write_bytes h p (print_manifest j m)"

definition decode_manifest :: "manifest_codec \<Rightarrow> string \<Rightarrow> string \<Rightarrow> manifest_error fault + build_manifest" where
  "decode_manifest j p content =
     (case peek_version j content of
        None \<Rightarrow> bail (BadJson p)
      | Some v \<Rightarrow>
          (case v of
             Some n \<Rightarrow> if n \<noteq> MANIFEST_VERSION then bail (OldManifest n) else ok_or (Err (BadJson p)) (parse_manifest j content)
           | None \<Rightarrow> ok_or (Err (BadJson p)) (parse_manifest j content)))"

definition read_manifest :: "host \<Rightarrow> manifest_codec \<Rightarrow> string \<Rightarrow> build_manifest image_io" where
  "read_manifest h j p = then_io (read_to_string h p) (\<lambda>content. io_of (decode_manifest j p content))"

section \<open>Building a variant\<close>

record igvm_env =
  ie_sha :: "bytes \<Rightarrow> digest"
  ie_vmsa :: "sev_vmsa \<Rightarrow> bytes"
  ie_validate :: "igvm_file \<Rightarrow> string option"
  ie_serialize :: "igvm_file \<Rightarrow> string + bytes"

definition build_snp :: "igvm_env \<Rightarrow> bytes \<Rightarrow> bytes \<Rightarrow> nat \<Rightarrow> manifest_error fault + build_result" where
  "build_snp env firmware uki smp =
     map_err IgvmFailed
       (build_igvm (ie_sha env) (ie_vmsa env) (ie_validate env) (ie_serialize env)
          \<lparr> cfg_firmware = firmware, cfg_vars = None, cfg_kernel = Some uki, cfg_shim = None, cfg_pk = None,
            cfg_kek = None, cfg_db = None, cfg_dbx = None, cfg_platform = Snp, cfg_boot = Real16, cfg_smp = smp \<rparr>)"

text \<open>Bytes as the content of a file.\<close>

definition of_bytes :: "bytes \<Rightarrow> string" where
  "of_bytes bs = map (\<lambda>b. char_of (unat b)) bs"

definition igvm_name :: "nat \<Rightarrow> string" where
  "igvm_name smp = ''guest-smp'' @ nat_digits 10 smp @ ''.igvm''"

definition variant_of :: "nat \<Rightarrow> string \<Rightarrow> build_result \<Rightarrow> snp_variant" where
  "variant_of smp sha r =
     \<lparr> sv_smp = smp, sv_igvm = \<lparr> fe_path = igvm_name smp, fe_sha256 = sha \<rparr>,
       sv_measurement = \<lparr> me_digest = hex_encode (launch_digest (result_measurement r)), me_algorithm = ''sha384'',
         me_pages = result_pages (result_measurement r), me_vmsas = vmsa_count (result_measurement r) \<rparr> \<rparr>"

section \<open>confos igvm\<close>

record igvm_args =
  ia_dir :: string
  ia_smp :: "nat list"
  ia_firmware :: string

fun upsert_variant :: "snp_variant list \<Rightarrow> snp_variant \<Rightarrow> snp_variant list" where
  "upsert_variant [] v = [v]"
| "upsert_variant (x # xs) v = (if sv_smp x = sv_smp v then v # xs else x # upsert_variant xs v)"

text \<open>The firmware of the output directory, copied there when it is missing.\<close>

definition place_firmware :: "host \<Rightarrow> igvm_args \<Rightarrow> string \<Rightarrow> unit image_io" where
  "place_firmware h args hash =
     (let output = path_join (ia_dir args) ''OVMF.fd'' in
      then_io (io_get (path_exists h output)) (\<lambda>there.
      if there then then_io (sha256_file h output) (\<lambda>found. io_check (found = hash) OutputFirmwareDiffers)
      else copy_file h (ia_firmware args) output))"

definition check_firmware :: "build_manifest \<Rightarrow> string \<Rightarrow> unit image_io" where
  "check_firmware m hash =
     (case ii_firmware (bm_inputs m) of
        Some recorded \<Rightarrow> io_check (fe_sha256 recorded = hash) FirmwareDiffers
      | None \<Rightarrow> io_check (bm_variants m = []) FirmwareUnknown)"

definition prepare_inputs :: "host \<Rightarrow> igvm_args \<Rightarrow> build_manifest \<Rightarrow> (build_manifest \<times> bytes \<times> bytes) image_io" where
  "prepare_inputs h args m =
     (let uki = path_join (ia_dir args) ''uki.efi'' in
      then_io (sha256_file h uki) (\<lambda>uki_hash.
      then_io (io_check (uki_hash = fe_sha256 (io_uki (bm_outputs m))) UkiDiffers) (\<lambda>_.
      then_io (sha256_file h (ia_firmware args)) (\<lambda>firmware_hash.
      then_io (check_firmware m firmware_hash) (\<lambda>_.
      then_io (place_firmware h args firmware_hash) (\<lambda>_.
      then_io (read_bytes h (path_join (ia_dir args) ''OVMF.fd'')) (\<lambda>fw.
      then_io (read_bytes h uki) (\<lambda>uki.
      io_return (m \<lparr> bm_inputs := (bm_inputs m) \<lparr> ii_firmware := Some \<lparr> fe_path = ''OVMF.fd'', fe_sha256 = firmware_hash \<rparr> \<rparr> \<rparr>,
                 as_bytes fw, as_bytes uki)))))))))"

text \<open>A variant whose file is there with the recorded hash is kept; a file that cannot be hashed is built again.\<close>

definition variant_current :: "host \<Rightarrow> snp_variant list \<Rightarrow> nat \<Rightarrow> string \<Rightarrow> bool image_io" where
  "variant_current h vs smp igvm_path =
     (case find (\<lambda>v. sv_smp v = smp) vs of
        None \<Rightarrow> io_return False
      | Some v \<Rightarrow>
          then_io (io_get (path_exists h igvm_path)) (\<lambda>there.
          if \<not> there then io_return False
          else
            then_io (io_try (sha256_file h igvm_path :: string image_io)) (\<lambda>actual.
            io_return (actual = Some (fe_sha256 (sv_igvm v))))))"

definition make_variant ::
  "host \<Rightarrow> igvm_env \<Rightarrow> bytes \<Rightarrow> bytes \<Rightarrow> string \<Rightarrow> nat \<Rightarrow> snp_variant image_io" where
  "make_variant h env fw uki dir smp =
     then_io (io_of (build_snp env fw uki smp)) (\<lambda>r.
     then_io (write_bytes h (path_join dir (igvm_name smp)) (of_bytes (igvm_bytes r))) (\<lambda>_.
     then_io (sha256_file h (path_join dir (igvm_name smp))) (\<lambda>sha.
     io_return (variant_of smp sha r))))"

fun igvm_variants ::
  "host \<Rightarrow> igvm_env \<Rightarrow> bytes \<Rightarrow> bytes \<Rightarrow> string \<Rightarrow> nat list \<Rightarrow> snp_variant list \<Rightarrow> snp_variant list image_io" where
  "igvm_variants h env fw uki dir [] vs = io_return vs"
| "igvm_variants h env fw uki dir (smp # smps) vs =
     then_io (io_check (smp \<noteq> 0) ZeroSmp) (\<lambda>_.
     then_io (variant_current h vs smp (path_join dir (igvm_name smp))) (\<lambda>current.
     if current then igvm_variants h env fw uki dir smps vs
     else
       then_io (make_variant h env fw uki dir smp) (\<lambda>v.
       igvm_variants h env fw uki dir smps (upsert_variant vs v))))"

definition igvm_checks :: "host \<Rightarrow> igvm_args \<Rightarrow> unit image_io" where
  "igvm_checks h args =
     then_io (io_get (path_exists h (ia_dir args))) (\<lambda>a.
     then_io (io_check a (DirMissing (ia_dir args))) (\<lambda>_.
     then_io (io_get (path_exists h (ia_firmware args))) (\<lambda>b.
     then_io (io_check b (FirmwareMissing (ia_firmware args))) (\<lambda>_.
     then_io (io_get (path_exists h (path_join (ia_dir args) ''uki.efi''))) (\<lambda>c.
     then_io (io_check c (UkiMissing (ia_dir args))) (\<lambda>_.
     then_io (io_get (path_exists h (path_join (ia_dir args) ''manifest.json''))) (\<lambda>d.
     io_check d (ManifestMissing (ia_dir args)))))))))"

text \<open>The manifest that the run writes: the variants in order, and a platform that follows from the blocks it holds.\<close>

definition updated_manifest :: "build_manifest \<Rightarrow> snp_variant list \<Rightarrow> build_manifest" where
  "updated_manifest m vs =
     m \<lparr> bm_variants := sort_key sv_smp vs,
         bm_build := (bm_build m) \<lparr> ib_platform := if bm_tdx m \<noteq> None then ''both'' else ''snp'' \<rparr> \<rparr>"

definition igvm_run :: "host \<Rightarrow> igvm_env \<Rightarrow> manifest_codec \<Rightarrow> igvm_args \<Rightarrow> unit image_io" where
  "igvm_run h env j args =
     (let manifest_path = path_join (ia_dir args) ''manifest.json'' in
      then_io (igvm_checks h args) (\<lambda>_.
      then_io (read_manifest h j manifest_path) (\<lambda>m.
      then_io (prepare_inputs h args m) (\<lambda>(m, fw, uki).
      then_io (igvm_variants h env fw uki (ia_dir args) (ia_smp args) (bm_variants m)) (\<lambda>vs.
      write_manifest h j (updated_manifest m vs) manifest_path)))))"

section \<open>Variants\<close>

text \<open>At most one variant for each number of processors.\<close>

definition one_per_smp :: "snp_variant list \<Rightarrow> bool" where
  "one_per_smp vs \<longleftrightarrow> distinct (map sv_smp vs)"

lemma upsert_smps: "set (map sv_smp (upsert_variant vs v)) = insert (sv_smp v) (set (map sv_smp vs))"
  by (induction vs) auto

lemma upsert_one_per_smp: "one_per_smp vs \<Longrightarrow> one_per_smp (upsert_variant vs v)"
  unfolding one_per_smp_def
proof (induction vs)
  case (Cons x xs)
  then show ?case using upsert_smps [of xs v] by auto
qed simp

lemma set_upsert:
  "one_per_smp vs \<Longrightarrow> set (upsert_variant vs v) = insert v {x \<in> set vs. sv_smp x \<noteq> sv_smp v}"
  by (induction vs) (auto simp: one_per_smp_def, metis imageI)

lemma sorted_variants:
  "one_per_smp vs \<Longrightarrow> sorted_wrt (<) (map sv_smp (sort_key sv_smp vs))"
  by (simp add: one_per_smp_def strict_sorted_iff distinct_map)

section \<open>What a run leaves\<close>

lemma igvm_name_inject [simp]: "igvm_name a = igvm_name b \<longleftrightarrow> a = b"
proof
  assume "igvm_name a = igvm_name b"
  then have "nat_digits 10 a = nat_digits 10 b" by (simp add: igvm_name_def)
  then show "a = b" by (metis decimal_digits)
qed simp

lemma igvm_name_fixed [simp]:
  "igvm_name n \<noteq> ''manifest.json''" "igvm_name n \<noteq> ''uki.efi''" "igvm_name n \<noteq> ''OVMF.fd''"
  by (simp_all add: igvm_name_def)

text \<open>The files of the output directory are different files.\<close>

definition names_apart :: "host \<Rightarrow> string \<Rightarrow> bool" where
  "names_apart h dir \<longleftrightarrow>
     inj_on (\<lambda>n. canon h (path_join dir n)) ({''manifest.json'', ''uki.efi'', ''OVMF.fd''} \<union> range igvm_name)"

lemma apart:
  assumes "names_apart h dir"
  shows "canon h (path_join dir (igvm_name a)) = canon h (path_join dir (igvm_name b)) \<longleftrightarrow> a = b"
    "x \<in> {''manifest.json'', ''uki.efi'', ''OVMF.fd''} \<Longrightarrow>
      canon h (path_join dir (igvm_name a)) \<noteq> canon h (path_join dir x)"
    "x \<in> {''manifest.json'', ''uki.efi'', ''OVMF.fd''} \<Longrightarrow> y \<in> {''manifest.json'', ''uki.efi'', ''OVMF.fd''} \<Longrightarrow>
      canon h (path_join dir x) = canon h (path_join dir y) \<longleftrightarrow> x = y"
proof -
  show "canon h (path_join dir (igvm_name a)) = canon h (path_join dir (igvm_name b)) \<longleftrightarrow> a = b"
    using inj_on_eq_iff [OF assms [unfolded names_apart_def], of "igvm_name a" "igvm_name b"] by simp
  show "x \<in> {''manifest.json'', ''uki.efi'', ''OVMF.fd''} \<Longrightarrow>
      canon h (path_join dir (igvm_name a)) \<noteq> canon h (path_join dir x)"
    using inj_on_eq_iff [OF assms [unfolded names_apart_def], of "igvm_name a" x] igvm_name_fixed [of a] by auto
  show "x \<in> {''manifest.json'', ''uki.efi'', ''OVMF.fd''} \<Longrightarrow> y \<in> {''manifest.json'', ''uki.efi'', ''OVMF.fd''} \<Longrightarrow>
      canon h (path_join dir x) = canon h (path_join dir y) \<longleftrightarrow> x = y"
    using inj_on_eq_iff [OF assms [unfolded names_apart_def], of x y] by blast
qed

definition variant_on_disk :: "host \<Rightarrow> string \<Rightarrow> world \<Rightarrow> snp_variant \<Rightarrow> bool" where
  "variant_on_disk h dir w v \<longleftrightarrow>
     (\<exists>c. node_at h w (path_join dir (igvm_name (sv_smp v))) = Some (Regular c)
        \<and> fe_sha256 (sv_igvm v) = hex_sha256 h c)"

text \<open>The variant that the library builds from these inputs, whatever the hash of its file.\<close>

definition derived :: "igvm_env \<Rightarrow> bytes \<Rightarrow> bytes \<Rightarrow> snp_variant \<Rightarrow> bool" where
  "derived env fw uki v \<longleftrightarrow>
     (\<exists>r. build_snp env fw uki (sv_smp v) = Inr r \<and> v = variant_of (sv_smp v) (fe_sha256 (sv_igvm v)) r)"

definition kept_files :: "host \<Rightarrow> string \<Rightarrow> world \<Rightarrow> world \<Rightarrow> bool" where
  "kept_files h dir w w' \<longleftrightarrow>
     (\<forall>x \<in> {''manifest.json'', ''uki.efi'', ''OVMF.fd''}. node_at h w' (path_join dir x) = node_at h w (path_join dir x))"

lemma kept_files_insert:
  assumes "names_apart h dir"
  shows "kept_files h dir w (bt_insert (canon h (path_join dir (igvm_name s))) n w)"
  unfolding kept_files_def
proof
  fix x assume "x \<in> {''manifest.json'', ''uki.efi'', ''OVMF.fd''}"
  from apart(2) [OF assms this, of s]
  show "node_at h (bt_insert (canon h (path_join dir (igvm_name s))) n w) (path_join dir x) = node_at h w (path_join dir x)"
    unfolding node_at_def by auto
qed

lemma variant_current_reads: "reads_only (variant_current h vs smp p)"
  unfolding variant_current_def by (intro looks)

lemma variant_current_True:
  assumes "variant_current h vs smp (path_join dir (igvm_name smp)) w = (Inr True, w')"
  shows "\<exists>v \<in> set vs. sv_smp v = smp \<and> variant_on_disk h dir w v"
proof -
  obtain v where v: "find (\<lambda>v. sv_smp v = smp) vs = Some v"
    using assms by (cases "find (\<lambda>v. sv_smp v = smp) vs") (auto simp: variant_current_def io_simps)
  then have m: "v \<in> set vs" "sv_smp v = smp" by (auto simp: find_Some_iff)
  have "io_try (sha256_file h (path_join dir (igvm_name smp)) :: string image_io) w = (Inr (Some (fe_sha256 (sv_igvm v))), w')"
    using assms v by (auto simp: variant_current_def io_simps simp del: io_try_Inr split: if_splits)
  then show ?thesis using m unfolding variant_on_disk_def by (auto simp: io_try_Inr sha256_file_Inr)
qed

lemma make_variant_Inr:
  assumes "make_variant h env fw uki dir smp w = (Inr v, w')"
  shows "sv_smp v = smp" "derived env fw uki v" "variant_on_disk h dir w' v"
    "\<exists>c. w' = bt_insert (canon h (path_join dir (igvm_name smp))) (Regular c) w"
  using assms by (auto simp: make_variant_def io_simps variant_of_def derived_def variant_on_disk_def node_at_def)

lemma igvm_variants_Inr:
  assumes "igvm_variants h env fw uki dir smps vs w = (Inr vs', w')" and "one_per_smp vs" and names: "names_apart h dir"
  shows "one_per_smp vs' \<and> kept_files h dir w w' \<and> (\<forall>v \<in> set vs'. v \<in> set vs \<or> derived env fw uki v)
    \<and> (\<forall>v \<in> set vs. variant_on_disk h dir w v \<longrightarrow> (\<exists>v' \<in> set vs'. sv_smp v' = sv_smp v \<and> variant_on_disk h dir w' v'))
    \<and> (\<forall>s \<in> set smps. 0 < s \<and> (\<exists>v \<in> set vs'. sv_smp v = s \<and> variant_on_disk h dir w' v))"
  using assms(1,2)
proof (induction smps arbitrary: vs w)
  case Nil
  then show ?case by (auto simp: io_simps kept_files_def)
next
  case (Cons s smps)
  obtain current w1 where c: "0 < s" "variant_current h vs s (path_join dir (igvm_name s)) w = (Inr current, w1)"
    and r: "(if current then igvm_variants h env fw uki dir smps vs
      else then_io (make_variant h env fw uki dir s)
        (\<lambda>v. igvm_variants h env fw uki dir smps (upsert_variant vs v))) w1 = (Inr vs', w')"
    using Cons.prems(1) by (auto simp: then_io_Inr io_check_eq)
  have w1: "w1 = w" by (rule reads_onlyD [OF variant_current_reads c(2)])
  show ?case
  proof (cases current)
    case True
    have "variant_current h vs s (path_join dir (igvm_name s)) w = (Inr True, w1)" using c(2) True by simp
    then obtain v where v: "v \<in> set vs" "sv_smp v = s" "variant_on_disk h dir w v"
      using variant_current_True by blast
    have "igvm_variants h env fw uki dir smps vs w = (Inr vs', w')" using r True w1 by simp
    from Cons.IH [OF this Cons.prems(2)] show ?thesis using v c(1) by auto
  next
    case False
    then obtain v w2 where v: "make_variant h env fw uki dir s w = (Inr v, w2)"
      and t: "igvm_variants h env fw uki dir smps (upsert_variant vs v) w2 = (Inr vs', w')"
      using r w1 by (auto simp: then_io_Inr)
    note m = make_variant_Inr [OF v]
    then obtain c where w2: "w2 = bt_insert (canon h (path_join dir (igvm_name s))) (Regular c) w" by blast
    note IH = Cons.IH [OF t upsert_one_per_smp [OF Cons.prems(2)]]
    have u: "set (upsert_variant vs v) = insert v {x \<in> set vs. sv_smp x \<noteq> s}"
      using set_upsert [OF Cons.prems(2)] m(1) by simp
    have k: "kept_files h dir w w2" unfolding w2 by (rule kept_files_insert [OF names])
    have o: "variant_on_disk h dir w2 x" if "variant_on_disk h dir w x" "sv_smp x \<noteq> s" for x
      using that apart(1) [OF names] unfolding w2 variant_on_disk_def by (simp add: node_at_def)
    have d: "\<exists>v' \<in> set vs'. sv_smp v' = sv_smp x \<and> variant_on_disk h dir w' v'"
      if "x \<in> set (upsert_variant vs v)" "variant_on_disk h dir w2 x" for x
      using IH that by blast
    have s: "\<exists>v' \<in> set vs'. sv_smp v' = s \<and> variant_on_disk h dir w' v'" using d [of v] u m(1,3) by simp
    have "kept_files h dir w w'" using k IH unfolding kept_files_def by simp
    moreover have "\<forall>x \<in> set vs. variant_on_disk h dir w x \<longrightarrow>
        (\<exists>v' \<in> set vs'. sv_smp v' = sv_smp x \<and> variant_on_disk h dir w' v')"
    proof (intro ballI impI)
      fix x assume x: "x \<in> set vs" "variant_on_disk h dir w x"
      show "\<exists>v' \<in> set vs'. sv_smp v' = sv_smp x \<and> variant_on_disk h dir w' v'"
        using s d [OF _ o [OF x(2)]] x u by (cases "sv_smp x = s") simp_all
    qed
    moreover note s
    ultimately show ?thesis using IH u m(2) c(1) by auto
  qed
qed

text \<open>The inputs of a run: the sealed UKI, and firmware with the hash that the manifest then names.\<close>

lemma prepare_inputs_Inr:
  assumes "prepare_inputs h args m w = (Inr (m', fw, uki), w')" and "names_apart h (ia_dir args)"
  shows "\<exists>u f. node_at h w' (path_join (ia_dir args) ''uki.efi'') = Some (Regular u)
    \<and> node_at h w' (path_join (ia_dir args) ''OVMF.fd'') = Some (Regular f)
    \<and> hex_sha256 h u = fe_sha256 (io_uki (bm_outputs m)) \<and> fw = as_bytes f \<and> uki = as_bytes u
    \<and> m' = m \<lparr> bm_inputs := (bm_inputs m)
        \<lparr> ii_firmware := Some \<lparr> fe_path = ''OVMF.fd'', fe_sha256 = hex_sha256 h f \<rparr> \<rparr> \<rparr>
    \<and> node_at h w' (path_join (ia_dir args) ''manifest.json'') = node_at h w (path_join (ia_dir args) ''manifest.json'')"
proof -
  let ?o = "path_join (ia_dir args) ''OVMF.fd''" and ?u = "path_join (ia_dir args) ''uki.efi''"
  obtain uc fc w1 f u where *: "node_at h w ?u = Some (Regular uc)" "hex_sha256 h uc = fe_sha256 (io_uki (bm_outputs m))"
    "node_at h w (ia_firmware args) = Some (Regular fc)"
    "place_firmware h args (hex_sha256 h fc) w = (Inr (), w1)"
    "node_at h w1 ?o = Some (Regular f)" "node_at h w1 ?u = Some (Regular u)" "w' = w1"
    "m' = m \<lparr> bm_inputs := (bm_inputs m)
        \<lparr> ii_firmware := Some \<lparr> fe_path = ''OVMF.fd'', fe_sha256 = hex_sha256 h fc \<rparr> \<rparr> \<rparr>"
    "fw = as_bytes f" "uki = as_bytes u"
    using assms(1) by (auto simp: prepare_inputs_def check_firmware_def io_simps Let_def split: option.splits)
  have p: "(w1 = w \<and> (\<exists>c. node_at h w ?o = Some (Regular c) \<and> hex_sha256 h c = hex_sha256 h fc))
      \<or> w1 = bt_insert (canon h ?o) (Regular fc) w"
    using *(3,4) by (auto simp: place_firmware_def io_simps Let_def copy_file_def split: if_splits)
  have a: "canon h ?u \<noteq> canon h ?o" "canon h (path_join (ia_dir args) ''manifest.json'') \<noteq> canon h ?o"
    using apart(3) [OF assms(2)] by auto
  have "node_at h w1 ?u = node_at h w ?u \<and> hex_sha256 h f = hex_sha256 h fc
    \<and> node_at h w1 (path_join (ia_dir args) ''manifest.json'') = node_at h w (path_join (ia_dir args) ''manifest.json'')"
    using p a *(5) by (auto simp: node_at_def)
  then show ?thesis using * by auto
qed

section \<open>A sealed image\<close>

text \<open>
  What a reader of the manifest relies on: the variants are in order, the recorded hashes are those of the UKI and the
  firmware beside it, every variant asked for is there with the recorded hash, and every new one is the image that the
  library builds from exactly these inputs.
\<close>

definition sealed :: "host \<Rightarrow> igvm_env \<Rightarrow> string \<Rightarrow> nat list \<Rightarrow> build_manifest \<Rightarrow> build_manifest \<Rightarrow> world \<Rightarrow> bool" where
  "sealed h env dir smps m m' w \<longleftrightarrow>
     (\<exists>u f. node_at h w (path_join dir ''uki.efi'') = Some (Regular u) \<and> fe_sha256 (io_uki (bm_outputs m')) = hex_sha256 h u
        \<and> node_at h w (path_join dir ''OVMF.fd'') = Some (Regular f)
        \<and> ii_firmware (bm_inputs m') = Some \<lparr> fe_path = ''OVMF.fd'', fe_sha256 = hex_sha256 h f \<rparr>
        \<and> list_all (\<lambda>v. v \<in> set (bm_variants m) \<or> derived env (as_bytes f) (as_bytes u) v) (bm_variants m'))
     \<and> sorted_wrt (<) (map sv_smp (bm_variants m'))
     \<and> list_all (\<lambda>s. 0 < s \<and> list_ex (\<lambda>v. sv_smp v = s \<and> variant_on_disk h dir w v) (bm_variants m')) smps"

lemma variant_on_disk_write:
  assumes "names_apart h dir"
  shows "variant_on_disk h dir (bt_insert (canon h (path_join dir ''manifest.json'')) n w) v \<longleftrightarrow> variant_on_disk h dir w v"
  using apart(2) [OF assms, of "''manifest.json''" "sv_smp v"] by (simp add: variant_on_disk_def node_at_def)

text \<open>
  C6. A run of \<open>confos igvm\<close> that succeeds on a manifest with one variant for each number of processors leaves a sealed
  image: the manifest it writes names the UKI and the firmware that lie beside it, its variants are strictly ordered,
  each number of processors asked for has a variant whose file has the recorded hash, and each variant was already there
  or is what the library derives from that firmware and that UKI.
\<close>

theorem igvm_run_seals:
  assumes "igvm_run h env j args w = (Inr (), w')" and "read_manifest h j (path_join (ia_dir args) ''manifest.json'') w = (Inr m, w)"
    and "one_per_smp (bm_variants m)" and "names_apart h (ia_dir args)"
  shows "\<exists>m'. node_at h w' (path_join (ia_dir args) ''manifest.json'') = Some (Regular (print_manifest j m'))
    \<and> sealed h env (ia_dir args) (ia_smp args) m m' w'"
proof -
  let ?d = "ia_dir args" and ?p = "path_join (ia_dir args) ''manifest.json''"
  have r: "reads_only (igvm_checks h args)" unfolding igvm_checks_def by (intro looks)
  obtain m1 fw uki w1 vs w2 where *:
    "prepare_inputs h args m w = (Inr (m1, fw, uki), w1)"
    "igvm_variants h env fw uki ?d (ia_smp args) (bm_variants m1) w1 = (Inr vs, w2)"
    and p: "(write_manifest h j (updated_manifest m1 vs) ?p :: unit image_io) w2 = (Inr (), w')"
    using assms(1,2) by (auto simp: igvm_run_def Let_def then_io_Inr dest!: reads_onlyD [OF r])
  obtain u f where i: "node_at h w1 (path_join ?d ''uki.efi'') = Some (Regular u)"
    "node_at h w1 (path_join ?d ''OVMF.fd'') = Some (Regular f)" "hex_sha256 h u = fe_sha256 (io_uki (bm_outputs m))"
    "fw = as_bytes f" "uki = as_bytes u"
    "m1 = m \<lparr> bm_inputs := (bm_inputs m) \<lparr> ii_firmware := Some \<lparr> fe_path = ''OVMF.fd'', fe_sha256 = hex_sha256 h f \<rparr> \<rparr> \<rparr>"
    using prepare_inputs_Inr [OF *(1) assms(4)] by auto
  have o: "one_per_smp (bm_variants m1)" using assms(3) i(6) by simp
  note v = igvm_variants_Inr [OF *(2) o assms(4)]
  let ?m = "updated_manifest m1 vs"
  have w': "w' = bt_insert (canon h ?p) (Regular (print_manifest j ?m)) w2"
    using p by (auto simp: write_manifest_def io_simps)
  have a: "canon h (path_join ?d ''uki.efi'') \<noteq> canon h ?p" "canon h (path_join ?d ''OVMF.fd'') \<noteq> canon h ?p"
    using apart(3) [OF assms(4)] by auto
  have f: "node_at h w' (path_join ?d ''uki.efi'') = Some (Regular u)" "node_at h w' (path_join ?d ''OVMF.fd'') = Some (Regular f)"
    using v i(1,2) a unfolding w' kept_files_def by (auto simp: node_at_def)
  have "sealed h env ?d (ia_smp args) m ?m w'"
    unfolding sealed_def using f i v sorted_variants [of vs]
    by (auto simp: updated_manifest_def list_all_iff list_ex_iff w' variant_on_disk_write [OF assms(4)])
  moreover have "node_at h w' ?p = Some (Regular (print_manifest j ?m))" unfolding w' by (simp add: node_at_def)
  ultimately show ?thesis by blast
qed

text \<open>A small sealed image, on the machine that hashes every file to zero, and a codec that knows its manifest.\<close>

abbreviation quiet_host :: host where
  "quiet_host \<equiv> sample_host (\<lambda>_ w. (sample_fetch, w))"

definition sample_entry :: "string \<Rightarrow> file_entry" where
  "sample_entry name = \<lparr> fe_path = name, fe_sha256 = hex_sha256 quiet_host [] \<rparr>"

definition sample_manifest :: build_manifest where
  "sample_manifest =
     \<lparr> bm_version = 3,
       bm_build = \<lparr> ib_timestamp = [], ib_memory = ''4G'', ib_format = ''raw'', ib_platform = ''multi'' \<rparr>,
       bm_inputs = \<lparr> ii_kernel = None, ii_initrd = sample_entry ''initrd'', ii_firmware = Some (sample_entry ''OVMF.fd''),
         ii_base_image = sample_entry ''image'' \<rparr>,
       bm_outputs = \<lparr> io_disk = sample_entry ''disk.raw'', io_uki = sample_entry ''uki.efi'' \<rparr>,
       bm_variants = [\<lparr> sv_smp = 2, sv_igvm = sample_entry (igvm_name 2),
         sv_measurement = \<lparr> me_digest = replicate 96 CHR ''0'', me_algorithm = ''sha384'', me_pages = 1, me_vmsas = 2 \<rparr> \<rparr>],
       bm_tdx = None \<rparr>"

definition sample_manifest_codec :: manifest_codec where
  "sample_manifest_codec =
     \<lparr> print_manifest = (\<lambda>_. ''{}''), peek_version = (\<lambda>_. Some (Some 3)), parse_manifest = (\<lambda>_. Some sample_manifest) \<rparr>"

definition sample_env :: igvm_env where
  "sample_env = \<lparr> ie_sha = (\<lambda>_. 0), ie_vmsa = (\<lambda>_. []), ie_validate = (\<lambda>_. None), ie_serialize = (\<lambda>_. Inr []) \<rparr>"

definition sample_image :: world where
  "sample_image =
     [(''/o'', Directory), (''/o/OVMF.fd'', Regular ''firmware''), (''/o/guest-smp2.igvm'', Regular ''igvm''),
      (''/o/manifest.json'', Regular ''{}''), (''/o/uki.efi'', Regular ''uki'')]"

lemma sample_sha: "hex_sha256 quiet_host c = hex_sha256 quiet_host []"
  by (simp add: hex_sha256_def sample_host_def)

lemma sample_joined: "path_join ''/o'' n = (if prefix ''/'' n then n else ''/o/'' @ n)"
proof -
  have "\<not> suffix ''/'' ''/o''" by code_simp
  then show ?thesis by (simp add: path_join_def)
qed

lemma sample_igvm_name: "igvm_name 2 = ''guest-smp2.igvm''"
  by code_simp

lemma sample_names_apart: "names_apart quiet_host ''/o''"
proof -
  have "\<not> prefix ''/'' n" if "n \<in> {''manifest.json'', ''uki.efi'', ''OVMF.fd''} \<union> range igvm_name" for n
    using that by (auto simp: igvm_name_def)
  then show ?thesis unfolding names_apart_def by (intro inj_onI) (simp add: sample_host_def sample_joined)
qed

lemma sample_image_get:
  "node_at quiet_host sample_image p = bt_get sample_image p" "path_exists quiet_host p sample_image \<longleftrightarrow> bt_get sample_image p \<noteq> None"
  by (simp_all add: path_exists_def node_at_def sample_host_def)

lemma sample_image_nodes:
  "bt_get sample_image ''/o'' = Some Directory" "bt_get sample_image ''/o/OVMF.fd'' = Some (Regular ''firmware'')"
  "bt_get sample_image ''/o/guest-smp2.igvm'' = Some (Regular ''igvm'')"
  "bt_get sample_image ''/o/manifest.json'' = Some (Regular ''{}'')" "bt_get sample_image ''/o/uki.efi'' = Some (Regular ''uki'')"
  by (simp_all add: sample_image_def bt_get_def)

lemma sample_read:
  "bt_get sample_image p = Some (Regular c) \<Longrightarrow> read_bytes quiet_host p sample_image = (Inr c, sample_image)"
  "bt_get sample_image p = Some (Regular c) \<Longrightarrow>
    sha256_file quiet_host p sample_image = (Inr (hex_sha256 quiet_host []), sample_image)"
  by (simp_all add: sha256_file_def read_bytes_def node_at_def sample_host_def then_io_def io_return_def hex_sha256_def)

lemma sample_read_manifest:
  "read_manifest quiet_host sample_manifest_codec ''/o/manifest.json'' sample_image = (Inr sample_manifest, sample_image)"
proof -
  have "valid_str ''{}''" by code_simp
  then show ?thesis
    by (simp add: read_manifest_def read_to_string_def then_io_def sample_read sample_image_nodes io_steps decode_manifest_def
        sample_manifest_codec_def MANIFEST_VERSION_def)
qed

lemma igvm_run_seals_witness:
  "\<exists>m'. sealed quiet_host sample_env ''/o'' [2] sample_manifest m'
     (bt_insert ''/o/manifest.json'' (Regular ''{}'') sample_image)"
proof -
  let ?a = "\<lparr> ia_dir = ''/o'', ia_smp = [2], ia_firmware = ''/o/OVMF.fd'' \<rparr>"
  have checks: "igvm_checks quiet_host ?a sample_image = (Inr (), sample_image)"
    by (simp add: igvm_checks_def io_steps sample_image_get sample_joined sample_image_nodes then_io_run)
  have prep: "prepare_inputs quiet_host ?a sample_manifest sample_image
      = (Inr (sample_manifest, as_bytes ''firmware'', as_bytes ''uki''), sample_image)"
    by (simp add: prepare_inputs_def check_firmware_def place_firmware_def Let_def then_io_run io_steps sample_joined
        sample_image_nodes sample_read sample_image_get sample_manifest_def sample_entry_def)
  have vars: "igvm_variants quiet_host sample_env fw uki ''/o'' [2] (bm_variants sample_manifest) sample_image
      = (Inr (bm_variants sample_manifest), sample_image)" for fw uki
    by (simp add: then_io_run io_steps variant_current_def sample_joined sample_igvm_name sample_image_get sample_image_nodes
        sample_read io_try_def sample_manifest_def sample_entry_def)
  have run: "igvm_run quiet_host sample_env sample_manifest_codec ?a sample_image
      = (Inr (), bt_insert ''/o/manifest.json'' (Regular ''{}'') sample_image)"
    by (simp add: igvm_run_def Let_def then_io_run checks prep vars sample_joined sample_read_manifest write_manifest_def
        write_bytes_def sample_image_get sample_image_nodes del: igvm_variants.simps)
      (simp add: sample_host_def sample_manifest_codec_def)
  have "\<exists>m'. node_at quiet_host (bt_insert ''/o/manifest.json'' (Regular ''{}'') sample_image) (path_join ''/o'' ''manifest.json'')
        = Some (Regular (print_manifest sample_manifest_codec m'))
      \<and> sealed quiet_host sample_env ''/o'' [2] sample_manifest m' (bt_insert ''/o/manifest.json'' (Regular ''{}'') sample_image)"
    using igvm_run_seals [OF run, of sample_manifest] sample_read_manifest sample_names_apart
    by (simp add: sample_joined one_per_smp_def sample_manifest_def)
  then show ?thesis by blast
qed

end
