(* ===== verification/Qemu.thy ===== *)
theory Qemu
  imports Tools
begin

text \<open>
  \<open>src/qemu.rs\<close>: the QEMU command line of a guest.  QEMU splits the value of an option at commas, so every value
  that the program inserts must be free of them.  The base64 encoder is a parameter.  \<open>launch\<close> ends in \<open>exec\<close>: its
  result is the argument vector that the process is replaced with.
\<close>

datatype qemu_error =
    BadMemory string
  | EmptySize
  | BadSizeSuffix string
  | BadSizeNumber string
  | SizeTooLarge string
  | CommaInPath string string
  | CdromMissing string
  | NoIgvm
  | NoUki
  | NoFirmware
  | HostDataRequiresSnp
  | BadDiskFormat string

section \<open>Sizes\<close>

definition valid_memory :: "string \<Rightarrow> bool" where
  "valid_memory s \<longleftrightarrow>
     s \<noteq> [] \<and> (if last s \<in> set ''KMGTkmgt'' then list_all is_ascii_digit (butlast s) else list_all is_ascii_digit s)"

definition validate_memory :: "string \<Rightarrow> qemu_error fault + unit" where
  "validate_memory s = ensure (valid_memory s) (Err (BadMemory s))"

definition size_unit :: "char \<Rightarrow> nat option" where
  "size_unit c =
     (if c \<in> {CHR ''K'', CHR ''k''} then Some 1024
      else if c \<in> {CHR ''M'', CHR ''m''} then Some (1024 * 1024)
      else if c \<in> {CHR ''G'', CHR ''g''} then Some (1024 * 1024 * 1024)
      else if c \<in> {CHR ''T'', CHR ''t''} then Some (1024 * 1024 * 1024 * 1024)
      else None)"

definition split_size :: "string \<Rightarrow> qemu_error fault + string \<times> nat" where
  "split_size s =
     (case size_unit (last s) of
        Some mult \<Rightarrow> Inr (butlast s, mult)
      | None \<Rightarrow> if is_ascii_digit (last s) then Inr (s, 1) else bail (BadSizeSuffix s))"

definition parse_size_to_bytes :: "string \<Rightarrow> qemu_error fault + nat" where
  "parse_size_to_bytes text =
     (let s = trim text in
      if s = [] then bail EmptySize
      else
        and_then (split_size s) (\<lambda>(num, mult).
        and_then (ok_or (Err (BadSizeNumber s)) (parse_u64 num)) (\<lambda>value.
        if value * mult < u64_limit then Inr (value * mult) else bail (SizeTooLarge s))))"

section \<open>Tiers\<close>

datatype qemu_tier = SevSnp | Kvm | Emulated

definition select_tier :: "string \<Rightarrow> bool \<Rightarrow> qemu_tier" where
  "select_tier object_help kvm_available =
     (let has_sev_snp = contains_str ''sev-snp-guest'' object_help; has_igvm = contains_str ''igvm-cfg'' object_help in
      if has_sev_snp \<and> has_igvm \<and> kvm_available then SevSnp
      else if kvm_available then Kvm
      else Emulated)"

text \<open>A path that exists is used as it is; a name is looked up.\<close>

definition resolve_qemu :: "host \<Rightarrow> string \<Rightarrow> ('e, string) io" where
  "resolve_qemu h qemu_bin =
     then_io (io_get (path_exists h qemu_bin)) (\<lambda>there.
     if there then io_return qemu_bin else require_tool h qemu_bin)"

definition detect_tier_for :: "host \<Rightarrow> string \<Rightarrow> ('e, qemu_tier) io" where
  "detect_tier_for h qemu_bin =
     then_io (resolve_qemu h qemu_bin) (\<lambda>resolved.
     then_io (run_command h [resolved, ''-object'', ''help'']) (\<lambda>r.
     then_io (io_get (path_exists h ''/dev/kvm'')) (\<lambda>kvm_available.
     io_return (select_tier (cmd_stdout r) kvm_available))))"

section \<open>The printed command line\<close>

definition shell_plain :: "char \<Rightarrow> bool" where
  "shell_plain c \<longleftrightarrow> is_ascii_alphanumeric c \<or> c \<in> set ''@%_-+=:,./''"

definition SQ :: char where "SQ = CHR 0x27"
definition BS :: char where "BS = CHR 0x5C"

definition shell_quote :: "string \<Rightarrow> string" where
  "shell_quote a =
     (if a = [] \<or> \<not> list_all shell_plain a
      then [SQ] @ replace_str [SQ] [SQ, BS, SQ, SQ] a @ [SQ]
      else a)"

definition shell_join :: "string list \<Rightarrow> string" where
  "shell_join argv = join_str '' '' (map shell_quote argv)"

section \<open>Arguments\<close>

record qemu_args =
  qa_tier :: qemu_tier
  qa_bin :: string
  qa_igvm :: "string option"
  qa_uki :: "string option"
  qa_firmware :: "string option"
  qa_disk :: string
  qa_disk_format :: string
  qa_smp :: nat
  qa_memory :: string
  qa_host_data :: "bytes option"
  qa_cdroms :: "string list"
  qa_port_forwards :: "(nat \<times> nat) list"
  qa_scratch :: "string option"

definition reject_comma_in_path :: "string \<Rightarrow> string \<Rightarrow> qemu_error fault + unit" where
  "reject_comma_in_path label p = ensure (CHR '','' \<notin> set p) (Err (CommaInPath label p))"

definition validate_cdrom :: "host \<Rightarrow> string \<Rightarrow> (qemu_error, unit) io" where
  "validate_cdrom h p =
     then_io (io_of (reject_comma_in_path ''cdrom'' p)) (\<lambda>_.
     then_io (io_get (path_is_file h p)) (\<lambda>there.
     io_check there (CdromMissing p)))"

definition validate_cdroms :: "host \<Rightarrow> string list \<Rightarrow> (qemu_error, unit) io" where
  "validate_cdroms h cdroms = io_each (validate_cdrom h) cdroms"

definition reject_comma_opt :: "string \<Rightarrow> string option \<Rightarrow> qemu_error fault + unit" where
  "reject_comma_opt label p = (case p of None \<Rightarrow> Inr () | Some p \<Rightarrow> reject_comma_in_path label p)"

definition console_args :: "string list" where
  "console_args =
     [''-chardev'', ''stdio,id=hvc0,signal=off,mux=on'', ''-device'', ''virtio-serial-pci,id=virtser0'',
      ''-device'', ''virtconsole,chardev=hvc0,id=console0'', ''-mon'', ''chardev=hvc0,mode=readline'']"

definition sev_object :: "(bytes \<Rightarrow> string) \<Rightarrow> bytes option \<Rightarrow> string" where
  "sev_object base64 host_data =
     ''sev-snp-guest,id=sev0,cbitpos=51,reduced-phys-bits=1''
     @ (case host_data of None \<Rightarrow> [] | Some data \<Rightarrow> '',host-data='' @ base64 data)"

definition tier_args :: "(bytes \<Rightarrow> string) \<Rightarrow> qemu_args \<Rightarrow> qemu_error fault + string list" where
  "tier_args base64 q =
     (case qa_tier q of
        SevSnp \<Rightarrow>
          and_then (ok_or (Err NoIgvm) (qa_igvm q)) (\<lambda>igvm.
          Inr ([''-enable-kvm'', ''-cpu'', ''EPYC-Genoa'', ''-machine'',
             ''q35,confidential-guest-support=sev0,igvm-cfg=igvm0,memory-backend=ram1,kernel-irqchip=split'',
             ''-object'', ''igvm-cfg,id=igvm0,file='' @ igvm,
             ''-object'', ''memory-backend-memfd,id=ram1,size='' @ qa_memory q @ '',share=true'',
             ''-object'', sev_object base64 (qa_host_data q), ''-no-reboot''] @ console_args))
      | t \<Rightarrow>
          and_then (ensure (qa_host_data q = None) (Err HostDataRequiresSnp)) (\<lambda>_.
          and_then (ok_or (Err NoUki) (qa_uki q)) (\<lambda>uki.
          and_then (ok_or (Err NoFirmware) (qa_firmware q)) (\<lambda>firmware.
          Inr ([''-machine'', ''q35''] @ (if t = Kvm then [''-enable-kvm''] else [])
             @ [''-drive'', ''if=pflash,format=raw,readonly=on,file='' @ firmware, ''-kernel'', uki]
             @ console_args)))))"

definition disk_args :: "qemu_args \<Rightarrow> string list" where
  "disk_args q =
     [''-drive'', ''file='' @ qa_disk q @ '',format='' @ qa_disk_format q @ '',if=none,id=root0,readonly=on'',
      ''-device'', ''virtio-blk-pci,drive=root0'']"

definition scratch_args :: "string option \<Rightarrow> string list" where
  "scratch_args scratch =
     (case scratch of
        None \<Rightarrow> []
      | Some p \<Rightarrow> [''-drive'', ''file='' @ p @ '',format=raw,if=none,id=scratch0'',
                   ''-device'', ''virtio-blk-pci,drive=scratch0,serial=confai-scratch''])"

definition cdrom_arg :: "nat \<times> string \<Rightarrow> string list" where
  "cdrom_arg ip =
     [''-drive'', ''file='' @ snd ip @ '',format=raw,if=none,id=cd'' @ nat_digits 10 (fst ip) @ '',readonly=on'',
      ''-device'', ''scsi-cd,drive=cd'' @ nat_digits 10 (fst ip) @ '',bus=scsi0.0'']"

definition cdrom_args :: "string list \<Rightarrow> string list" where
  "cdrom_args cdroms =
     (if cdroms = [] then [] else [''-device'', ''virtio-scsi-pci,id=scsi0''])
     @ concat (map cdrom_arg (enumerate 0 cdroms))"

definition hostfwd :: "nat \<times> nat \<Rightarrow> string" where
  "hostfwd hg = ''hostfwd=tcp::'' @ nat_digits 10 (fst hg) @ ''-:'' @ nat_digits 10 (snd hg)"

definition network_args :: "(nat \<times> nat) list \<Rightarrow> string list" where
  "network_args forwards =
     (if forwards = [] then []
      else [''-netdev'', ''user,id=net0,'' @ join_str '','' (map hostfwd forwards),
            ''-device'', ''virtio-net-pci,netdev=net0''])"

definition to_args :: "host \<Rightarrow> (bytes \<Rightarrow> string) \<Rightarrow> qemu_args \<Rightarrow> (qemu_error, string list) io" where
  "to_args h base64 q =
     then_io (validate_cdroms h (qa_cdroms q)) (\<lambda>_.
     then_io (io_of (reject_comma_in_path ''disk'' (qa_disk q))) (\<lambda>_.
     then_io (io_of (reject_comma_opt ''igvm'' (qa_igvm q))) (\<lambda>_.
     then_io (io_of (reject_comma_opt ''uki'' (qa_uki q))) (\<lambda>_.
     then_io (io_of (reject_comma_opt ''firmware'' (qa_firmware q))) (\<lambda>_.
     then_io (io_of (tier_args base64 q)) (\<lambda>args.
     then_io (io_check (qa_disk_format q \<in> {''raw'', ''qcow2''}) (BadDiskFormat (qa_disk_format q))) (\<lambda>_.
     then_io (io_of (reject_comma_opt ''scratch'' (qa_scratch q))) (\<lambda>_.
     io_return (args @ disk_args q @ scratch_args (qa_scratch q) @ cdrom_args (qa_cdroms q)
       @ [''-smp'', nat_digits 10 (qa_smp q), ''-m'', qa_memory q, ''-display'', ''none'', ''-serial'', ''none'']
       @ network_args (qa_port_forwards q))))))))))"

text \<open>The tier SEV-SNP runs QEMU through sudo.\<close>

definition launch :: "host \<Rightarrow> (bytes \<Rightarrow> string) \<Rightarrow> qemu_args \<Rightarrow> (qemu_error, string list) io" where
  "launch h base64 q =
     then_io (resolve_qemu h (qa_bin q)) (\<lambda>qemu_bin.
     then_io (to_args h base64 q) (\<lambda>cmd_args.
     case qa_tier q of
       SevSnp \<Rightarrow> then_io (io_of (ok_or (Err NoIgvm) (qa_igvm q))) (\<lambda>_. io_return (''sudo'' # qemu_bin # cmd_args))
     | _ \<Rightarrow>
         then_io (io_of (ok_or (Err NoUki) (qa_uki q))) (\<lambda>_.
         then_io (io_of (ok_or (Err NoFirmware) (qa_firmware q))) (\<lambda>_.
         io_return (qemu_bin # cmd_args)))))"

section \<open>What a shell reads\<close>

text \<open>
  How a POSIX shell splits a line into words: blanks separate words, nothing is special between single quotes, a
  backslash outside them takes the next character.  A line with any other special character is not read.  The word
  read so far is \<open>None\<close> between words.
\<close>

definition word_add :: "string option \<Rightarrow> string \<Rightarrow> string option" where
  "word_add word s = Some ((case word of None \<Rightarrow> [] | Some x \<Rightarrow> x) @ s)"

definition word_end :: "string option \<Rightarrow> string list option \<Rightarrow> string list option" where
  "word_end word rest = (case word of None \<Rightarrow> rest | Some x \<Rightarrow> map_option (Cons x) rest)"

fun shell_read :: "bool \<Rightarrow> string option \<Rightarrow> string \<Rightarrow> string list option" where
  "shell_read quoted word [] = (if quoted then None else word_end word (Some []))"
| "shell_read quoted word [c] =
     (if quoted then (if c = SQ then word_end word (Some []) else None)
      else if c = CHR '' '' then word_end word (Some [])
      else if shell_plain c then word_end (word_add word [c]) (Some [])
      else None)"
| "shell_read quoted word (c # d # s) =
     (if quoted then
        if c = SQ then shell_read False word (d # s) else shell_read True (word_add word [c]) (d # s)
      else if c = CHR '' '' then word_end word (shell_read False None (d # s))
      else if c = SQ then shell_read True (word_add word []) (d # s)
      else if c = BS then shell_read False (word_add word [d]) s
      else if shell_plain c then shell_read False (word_add word [c]) (d # s)
      else None)"

lemma plain_chars: "shell_plain c \<Longrightarrow> c \<noteq> SQ \<and> c \<noteq> BS \<and> c \<noteq> CHR '' ''"
  by (auto simp: shell_plain_def SQ_def BS_def is_ascii_alphanumeric_def is_ascii_digit_def)

lemma special_chars: "SQ \<noteq> BS" "SQ \<noteq> CHR '' ''" "BS \<noteq> CHR '' ''" "\<not> shell_plain SQ" "\<not> shell_plain BS" "\<not> shell_plain CHR '' ''"
  using plain_chars by (auto simp: SQ_def BS_def)

lemma replace_from_char:
  "replace_from [c] r 0 s = concat (map (\<lambda>d. if d = c then r else [d]) s)"
  by (induction s) auto

lemma word_add_add [simp]: "word_add (word_add w a) b = word_add w (a @ b)"
  by (simp add: word_add_def)

text \<open>Reading the rest of a line: a blank or the end comes next.\<close>

definition rest_read :: "string \<Rightarrow> string list option" where
  "rest_read r = (case r of [] \<Rightarrow> Some [] | c # s \<Rightarrow> if c = CHR '' '' then shell_read False None s else None)"

lemma read_end: "r = [] \<or> hd r = CHR '' '' \<Longrightarrow> shell_read False (Some x) r = map_option (Cons x) (rest_read r)"
  by (cases "(False, Some x, r)" rule: shell_read.cases) (auto simp: rest_read_def word_end_def special_chars)

lemma read_plain:
  "list_all shell_plain a \<Longrightarrow> r = [] \<or> hd r = CHR '' '' \<Longrightarrow> a \<noteq> [] \<or> w \<noteq> None \<Longrightarrow>
    shell_read False w (a @ r) = map_option (Cons (the (word_add w a))) (rest_read r)"
proof (induction a arbitrary: w)
  case Nil
  then obtain x where "w = Some x" by auto
  then show ?case using read_end [of r x] Nil by (simp add: word_add_def)
next
  case (Cons c a)
  have "shell_read False w (c # a @ r) = shell_read False (word_add w [c]) (a @ r)"
    using Cons.prems(1) plain_chars [of c] by (cases "a @ r") (simp_all add: word_end_def word_add_def)
  also have "\<dots> = map_option (Cons (the (word_add (word_add w [c]) a))) (rest_read r)"
    using Cons by (intro Cons.IH) (auto simp: word_add_def)
  finally show ?case by simp
qed

lemma read_quoted:
  "r = [] \<or> hd r = CHR '' '' \<Longrightarrow>
    shell_read True (Some x) (concat (map (\<lambda>d. if d = SQ then [SQ, BS, SQ, SQ] else [d]) a) @ SQ # r)
      = map_option (Cons (x @ a)) (rest_read r)"
proof (induction a arbitrary: x)
  case Nil
  have "shell_read True (Some x) (SQ # r) = shell_read False (Some x) r"
    by (cases r) (simp_all add: word_end_def)
  then show ?case using read_end [OF Nil] by simp
next
  case (Cons c a)
  let ?t = "concat (map (\<lambda>d. if d = SQ then [SQ, BS, SQ, SQ] else [d]) a) @ SQ # r"
  obtain d s where t: "?t = d # s" by (cases ?t) auto
  have "shell_read True (Some x) ((if c = SQ then [SQ, BS, SQ, SQ] else [c]) @ ?t) = shell_read True (Some (x @ [c])) ?t"
    unfolding t by (auto simp: word_add_def special_chars special_chars(1-3) [symmetric])
  then show ?case using Cons by simp
qed

lemma read_quote:
  assumes "r = [] \<or> hd r = CHR '' ''"
  shows "shell_read False None (shell_quote a @ r) = map_option (Cons a) (rest_read r)"
proof (cases "a = [] \<or> \<not> list_all shell_plain a")
  case True
  let ?t = "concat (map (\<lambda>d. if d = SQ then [SQ, BS, SQ, SQ] else [d]) a) @ SQ # r"
  obtain d s where t: "?t = d # s" by (cases ?t) auto
  have "shell_quote a @ r = SQ # ?t"
    using True by (simp add: shell_quote_def replace_str_def replace_from_char)
  then have "shell_read False None (shell_quote a @ r) = shell_read True (Some []) ?t"
    unfolding t by (simp add: word_add_def special_chars)
  then show ?thesis using read_quoted [OF assms, of "[]" a] by simp
next
  case False
  then show ?thesis using read_plain [of a r None] assms by (simp add: shell_quote_def word_add_def)
qed

text \<open>
  C33. The command line that is printed before QEMU starts, pasted into a shell, gives exactly the arguments that are
  executed, whatever characters they hold.
\<close>

theorem shell_join_reads_back: "shell_read False None (shell_join argv) = Some argv"
  unfolding shell_join_def
proof (induction argv)
  case Nil
  then show ?case by (simp add: word_end_def)
next
  case (Cons a argv)
  show ?case
  proof (cases argv)
    case Nil
    then show ?thesis using read_quote [of "[]" a] by (simp add: rest_read_def)
  next
    case (Cons b bs)
    then have "join_str '' '' (map shell_quote (a # argv)) = shell_quote a @ CHR '' '' # join_str '' '' (map shell_quote argv)"
      by simp
    then show ?thesis
      using read_quote [of "CHR '' '' # join_str '' '' (map shell_quote argv)" a] Cons.IH by (simp add: rest_read_def)
  qed
qed

section \<open>Sizes that are accepted\<close>

lemma valid_memory_chars:
  assumes "valid_memory s"
  shows "CHR '','' \<notin> set s"
proof -
  have d: "list_all is_ascii_digit t \<Longrightarrow> CHR '','' \<notin> set t" for t
    by (auto simp: list_all_iff is_ascii_digit_def)
  show ?thesis
  proof (cases "last s \<in> set ''KMGTkmgt''")
    case True
    then have "list_all is_ascii_digit (butlast s)" "s = butlast s @ [last s]" "last s \<noteq> CHR '',''"
      using assms by (auto simp: valid_memory_def)
    then show ?thesis using d [of "butlast s"] by (metis Un_iff in_set_conv_decomp insertE list.set(1,2) set_append empty_iff)
  next
    case False
    then show ?thesis using assms d by (simp add: valid_memory_def)
  qed
qed


section \<open>What QEMU reads\<close>

lemma decimal_comma [simp]: "CHR '','' \<notin> set (nat_digits 10 n)"
  using decimal_digits [of n] by (auto simp: list_all_iff is_ascii_digit_def)

lemma split_join:
  "xs \<noteq> [] \<Longrightarrow> list_all (\<lambda>x. c \<notin> set x) xs \<Longrightarrow> split_char c (join_str [c] xs) = xs"
  by (induction "[c]" xs rule: join_str.induct) (auto simp: split_char_append split_char_none)

text \<open>The properties of every argument, as the program means them.\<close>

definition console_properties :: "string list list" where
  "console_properties =
     [[''-chardev''], [''stdio'', ''id=hvc0'', ''signal=off'', ''mux=on''], [''-device''],
      [''virtio-serial-pci'', ''id=virtser0''], [''-device''], [''virtconsole'', ''chardev=hvc0'', ''id=console0''],
      [''-mon''], [''chardev=hvc0'', ''mode=readline'']]"

definition tier_properties :: "(bytes \<Rightarrow> string) \<Rightarrow> qemu_args \<Rightarrow> string list list" where
  "tier_properties base64 q =
     (if qa_tier q = SevSnp then
        [[''-enable-kvm''], [''-cpu''], [''EPYC-Genoa''], [''-machine''],
         [''q35'', ''confidential-guest-support=sev0'', ''igvm-cfg=igvm0'', ''memory-backend=ram1'', ''kernel-irqchip=split''],
         [''-object''], [''igvm-cfg'', ''id=igvm0'', ''file='' @ the (qa_igvm q)],
         [''-object''], [''memory-backend-memfd'', ''id=ram1'', ''size='' @ qa_memory q, ''share=true''],
         [''-object''], [''sev-snp-guest'', ''id=sev0'', ''cbitpos=51'', ''reduced-phys-bits=1'']
           @ (case qa_host_data q of None \<Rightarrow> [] | Some d \<Rightarrow> [''host-data='' @ base64 d]),
         [''-no-reboot'']] @ console_properties
      else
        [[''-machine''], [''q35'']] @ (if qa_tier q = Kvm then [[''-enable-kvm'']] else [])
        @ [[''-drive''], [''if=pflash'', ''format=raw'', ''readonly=on'', ''file='' @ the (qa_firmware q)],
           [''-kernel''], [the (qa_uki q)]] @ console_properties)"

definition cdrom_properties :: "nat \<times> string \<Rightarrow> string list list" where
  "cdrom_properties ip =
     [[''-drive''], [''file='' @ snd ip, ''format=raw'', ''if=none'', ''id=cd'' @ nat_digits 10 (fst ip), ''readonly=on''],
      [''-device''], [''scsi-cd'', ''drive=cd'' @ nat_digits 10 (fst ip), ''bus=scsi0.0'']]"

definition disk_properties :: "qemu_args \<Rightarrow> string list list" where
  "disk_properties q =
     [[''-drive''], [''file='' @ qa_disk q, ''format='' @ qa_disk_format q, ''if=none'', ''id=root0'', ''readonly=on''],
      [''-device''], [''virtio-blk-pci'', ''drive=root0'']]"

definition scratch_properties :: "string option \<Rightarrow> string list list" where
  "scratch_properties scratch =
     (case scratch of
        None \<Rightarrow> []
      | Some p \<Rightarrow> [[''-drive''], [''file='' @ p, ''format=raw'', ''if=none'', ''id=scratch0''],
                   [''-device''], [''virtio-blk-pci'', ''drive=scratch0'', ''serial=confai-scratch'']])"

definition bus_properties :: "string list \<Rightarrow> string list list" where
  "bus_properties cdroms = (if cdroms = [] then [] else [[''-device''], [''virtio-scsi-pci'', ''id=scsi0'']])"

definition machine_properties :: "qemu_args \<Rightarrow> string list list" where
  "machine_properties q =
     [[''-smp''], [nat_digits 10 (qa_smp q)], [''-m''], [qa_memory q], [''-display''], [''none''],
      [''-serial''], [''none'']]"

definition network_properties :: "(nat \<times> nat) list \<Rightarrow> string list list" where
  "network_properties forwards =
     (if forwards = [] then []
      else [[''-netdev''], [''user'', ''id=net0''] @ map hostfwd forwards,
            [''-device''], [''virtio-net-pci'', ''netdev=net0'']])"

definition qemu_properties :: "(bytes \<Rightarrow> string) \<Rightarrow> qemu_args \<Rightarrow> string list list" where
  "qemu_properties base64 q =
     tier_properties base64 q @ disk_properties q @ scratch_properties (qa_scratch q) @ bus_properties (qa_cdroms q)
     @ concat (map cdrom_properties (enumerate 0 (qa_cdroms q))) @ machine_properties q
     @ network_properties (qa_port_forwards q)"

text \<open>Every property is there and holds no comma.\<close>

definition comma_free :: "string list list \<Rightarrow> bool" where
  "comma_free props \<longleftrightarrow> list_all (\<lambda>ps. ps \<noteq> [] \<and> list_all (\<lambda>p. CHR '','' \<notin> set p) ps) props"

lemma comma_free_append [simp]: "comma_free (a @ b) \<longleftrightarrow> comma_free a \<and> comma_free b"
  by (simp add: comma_free_def)

lemma split_all:
  assumes "args = map (join_str '','') props" "comma_free props"
  shows "map (split_char CHR '','') args = props"
  using assms split_join [where c = "CHR '',''"] by (simp add: comma_free_def list_all_iff map_idI)

text \<open>What the checks of \<open>to_args\<close> let through.\<close>

lemma validate_cdroms_Inr:
  "validate_cdroms h ps w = (Inr u, w') \<Longrightarrow> w' = w \<and> list_all (\<lambda>p. CHR '','' \<notin> set p \<and> path_is_file h p w) ps"
  unfolding validate_cdroms_def
proof (induction ps arbitrary: u)
  case Nil
  then show ?case by (simp add: io_simps)
next
  case (Cons p ps)
  then show ?case by (auto simp: io_simps validate_cdrom_def reject_comma_in_path_def)
qed

lemma reject_comma_opt_Inr:
  "reject_comma_opt l p = Inr u \<longleftrightarrow> (\<forall>q. p = Some q \<longrightarrow> CHR '','' \<notin> set q)"
  by (auto simp: reject_comma_opt_def reject_comma_in_path_def split: option.splits)

lemma to_args_Inr:
  assumes "to_args h base64 q w = (Inr args, w')"
  obtains head where "tier_args base64 q = Inr head"
    "args = head @ disk_args q @ scratch_args (qa_scratch q) @ cdrom_args (qa_cdroms q)
       @ [''-smp'', nat_digits 10 (qa_smp q), ''-m'', qa_memory q, ''-display'', ''none'', ''-serial'', ''none'']
       @ network_args (qa_port_forwards q)"
    "w' = w" "list_all (\<lambda>p. CHR '','' \<notin> set p \<and> path_is_file h p w) (qa_cdroms q)" "CHR '','' \<notin> set (qa_disk q)"
    "\<forall>p \<in> set_option (qa_igvm q) \<union> set_option (qa_uki q) \<union> set_option (qa_firmware q) \<union> set_option (qa_scratch q).
       CHR '','' \<notin> set p"
    "qa_disk_format q \<in> {''raw'', ''qcow2''}"
proof -
  obtain u w1 head where *: "validate_cdroms h (qa_cdroms q) w = (Inr u, w1)"
    "reject_comma_in_path ''disk'' (qa_disk q) = Inr ()" "reject_comma_opt ''igvm'' (qa_igvm q) = Inr ()"
    "reject_comma_opt ''uki'' (qa_uki q) = Inr ()" "reject_comma_opt ''firmware'' (qa_firmware q) = Inr ()"
    "tier_args base64 q = Inr head" "qa_disk_format q \<in> {''raw'', ''qcow2''}"
    "reject_comma_opt ''scratch'' (qa_scratch q) = Inr ()" "w' = w1"
    "args = head @ disk_args q @ scratch_args (qa_scratch q) @ cdrom_args (qa_cdroms q)
       @ [''-smp'', nat_digits 10 (qa_smp q), ''-m'', qa_memory q, ''-display'', ''none'', ''-serial'', ''none'']
       @ network_args (qa_port_forwards q)"
    using assms unfolding to_args_def by (auto simp: io_simps)
  show ?thesis
    by (rule that [of head]) (use * validate_cdroms_Inr [OF *(1)] in \<open>auto simp: reject_comma_opt_Inr reject_comma_in_path_def\<close>)
qed

lemma tier_args_join:
  "tier_args base64 q = Inr head \<Longrightarrow> head = map (join_str '','') (tier_properties base64 q)"
  by (cases "qa_tier q") (auto simp: tier_args_def tier_properties_def console_args_def console_properties_def sev_object_def
      split: option.splits)

lemma cdrom_args_join: "concat (map cdrom_arg ips) = map (join_str '','') (concat (map cdrom_properties ips))"
  by (induction ips) (simp_all add: cdrom_arg_def cdrom_properties_def)

lemma parts_join:
  "disk_args q = map (join_str '','') (disk_properties q)"
  "scratch_args scratch = map (join_str '','') (scratch_properties scratch)"
  "cdrom_args cdroms = map (join_str '','') (bus_properties cdroms @ concat (map cdrom_properties (enumerate 0 cdroms)))"
  "[''-smp'', nat_digits 10 (qa_smp q), ''-m'', qa_memory q, ''-display'', ''none'', ''-serial'', ''none'']
    = map (join_str '','') (machine_properties q)"
  "network_args forwards = map (join_str '','') (network_properties forwards)"
      apply (simp add: disk_args_def disk_properties_def)
     apply (simp add: scratch_args_def scratch_properties_def split: option.splits)
    apply (simp add: cdrom_args_def cdrom_args_join bus_properties_def)
   apply (simp add: machine_properties_def)
  apply (cases forwards; simp add: network_args_def network_properties_def)
  done

lemma parts_free:
  "CHR '','' \<notin> set (qa_disk q) \<Longrightarrow> qa_disk_format q \<in> {''raw'', ''qcow2''} \<Longrightarrow> comma_free (disk_properties q)"
  "\<forall>p \<in> set_option scratch. CHR '','' \<notin> set p \<Longrightarrow> comma_free (scratch_properties scratch)"
  "comma_free (bus_properties cdroms)"
  "list_all (\<lambda>p. CHR '','' \<notin> set p) cdroms \<Longrightarrow> comma_free (concat (map cdrom_properties (enumerate n cdroms)))"
  "CHR '','' \<notin> set (qa_memory q) \<Longrightarrow> comma_free (machine_properties q)"
  "comma_free (network_properties forwards)"
proof -
  show "list_all (\<lambda>p. CHR '','' \<notin> set p) cdroms \<Longrightarrow> comma_free (concat (map cdrom_properties (enumerate n cdroms)))"
    by (induction cdroms arbitrary: n) (simp_all add: comma_free_def cdrom_properties_def)
  show "comma_free (network_properties forwards)"
    by (simp add: comma_free_def network_properties_def list_all_iff hostfwd_def)
  show "CHR '','' \<notin> set (qa_disk q) \<Longrightarrow> qa_disk_format q \<in> {''raw'', ''qcow2''} \<Longrightarrow> comma_free (disk_properties q)"
    by (auto simp: comma_free_def disk_properties_def)
  show "\<forall>p \<in> set_option scratch. CHR '','' \<notin> set p \<Longrightarrow> comma_free (scratch_properties scratch)"
    by (cases scratch) (simp_all add: comma_free_def scratch_properties_def)
qed (simp_all add: comma_free_def bus_properties_def machine_properties_def)

lemma tier_free:
  assumes "tier_args base64 q = Inr head" "CHR '','' \<notin> set (qa_memory q)" "\<And>d. CHR '','' \<notin> set (base64 d)"
    and "\<forall>p \<in> set_option (qa_igvm q) \<union> set_option (qa_uki q) \<union> set_option (qa_firmware q). CHR '','' \<notin> set p"
  shows "comma_free (tier_properties base64 q)"
proof -
  have c: "comma_free console_properties" by (simp add: comma_free_def console_properties_def)
  show ?thesis
  proof (cases "qa_tier q = SevSnp")
    case True
    then obtain igvm where "qa_igvm q = Some igvm" using assms(1) by (auto simp: tier_args_def)
    then show ?thesis
      using True assms(2-4) c by (simp add: tier_properties_def comma_free_def split: option.splits)
  next
    case False
    then obtain uki fw where "qa_uki q = Some uki" "qa_firmware q = Some fw"
      using assms(1) by (cases "qa_tier q") (auto simp: tier_args_def)
    then show ?thesis
      using False assms(4) c by (simp add: tier_properties_def comma_free_def)
  qed
qed

lemma qemu_properties_split:
  assumes "to_args h base64 q w = (Inr args, w')" and "CHR '','' \<notin> set (qa_memory q)"
    and "\<And>d. CHR '','' \<notin> set (base64 d)"
  shows "map (split_char CHR '','') args = qemu_properties base64 q"
proof -
  obtain head where *: "tier_args base64 q = Inr head"
    "args = head @ disk_args q @ scratch_args (qa_scratch q) @ cdrom_args (qa_cdroms q)
       @ [''-smp'', nat_digits 10 (qa_smp q), ''-m'', qa_memory q, ''-display'', ''none'', ''-serial'', ''none'']
       @ network_args (qa_port_forwards q)"
    "list_all (\<lambda>p. CHR '','' \<notin> set p \<and> path_is_file h p w) (qa_cdroms q)" "CHR '','' \<notin> set (qa_disk q)"
    "\<forall>p \<in> set_option (qa_igvm q) \<union> set_option (qa_uki q) \<union> set_option (qa_firmware q) \<union> set_option (qa_scratch q).
       CHR '','' \<notin> set p"
    "qa_disk_format q \<in> {''raw'', ''qcow2''}"
    by (rule to_args_Inr [OF assms(1)]) blast
  have "args = map (join_str '','') (qemu_properties base64 q)"
    unfolding *(2) tier_args_join [OF *(1)] parts_join qemu_properties_def by (simp only: map_append append_assoc)
  moreover have "comma_free (tier_properties base64 q)"
    by (rule tier_free [OF *(1) assms(2,3)]) (use *(5) in blast)
  moreover have "comma_free (scratch_properties (qa_scratch q))" by (rule parts_free) (use *(5) in blast)
  moreover have "list_all (\<lambda>p. CHR '','' \<notin> set p) (qa_cdroms q)" using *(3) by (simp add: list_all_iff)
  ultimately show ?thesis
    by (intro split_all) (simp_all only: qemu_properties_def comma_free_append parts_free *(4,6) assms(2) simp_thms)
qed

end
