(* ===== verification/Profiles.thy ===== *)
theory Profiles
  imports FileTree ImageManifest Qemu KernelBuild TdxMeasure
begin

text \<open>
  The staging half of \<open>src/commands/build.rs\<close>, with the argument types of \<open>src/lib.rs\<close> it uses: out-of-tree mkosi
  profiles and their self-containment, the copies that a build stages, the sync inputs, and the guards that remove what
  was staged on every way out.  The entries of a directory are visited in the order of their names.
\<close>

section \<open>Arguments\<close>

datatype build_platform = OnlySnp | OnlyTdx | BothPlatforms

definition needs_snp :: "build_platform \<Rightarrow> bool" where
  "needs_snp p \<longleftrightarrow> p = OnlySnp \<or> p = BothPlatforms"

definition needs_tdx :: "build_platform \<Rightarrow> bool" where
  "needs_tdx p \<longleftrightarrow> p = OnlyTdx \<or> p = BothPlatforms"

definition is_safe_name :: "string \<Rightarrow> bool" where
  "is_safe_name name \<longleftrightarrow> name \<noteq> [] \<and> list_all (\<lambda>c. is_ascii_alphanumeric c \<or> c = CHR ''-'' \<or> c = CHR ''_'') name"

record sync_input =
  si_name :: string
  si_value :: string

definition parse_sync_input :: "string \<Rightarrow> string + sync_input" where
  "parse_sync_input spec =
     (case split_once CHR ''='' spec of
        None \<Rightarrow> Inl (''wants NAME=VALUE'')
      | Some (name, value) \<Rightarrow>
          if is_safe_name name then Inr \<lparr> si_name = name, si_value = value \<rparr>
          else Inl (''name must match [A-Za-z0-9_-]+''))"

text \<open>\<open>Diverges\<close> stands for a run that never ends.\<close>

datatype build_error =
    IncoherentPlatform
  | SnpFirmwareMissing string
  | TdxFirmwareMissing string
  | CloudInitMissing string
  | ExtraMissing string
  | ExtraNotDir string
  | ScriptMissing string
  | ScriptNotFile string
  | BuildRunning
  | OutputIsSymlink string
  | NotSafeName string
  | NoMkosiConf string
  | SameBasename string
  | InTreeProfile string
  | SubtreeIsLink string
  | LinkEscapes string string
  | IncludeEscapes string string
  | InitrdConfigMissing
  | MkosiConfigMissing
  | UkiNotBuilt
  | ImageNotBuilt
  | RoothashNotBuilt
  | BadRoothash string
  | NoSmps
  | SmpZero
  | NotGzip string
  | ChecksumNotUtf8
  | BadChecksum string
  | DuplicateChecksum string
  | ChecksumNotFound string
  | FromKernel kernel_error
  | FromQemu qemu_error
  | FromImage manifest_error
  | FromTdx cli_error
  | Diverges

type_synonym 'a build_io = "(build_error, 'a) io"

section \<open>Self-contained profiles\<close>

definition IMAGE_RELATIVE_SUBTREES :: "string list" where
  "IMAGE_RELATIVE_SUBTREES = [''mkosi.extra'', ''mkosi.skeleton'']"

definition MKOSI_CONF_D :: string where "MKOSI_CONF_D = ''mkosi.conf.d''"

text \<open>The depth below the root after each component of the target; a negative depth, or an absolute target, escapes.\<close>

fun escapes_from :: "int \<Rightarrow> component list \<Rightarrow> bool" where
  "escapes_from depth [] = False"
| "escapes_from depth (RootDir # cs) = True"
| "escapes_from depth (CurDir # cs) = escapes_from depth cs"
| "escapes_from depth (ParentDir # cs) = (if depth - 1 < 0 then True else escapes_from (depth - 1) cs)"
| "escapes_from depth (Normal _ # cs) = escapes_from (depth + 1) cs"

definition escapes_root :: "string \<Rightarrow> string \<Rightarrow> bool" where
  "escapes_root rel_parent target = escapes_from (int (length (components_of rel_parent))) (components_of target)"

definition is_link :: "node \<Rightarrow> bool" where
  "is_link n = (case n of Link _ \<Rightarrow> True | _ \<Rightarrow> False)"

function reject_escaping_links :: "host \<Rightarrow> string \<Rightarrow> string \<Rightarrow> bool \<Rightarrow> bool \<Rightarrow> unit build_io" where
  "reject_escaping_links h root rel at_extras_root in_dropin_container =
     then_io (read_dir h (path_join root rel)) (\<lambda>names.
     io_each (\<lambda>name.
       then_io (read_entry h (path_join root rel) name) (\<lambda>node.
       if at_extras_root \<and> name \<in> set IMAGE_RELATIVE_SUBTREES then io_check (\<not> is_link node) (SubtreeIsLink name)
       else case node of
           Link target \<Rightarrow> io_check (\<not> escapes_root rel target) (LinkEscapes (path_join rel name) target)
         | Directory \<Rightarrow>
             reject_escaping_links h root (path_join rel name) in_dropin_container (at_extras_root \<and> name = MKOSI_CONF_D)
         | Regular _ \<Rightarrow> io_return ())) names)"
  by pat_completeness auto

lemma join_deeper:
  assumes "n \<noteq> []" "CHR ''/'' \<notin> set n"
  shows "length (path_join root rel) < length (path_join root (path_join rel n))"
  using assms by (cases n; cases rel) (auto simp: path_join_def)

lemma join_child_deeper:
  assumes "read_dir h (path_join root rel) w = (Inr ns, w')" "n \<in> set ns"
  shows "PATH_MAX - length (path_join root (path_join rel n)) < PATH_MAX - length (path_join root rel)"
  using assms join_deeper [of n root rel] child_name_ok by (auto simp: read_dir_Inr)

termination reject_escaping_links
  by (relation "measure (\<lambda>(h, root, rel, _). PATH_MAX - length (path_join root rel))")
    (auto dest: join_child_deeper)

declare reject_escaping_links.simps [simp del]

definition reject_escaping_symlinks :: "host \<Rightarrow> string \<Rightarrow> unit build_io" where
  "reject_escaping_symlinks h root = reject_escaping_links h root [] True False"

text \<open>The values of an \<open>Include=\<close> line, also with the old spelling \<open>@Include=\<close>.\<close>

definition include_value :: "string \<Rightarrow> string option" where
  "include_value line =
     (case strip_prefix ''Include'' (dropWhile (\<lambda>c. c = CHR ''@'') (trim_start line)) of
        None \<Rightarrow> None
      | Some rest \<Rightarrow> strip_prefix ''='' (trim_start rest))"

definition include_targets :: "string \<Rightarrow> string list" where
  "include_targets text =
     concat (map (\<lambda>line. case include_value line of
         None \<Rightarrow> []
       | Some v \<Rightarrow> filter (\<lambda>t. t \<noteq> []) (map trim (split_char CHR '','' v))) (str_lines text))"

definition reject_escaping_include_lines :: "host \<Rightarrow> string \<Rightarrow> string \<Rightarrow> string \<Rightarrow> unit build_io" where
  "reject_escaping_include_lines h root anchor rel =
     then_io (read_to_string h (path_join root rel)) (\<lambda>text.
     io_each (\<lambda>t. io_check (\<not> escapes_root anchor t) (IncludeEscapes rel t)) (include_targets text))"

function reject_escaping_includes :: "host \<Rightarrow> string \<Rightarrow> string \<Rightarrow> unit build_io" where
  "reject_escaping_includes h root anchor =
     then_io (io_each (\<lambda>name.
       then_io (io_get (path_is_file h (path_join root (path_join anchor name)))) (\<lambda>there.
       if there then reject_escaping_include_lines h root anchor (path_join anchor name) else io_return ()))
       [''mkosi.conf'', ''mkosi.local.conf'']) (\<lambda>_.
     let confd = path_join anchor MKOSI_CONF_D in
     then_io (io_get (path_is_dir h (path_join root confd))) (\<lambda>there.
     if \<not> there then io_return ()
     else
       then_io (read_dir h (path_join root confd)) (\<lambda>names.
       io_each (\<lambda>name.
         let rel = path_join confd name in
         then_io (read_entry h (path_join root confd) name) (\<lambda>node.
         if node = Directory then reject_escaping_includes h root rel
         else if path_extension rel = Some ''conf'' then reject_escaping_include_lines h root anchor rel
         else io_return ())) names)))"
  by pat_completeness auto

lemma confd_child_deeper:
  assumes "read_dir h (path_join root (path_join anchor MKOSI_CONF_D)) w = (Inr ns, w')" "n \<in> set ns"
  shows "PATH_MAX - length (path_join root (path_join (path_join anchor MKOSI_CONF_D) n))
    < PATH_MAX - length (path_join root anchor)"
proof -
  have "length (path_join root anchor) < length (path_join root (path_join anchor MKOSI_CONF_D))"
    by (rule join_deeper) (simp_all add: MKOSI_CONF_D_def)
  then show ?thesis using join_child_deeper [OF assms] by linarith
qed

termination reject_escaping_includes
  by (relation "measure (\<lambda>(h, root, anchor). PATH_MAX - length (path_join root anchor))")
    (auto dest: confd_child_deeper)

declare reject_escaping_includes.simps [simp del]

section \<open>Copies\<close>

text \<open>Links are copied as they are; the mode of a file is not modelled.\<close>

definition replace_link :: "host \<Rightarrow> string \<Rightarrow> string \<Rightarrow> string \<Rightarrow> unit build_io" where
  "replace_link h target dir name =
     then_io (io_get (entry_exists h dir name)) (\<lambda>there.
     then_io (if there then then_io (io_try (remove_entry h dir name :: unit build_io)) (\<lambda>_. io_return ()) else io_return ()) (\<lambda>_.
     make_link h target dir name))"

function copy_tree :: "host \<Rightarrow> string \<Rightarrow> string \<Rightarrow> unit build_io" where
  "copy_tree h src dst =
     then_io (create_dir_all h dst) (\<lambda>_.
     then_io (read_dir h src) (\<lambda>names.
     io_each (\<lambda>name.
       then_io (read_entry h src name) (\<lambda>node.
       case node of
         Link target \<Rightarrow> replace_link h target dst name
       | Directory \<Rightarrow> copy_tree h (path_join src name) (path_join dst name)
       | Regular _ \<Rightarrow> copy_file h (path_join src name) (path_join dst name))) names))"
  by pat_completeness auto

termination copy_tree
  by (relation "measure (\<lambda>(h, src, dst). PATH_MAX - length src)") (auto dest: child_deeper)

declare copy_tree.simps [simp del]

section \<open>Staging\<close>

definition STAGED_PROFILE_MARKER :: string where "STAGED_PROFILE_MARKER = ''.confos-staged-profile''"

definition SYNC_INPUT_DIR :: string where "SYNC_INPUT_DIR = ''.confos-sync-inputs''"

definition write_sync_inputs :: "host \<Rightarrow> string \<Rightarrow> sync_input list \<Rightarrow> unit build_io" where
  "write_sync_inputs h mkosi_local inputs =
     (let dir = path_join mkosi_local SYNC_INPUT_DIR in
      then_io (io_get (entry_exists h mkosi_local SYNC_INPUT_DIR)) (\<lambda>stale.
      then_io (io_when stale (force_remove_dir_all h dir)) (\<lambda>_.
      if inputs = [] then io_return ()
      else
        then_io (create_dir_all h dir) (\<lambda>_.
        io_each (\<lambda>i. write_bytes h (path_join dir (si_name i)) (si_value i @ [CHR 0x0A])) inputs))))"

definition external_profile_name :: "string \<Rightarrow> build_error fault + string" where
  "external_profile_name dir =
     (let name = (case file_name dir of None \<Rightarrow> [] | Some n \<Rightarrow> if valid_str n then n else []) in
      if is_safe_name name then Inr name else bail (NotSafeName dir))"

text \<open>Every directory is checked before any is staged.\<close>

definition validate_profile_dir :: "host \<Rightarrow> string \<Rightarrow> (string \<times> string) list \<Rightarrow> string \<Rightarrow> string build_io" where
  "validate_profile_dir h profiles_root validated dir =
     then_io (io_of (external_profile_name dir)) (\<lambda>name.
     then_io (io_get (path_is_file h (path_join dir ''mkosi.conf''))) (\<lambda>conf.
     then_io (io_check conf (NoMkosiConf dir)) (\<lambda>_.
     then_io (io_check (name \<notin> fst ` set validated) (SameBasename name)) (\<lambda>_.
     then_io (io_get (entry_exists h profiles_root name)) (\<lambda>there.
     then_io (io_check (\<not> there) (InTreeProfile name)) (\<lambda>_.
     then_io (reject_escaping_symlinks h dir) (\<lambda>_.
     then_io (reject_escaping_includes h dir []) (\<lambda>_.
     io_return name))))))))"

fun validate_profile_dirs :: "host \<Rightarrow> string \<Rightarrow> (string \<times> string) list \<Rightarrow> string list \<Rightarrow> (string \<times> string) list build_io" where
  "validate_profile_dirs h profiles_root validated [] = io_return validated"
| "validate_profile_dirs h profiles_root validated (dir # dirs) =
     then_io (validate_profile_dir h profiles_root validated dir) (\<lambda>name.
     validate_profile_dirs h profiles_root (validated @ [(name, dir)]) dirs)"

text \<open>The marker comes before the content.\<close>

definition stage_profile :: "host \<Rightarrow> string \<Rightarrow> string \<Rightarrow> unit build_io" where
  "stage_profile h dir target =
     then_io (create_dir_all h target) (\<lambda>_.
     then_io (write_bytes h (path_join target STAGED_PROFILE_MARKER) []) (\<lambda>_.
     copy_tree h dir target))"

text \<open>The guards: what has to be removed, also when the staging of one fails.\<close>

definition drop_guards :: "host \<Rightarrow> string list \<Rightarrow> world \<Rightarrow> world" where
  "drop_guards h guards w = fold (\<lambda>dir w. snd ((force_remove_dir_all h dir :: unit build_io) w)) guards w"

fun stage_each ::
  "host \<Rightarrow> string \<Rightarrow> (string \<times> string) list \<Rightarrow> string list \<Rightarrow> string list \<Rightarrow> world
    \<Rightarrow> (build_error io_error fault + string list) \<times> string list \<times> world" where
  "stage_each h profiles_root [] profiles guards w = (Inr profiles, guards, w)"
| "stage_each h profiles_root ((name, dir) # vs) profiles guards w =
     (let target = path_join profiles_root name in
      case stage_profile h dir target w of
        (Inl e, w') \<Rightarrow> (Inl e, guards @ [target], w')
      | (Inr _, w') \<Rightarrow>
          stage_each h profiles_root vs (if name \<in> set profiles then profiles else profiles @ [name]) (guards @ [target]) w')"

definition with_staged_profiles ::
  "host \<Rightarrow> string \<Rightarrow> string list \<Rightarrow> string list \<Rightarrow> (string list \<Rightarrow> 'a build_io) \<Rightarrow> 'a build_io" where
  "with_staged_profiles h profiles_root dirs profiles rest =
     then_io (validate_profile_dirs h profiles_root [] dirs) (\<lambda>validated w.
     case stage_each h profiles_root validated profiles [] w of
       (Inl e, guards, w') \<Rightarrow> (Inl e, drop_guards h guards w')
     | (Inr profiles, guards, w') \<Rightarrow>
         (case rest profiles w' of (r, w'') \<Rightarrow> (r, drop_guards h guards w'')))"

definition sweep_entry :: "host \<Rightarrow> string \<Rightarrow> string \<Rightarrow> unit build_io" where
  "sweep_entry h profiles_root name =
     then_io (read_entry h profiles_root name) (\<lambda>node.
     if node \<noteq> Directory then io_return ()
     else
       let dir = path_join profiles_root name in
       then_io (io_get (path_is_file h (path_join dir STAGED_PROFILE_MARKER))) (\<lambda>staged.
       if \<not> staged then io_return () else force_remove_dir_all h dir))"

definition sweep_stale_staged_profiles :: "host \<Rightarrow> string \<Rightarrow> unit build_io" where
  "sweep_stale_staged_profiles h profiles_root = (\<lambda>w.
     if \<not> denied h Fetch profiles_root w \<and> node_at h w profiles_root = None then (Inr (), w)
     else then_io (read_dir h profiles_root) (io_each (sweep_entry h profiles_root)) w)"

section \<open>What stays inside\<close>

text \<open>
  Where a target leads, from a directory given by the names on its path: a lexical resolution, as if no component were
  itself a link.
\<close>

fun resolve :: "string list \<Rightarrow> component list \<Rightarrow> string list" where
  "resolve at [] = at"
| "resolve at (RootDir # cs) = resolve [] cs"
| "resolve at (CurDir # cs) = resolve at cs"
| "resolve at (ParentDir # cs) = resolve (butlast at) cs"
| "resolve at (Normal n # cs) = resolve (at @ [n]) cs"

fun target_names :: "component list \<Rightarrow> string set" where
  "target_names [] = {}"
| "target_names (Normal n # cs) = insert n (target_names cs)"
| "target_names (_ # cs) = target_names cs"

lemma finite_target_names: "finite (target_names cs)"
  by (induction cs rule: target_names.induct) simp_all

lemma resolve_names: "set (resolve at cs) \<subseteq> set at \<union> target_names cs"
proof (induction at cs rule: resolve.induct)
  case (4 at cs)
  then show ?case by (auto dest: in_set_butlastD)
qed auto

lemma stays_inside:
  "\<not> escapes_from (int (length s)) cs \<Longrightarrow> \<exists>x. \<forall>A. resolve (A @ s) cs = A @ x"
proof (induction cs arbitrary: s)
  case (Cons c cs)
  show ?case
  proof (cases c)
    case ParentDir
    then have s: "s \<noteq> []" "\<not> escapes_from (int (length (butlast s))) cs"
      using Cons.prems by (cases s; auto simp: of_nat_diff split: if_splits)+
    then show ?thesis using Cons.IH [OF s(2)] ParentDir by (simp add: butlast_append)
  next
    case (Normal n)
    then have "\<not> escapes_from (int (length (s @ [n]))) cs" using Cons.prems by (simp add: add.commute)
    then show ?thesis using Cons.IH [of "s @ [n]"] Normal by simp
  qed (use Cons in auto)
qed auto

lemma leaves_root:
  "escapes_from (int (length s)) cs \<Longrightarrow> f \<notin> set s \<union> target_names cs \<Longrightarrow> f \<notin> set (resolve (f # s) cs)"
proof (induction cs arbitrary: s)
  case (Cons c cs)
  show ?case
  proof (cases c)
    case RootDir
    then show ?thesis using Cons.prems(2) resolve_names [of "[]" cs] by auto
  next
    case ParentDir
    show ?thesis
    proof (cases "s = []")
      case True
      then show ?thesis using ParentDir Cons.prems(2) resolve_names [of "[]" cs] by auto
    next
      case False
      then have "escapes_from (int (length (butlast s))) cs"
        using Cons.prems(1) ParentDir by (cases s) (auto simp: of_nat_diff split: if_splits)
      then show ?thesis using Cons.IH [of "butlast s"] Cons.prems(2) ParentDir False by (auto dest: in_set_butlastD)
    qed
  next
    case (Normal n)
    then have "escapes_from (int (length (s @ [n]))) cs" using Cons.prems(1) by (simp add: add.commute)
    then show ?thesis using Cons.IH [of "s @ [n]"] Cons.prems(2) Normal by simp
  qed (use Cons in auto)
qed auto

text \<open>
  C37. The check of a link target is exact: it passes if and only if the target leads to one place inside the profile
  wherever the profile directory is put, so that staging, which moves the directory, keeps what it means.
\<close>

theorem escapes_root_iff:
  assumes "components_of rel = map Normal names"
  shows "\<not> escapes_root rel target \<longleftrightarrow> (\<exists>x. \<forall>A. resolve (A @ names) (components_of target) = A @ x)"
proof
  assume "\<not> escapes_root rel target"
  then show "\<exists>x. \<forall>A. resolve (A @ names) (components_of target) = A @ x"
    using stays_inside [of names "components_of target"] by (simp add: escapes_root_def assms)
next
  assume "\<exists>x. \<forall>A. resolve (A @ names) (components_of target) = A @ x"
  then obtain x where x: "resolve (A @ names) (components_of target) = A @ x" for A by blast
  obtain f where f: "f \<notin> set names \<union> target_names (components_of target)"
    using ex_new_if_finite [of "set names \<union> target_names (components_of target)"] finite_target_names
      infinite_UNIV_listI [where 'a = char] by blast
  show "\<not> escapes_root rel target"
    using leaves_root [OF _ f] x [of "[f]"] by (auto simp: escapes_root_def assms)
qed

lemma escapes_root_iff_witness:
  "\<not> escapes_root ''mkosi.conf.d'' ''../scripts/a.sh''"
proof -
  have "components_of ''mkosi.conf.d'' = map Normal [''mkosi.conf.d'']" by code_simp
  moreover have "components_of ''../scripts/a.sh'' = [ParentDir, Normal ''scripts'', Normal ''a.sh'']" by code_simp
  ultimately show ?thesis using escapes_root_iff [of "''mkosi.conf.d''" "[''mkosi.conf.d'']" "''../scripts/a.sh''"] by auto
qed

section \<open>Every link of a profile\<close>

text \<open>
  The links that staging re-parents: those outside the trees that are resolved in the image.  A directory is given by
  the names that lead to it.
\<close>

definition rel_path :: "string list \<Rightarrow> string" where
  "rel_path names = join_str ''/'' names"

inductive config_link :: "host \<Rightarrow> world \<Rightarrow> string \<Rightarrow> string list \<Rightarrow> bool \<Rightarrow> bool \<Rightarrow> string list \<Rightarrow> string \<Rightarrow> bool"
  for h w root where
  here: "name \<in> set (entry_names w (canon h (path_join root (rel_path names)))) \<Longrightarrow>
    entry_at h (path_join root (rel_path names)) name w = Some (Link target) \<Longrightarrow>
    \<not> (extras \<and> name \<in> set IMAGE_RELATIVE_SUBTREES) \<Longrightarrow> config_link h w root names extras dropin names target"
| deeper: "name \<in> set (entry_names w (canon h (path_join root (rel_path names)))) \<Longrightarrow>
    entry_at h (path_join root (rel_path names)) name w = Some Directory \<Longrightarrow>
    \<not> (extras \<and> name \<in> set IMAGE_RELATIVE_SUBTREES) \<Longrightarrow>
    config_link h w root (names @ [name]) dropin (extras \<and> name = MKOSI_CONF_D) at target \<Longrightarrow>
    config_link h w root names extras dropin at target"

definition proper_name :: "string \<Rightarrow> bool" where
  "proper_name n \<longleftrightarrow> n \<noteq> [] \<and> CHR ''/'' \<notin> set n \<and> n \<noteq> ''.'' \<and> n \<noteq> ''..''"

lemma split_rel_path:
  "list_all proper_name names \<Longrightarrow> names \<noteq> [] \<Longrightarrow> split_char CHR ''/'' (rel_path names) = names"
  unfolding rel_path_def by (rule split_join) (auto simp: list_all_iff proper_name_def)

lemma rel_path_head: "list_all proper_name names \<Longrightarrow> \<not> prefix ''/'' (rel_path names)"
  by (cases names rule: remdups_adj.cases) (auto simp: rel_path_def proper_name_def prefix_Cons neq_Nil_conv)

lemma components_rel_path: "list_all proper_name names \<Longrightarrow> components_of (rel_path names) = map Normal names"
proof (cases "names = []")
  case True
  then show ?thesis by (simp add: rel_path_def components_of_def)
next
  case False
  assume p: "list_all proper_name names"
  have "filter (\<lambda>s. s \<noteq> [] \<and> s \<noteq> ''.'') names = names" "map component_of names = map Normal names" "hd names \<noteq> ''.''"
    using p False by (auto simp: list_all_iff proper_name_def component_of_def neq_Nil_conv intro: filter_True)
  then show ?thesis using split_rel_path [OF p False] rel_path_head [OF p] by (simp add: components_of_def Let_def)
qed

lemma join_rel_path:
  assumes "list_all proper_name names" "proper_name n"
  shows "path_join (rel_path names) n = rel_path (names @ [n])"
proof -
  have j: "join_str ''/'' (xs @ [n]) = join_str ''/'' xs @ ''/'' @ n" if "xs \<noteq> []" for xs
    using that by (induction "''/'' :: string" xs rule: join_str.induct) auto
  have l: "\<not> suffix ''/'' (rel_path names)" if ne: "names \<noteq> []"
  proof
    assume "suffix ''/'' (rel_path names)"
    then obtain p where "rel_path names = p @ CHR ''/'' # []" by (auto simp: suffix_def)
    then have "last (split_char CHR ''/'' (rel_path names)) = []" by (simp only: split_char_at) simp
    then show False using split_rel_path [OF assms(1) ne] assms(1) ne by (auto simp: list_all_iff proper_name_def)
  qed
  have n: "\<not> prefix ''/'' n" using assms(2) by (cases n) (auto simp: proper_name_def)
  show ?thesis
  proof (cases "names = []")
    case True
    then show ?thesis using n by (simp add: path_join_def rel_path_def)
  next
    case False
    have "rel_path names \<noteq> []"
    proof
      assume "rel_path names = []"
      then have "names = [[]]" using split_rel_path [OF assms(1) False] by simp
      then show False using assms(1) by (simp add: proper_name_def)
    qed
    then show ?thesis using n l [OF False] j [OF False] by (simp add: path_join_def rel_path_def)
  qed
qed

lemma entry_proper: "n \<in> set (entry_names w dir) \<Longrightarrow> proper_name n"
  using child_name_ok by (auto simp: proper_name_def)

lemma io_each_reads:
  assumes "\<And>x. reads_only (f x)" "io_each f xs w = (Inr u, w')"
  shows "w' = w \<and> (\<forall>x \<in> set xs. f x w = (Inr (), w))"
  using assms(2)
proof (induction xs arbitrary: u)
  case Nil
  then show ?case by (simp add: io_simps)
next
  case (Cons x xs)
  then obtain w1 where x: "f x w = (Inr (), w1)" "io_each f xs w1 = (Inr u, w')" by (auto simp: io_simps)
  moreover have "w1 = w" using reads_onlyD [OF assms(1) x(1)] .
  ultimately show ?case using Cons.IH by simp
qed

lemma reads_only_then':
  assumes "reads_only m" "\<And>x w w'. m w = (Inr x, w') \<Longrightarrow> reads_only (f x)"
  shows "reads_only (then_io m f)"
  unfolding reads_only_def
proof
  fix w
  obtain r w1 where r: "m w = (r, w1)" by fastforce
  have "w1 = w" by (rule reads_onlyD [OF assms(1) r])
  then show "snd (then_io m f w) = w"
    using r assms(2) [of w] by (cases r) (auto simp: then_io_def reads_only_def)
qed

lemma reads_only_each':
  "(\<And>x. x \<in> set xs \<Longrightarrow> reads_only (f x)) \<Longrightarrow> reads_only (io_each f xs)"
  by (induction xs) auto

lemma reads_only_if':
  "(c \<Longrightarrow> reads_only m) \<Longrightarrow> (\<not> c \<Longrightarrow> reads_only m') \<Longrightarrow> reads_only (if c then m else m')"
  by simp

lemma reject_links_reads: "reads_only (reject_escaping_links h root rel a d)"
proof (induction h root rel a d rule: reject_escaping_links.induct)
  case (1 h root rel a d)
  show ?case
    apply (subst reject_escaping_links.simps)
    apply (intro reads_only_then' reads_only_each' reads_only_if' reads_only_entries reads_only_steps)
    subgoal for ns w w' name node v v'
      by (cases node) (auto intro: "1.IH")
    done
qed

text \<open>What the check has looked at: each entry of each directory it walks.\<close>

lemma reject_links_entry:
  assumes "reject_escaping_links h root rel a d w = (Inr u, w')"
    and "name \<in> set (entry_names w (canon h (path_join root rel)))" and "entry_at h (path_join root rel) name w = Some node"
    and "\<not> (a \<and> name \<in> set IMAGE_RELATIVE_SUBTREES)"
  shows "case node of Link target \<Rightarrow> \<not> escapes_root rel target
    | Directory \<Rightarrow> reject_escaping_links h root (path_join rel name) d (a \<and> name = MKOSI_CONF_D) w = (Inr (), w)
    | Regular _ \<Rightarrow> True"
proof -
  let ?f = "\<lambda>name. then_io (read_entry h (path_join root rel) name) (\<lambda>node.
       if a \<and> name \<in> set IMAGE_RELATIVE_SUBTREES then io_check (\<not> is_link node) (SubtreeIsLink name)
       else case node of
           Link target \<Rightarrow> io_check (\<not> escapes_root rel target) (LinkEscapes (path_join rel name) target)
         | Directory \<Rightarrow> reject_escaping_links h root (path_join rel name) d (a \<and> name = MKOSI_CONF_D)
         | Regular _ \<Rightarrow> io_return ())"
  have r: "reads_only (?f n)" for n
    by (intro reads_only_then' reads_only_if' reads_only_entries reads_only_steps)
      (auto intro: reject_links_reads split: node.splits)
  have "io_each ?f (entry_names w (canon h (path_join root rel))) w = (Inr u, w')"
    using assms(1) by (subst (asm) reject_escaping_links.simps) (auto simp: then_io_Inr read_dir_Inr)
  from io_each_reads [OF r this] have "?f name w = (Inr (), w)" using assms(2) by blast
  then show ?thesis using assms(3,4) by (cases node) (auto simp: io_simps)
qed


text \<open>A profile with one dropin directory, and in it a link to the scripts of the profile.\<close>

definition linked_profile :: world where
  "linked_profile =
     [(''/p'', Directory), (''/p/mkosi.conf.d'', Directory), (''/p/mkosi.conf.d/a'', Link ''../scripts/a.sh'')]"

definition linked_host :: host where
  "linked_host = (sample_host (\<lambda>_ w. (sample_fetch, w))) \<lparr> canon := (\<lambda>p. if p = ''/p/'' then ''/p'' else p) \<rparr>"


section \<open>What a sweep removes\<close>

definition staged :: "host \<Rightarrow> string \<Rightarrow> world \<Rightarrow> string \<Rightarrow> bool" where
  "staged h root w n \<longleftrightarrow>
     entry_at h root n w = Some Directory \<and> path_is_file h (path_join (path_join root n) STAGED_PROFILE_MARKER) w"

text \<open>A machine that refuses nothing, and a directory without links on the way to its profiles.\<close>

definition open_tree :: "host \<Rightarrow> string \<Rightarrow> bool" where
  "open_tree h root \<longleftrightarrow> (\<forall>a p w. \<not> denied h a p w)
     \<and> (\<forall>n. proper_name n \<longrightarrow> canon h (path_join root n) = path_join (canon h root) n
          \<and> canon h (path_join (path_join root n) STAGED_PROFILE_MARKER)
            = path_join (path_join (canon h root) n) STAGED_PROFILE_MARKER)"

lemma proper_join: "proper_name n \<Longrightarrow> \<exists>x. (\<forall>m. proper_name m \<longrightarrow> path_join p m = x @ m)"
  by (intro exI [of _ "if p = [] \<or> suffix ''/'' p then p else p @ ''/''"])
    (auto simp: path_join_def proper_name_def prefix_Cons neq_Nil_conv)

lemma same_first: "CHR ''/'' \<notin> set n \<Longrightarrow> CHR ''/'' \<notin> set m \<Longrightarrow> prefix (n @ ''/'') (m @ CHR ''/'' # r) \<Longrightarrow> n = m"
proof (induction n arbitrary: m)
  case Nil
  then show ?case by (cases m) auto
next
  case (Cons c n)
  then show ?case by (cases m) auto
qed

lemma below_other:
  assumes "proper_name n" "proper_name m" "n \<noteq> m"
  shows "\<not> below (path_join p n) (path_join p m)" "\<not> below (path_join p n) (path_join (path_join p m) STAGED_PROFILE_MARKER)"
proof -
  obtain x where x: "path_join p k = x @ k" if "proper_name k" for k using proper_join [OF assms(1)] by blast
  have "last (x @ m) \<noteq> CHR ''/''" using assms(2) last_in_set [of m] by (metis last_appendR proper_name_def)
  then have "\<not> suffix ''/'' (x @ m)" by (auto simp: suffix_def)
  then have m: "path_join (path_join p m) STAGED_PROFILE_MARKER = x @ m @ ''/'' @ STAGED_PROFILE_MARKER"
    using x [OF assms(2)] assms(2) by (simp add: path_join_def STAGED_PROFILE_MARKER_def proper_name_def)
  have s: "CHR ''/'' \<notin> set n" "CHR ''/'' \<notin> set m" using assms(1,2) by (simp_all add: proper_name_def)
  show "\<not> below (path_join p n) (path_join p m)"
    using assms s x by (auto simp: below_def elim!: prefixE)
  show "\<not> below (path_join p n) (path_join (path_join p m) STAGED_PROFILE_MARKER)"
    using assms(3) s same_first [OF s] unfolding below_def m x [OF assms(1)]
    by (auto simp: append_eq_append_conv2 Cons_eq_append_conv)
qed

lemma sweep_entry_step:
  assumes "sweep_entry h root n w = (Inr u, w')" "open_tree h root" "proper_name n"
  shows "w' = (if staged h root w n then filter (\<lambda>(q, _). \<not> below (path_join (canon h root) n) q) w else w)"
proof -
  have o: "\<not> denied h a p v" "canon h (path_join root n) = path_join (canon h root) n" for a p v
    using assms(2,3) by (simp_all add: open_tree_def)
  show ?thesis
    using assms(1) o
    by (auto simp: sweep_entry_def Let_def io_simps staged_def force_remove_dir_all_def remove_dir_all_def path_exists_def
        node_at_def entry_at_def entry_path_def split: if_splits)
qed

lemma staged_other:
  assumes "proper_name n" "proper_name m" "n \<noteq> m" "open_tree h root"
  shows "staged h root (filter (\<lambda>(q, _). \<not> below (path_join (canon h root) n) q) w) m \<longleftrightarrow> staged h root w m"
proof -
  have "canon h (path_join (path_join root m) STAGED_PROFILE_MARKER) = path_join (path_join (canon h root) m) STAGED_PROFILE_MARKER"
    using assms(2,4) by (simp add: open_tree_def)
  then show ?thesis
    using below_other [OF assms(1-3), of "canon h root"] assms(4)
    by (simp add: staged_def entry_at_def entry_path_def path_is_file_def node_at_def bt_get_filter open_tree_def)
qed

lemma sweep_entries:
  assumes "io_each (sweep_entry h root) ns w = (Inr u, w')" "open_tree h root" "list_all proper_name ns" "distinct ns"
  shows "bt_get w' q = (if \<exists>n \<in> set ns. staged h root w n \<and> below (path_join (canon h root) n) q then None else bt_get w q)"
  using assms(1,3,4)
proof (induction ns arbitrary: w)
  case Nil
  then show ?case by (simp add: io_simps)
next
  case (Cons n ns)
  let ?f = "filter (\<lambda>(q, _). \<not> below (path_join (canon h root) n) q) w"
  obtain w1 where w1: "sweep_entry h root n w = (Inr (), w1)" "io_each (sweep_entry h root) ns w1 = (Inr u, w')"
    using Cons.prems(1) by (auto simp: io_simps)
  have p: "proper_name n" "list_all proper_name ns" "distinct ns" "n \<notin> set ns" using Cons.prems by simp_all
  have s: "w1 = (if staged h root w n then ?f else w)" by (rule sweep_entry_step [OF w1(1) assms(2) p(1)])
  have k: "staged h root w1 m \<longleftrightarrow> staged h root w m" if "m \<in> set ns" for m
  proof -
    have "proper_name m" "n \<noteq> m" using that p(2,4) by (auto simp: list_all_iff)
    then show ?thesis using staged_other [OF p(1) _ _ assms(2)] s by simp
  qed
  have "bt_get w' q = (if \<exists>m \<in> set ns. staged h root w m \<and> below (path_join (canon h root) m) q then None else bt_get w1 q)"
    using Cons.IH [OF w1(2) p(2,3)] k by auto
  then show ?case using s by (auto simp: bt_get_filter)
qed

text \<open>
  The sweep before a build removes exactly the profiles that carry the marker of staging, with all they hold; every
  other file, above all the profiles of the repository, stays as it is.
\<close>

theorem sweep_removes_staged:
  assumes "sweep_stale_staged_profiles h root w = (Inr (), w')" and "open_tree h root"
  shows "bt_get w' q =
    (if \<exists>n \<in> set (entry_names w (canon h root)). node_at h w root = Some Directory \<and> staged h root w n
          \<and> below (path_join (canon h root) n) q
     then None else bt_get w q)"
proof (cases "node_at h w root = None")
  case True
  then show ?thesis using assms by (auto simp: sweep_stale_staged_profiles_def open_tree_def)
next
  case False
  then have e: "io_each (sweep_entry h root) (entry_names w (canon h root)) w = (Inr (), w')" "node_at h w root = Some Directory"
    using assms(1) by (auto simp: sweep_stale_staged_profiles_def then_io_Inr read_dir_Inr split: if_splits)
  have "list_all proper_name (entry_names w (canon h root))" using entry_proper by (auto simp: list_all_iff)
  moreover have "distinct (entry_names w (canon h root))" by (simp add: entry_names_def child_names_def)
  ultimately show ?thesis using sweep_entries [OF e(1) assms(2)] e(2) by simp
qed

definition stale_profile :: world where
  "stale_profile =
     [(''/r'', Directory), (''/r/x'', Directory), (''/r/x/.confos-staged-profile'', Regular [])]"

lemma sweep_removes_staged_witness:
  "\<exists>h w'. sweep_stale_staged_profiles h ''/r'' stale_profile = (Inr (), w') \<and> bt_get w' ''/r/x'' = None"
proof -
  let ?h = "sample_host (\<lambda>_ w. (sample_fetch, w))"
  have n: "entry_names stale_profile ''/r'' = [''x'']" by code_simp
  have j: "path_join ''/r'' ''x'' = ''/r/x''" "path_join ''/r/x'' STAGED_PROFILE_MARKER = ''/r/x/.confos-staged-profile''"
    by code_simp+
  have g: "bt_get stale_profile ''/r'' = Some Directory" "bt_get stale_profile ''/r/x'' = Some Directory"
    "bt_get stale_profile ''/r/x/.confos-staged-profile'' = Some (Regular [])"
    by (simp_all add: stale_profile_def bt_get_def)
  have o: "open_tree ?h ''/r''" by (simp add: open_tree_def sample_host_def)
  have d: "read_dir ?h ''/r'' stale_profile = (Inr [''x''], stale_profile)" "node_at ?h stale_profile ''/r'' = Some Directory"
    by (simp_all add: read_dir_def node_at_def sample_host_def g n PATH_MAX_def)
  have s: "staged ?h ''/r'' stale_profile ''x''"
    by (simp add: staged_def entry_at_def entry_path_def path_is_file_def node_at_def sample_host_def j g)
  obtain w' where e: "sweep_entry ?h ''/r'' ''x'' stale_profile = (Inr (), w')"
    by (simp add: sweep_entry_def Let_def then_io_def read_entry_def entry_at_def entry_path_def io_get_def path_is_file_def node_at_def
        force_remove_dir_all_def remove_dir_all_def path_exists_def sample_host_def j g)
  have r: "sweep_stale_staged_profiles ?h ''/r'' stale_profile = (Inr (), w')"
    by (simp add: sweep_stale_staged_profiles_def d then_io_def e io_return_def)
  have "below (path_join (canon ?h ''/r'') ''x'') ''/r/x''" by (simp add: sample_host_def j below_def)
  then have "bt_get w' ''/r/x'' = None"
    using sweep_removes_staged [OF r o, of "''/r/x''"] s d(2) by (simp add: sample_host_def n)
  then show ?thesis using r by blast
qed

end
