(* ===== verification/ImageBuild.thy ===== *)
theory ImageBuild
  imports Profiles
begin

text \<open>
  \<open>run\<close> of \<open>src/commands/build.rs\<close> and its helpers: an image from the kernel, the initrd and the mkosi build to the
  manifest.  mkosi, sudo and the kernel container are external commands; the lock of the checkout, the user that owns
  the output and the codecs are parameters.
\<close>

declare content_eq [simp del]

section \<open>Helpers\<close>

text \<open>The line of a checksum file: a sum, white space, an optional \<open>*\<close>, a name.\<close>

fun split_ws :: "string \<Rightarrow> (string \<times> string) option" where
  "split_ws [] = None"
| "split_ws (c # s) =
     (case strip_ws (c # s) of
        Some rest \<Rightarrow> Some ([], rest)
      | None \<Rightarrow> map_option (\<lambda>(a, b). (c # a, b)) (split_ws s))"

definition checksum_entry :: "string \<Rightarrow> (string \<times> string) option" where
  "checksum_entry line =
     map_option (\<lambda>(checksum, name).
       (checksum, case strip_prefix ''*'' (trim_start name) of Some n \<Rightarrow> n | None \<Rightarrow> trim_start name)) (split_ws line)"

definition valid_sha256 :: "string \<Rightarrow> bool" where
  "valid_sha256 s \<longleftrightarrow> length s = 64 \<and> list_all is_ascii_hexdigit s"

fun checksum_scan :: "string \<Rightarrow> string list \<Rightarrow> string option \<Rightarrow> build_error fault + string option" where
  "checksum_scan filename [] found = Inr found"
| "checksum_scan filename (line # lines) found =
     (case checksum_entry line of
        None \<Rightarrow> checksum_scan filename lines found
      | Some (checksum, name) \<Rightarrow>
          if name \<noteq> filename then checksum_scan filename lines found
          else if \<not> valid_sha256 checksum then bail (BadChecksum checksum)
          else if found \<noteq> None then bail (DuplicateChecksum filename)
          else checksum_scan filename lines (Some (to_ascii_lowercase checksum)))"

definition checksum_for_file :: "string \<Rightarrow> string \<Rightarrow> build_error fault + string" where
  "checksum_for_file contents filename =
     (if \<not> valid_str contents then bail ChecksumNotUtf8
      else and_then (checksum_scan filename (str_lines contents) None)
        (\<lambda>found. ok_or (Err (ChecksumNotFound filename)) found))"

text \<open>The time stamp of a gzip member is in the bytes 4 to 8.\<close>

definition gzip_head :: string where "gzip_head = [CHR 0x1F, CHR 0x8B, CHR 0x08]"

definition zero_mtime :: "string \<Rightarrow> string" where
  "zero_mtime c = take 4 c @ replicate 4 (CHR 0x00) @ drop 8 c"

definition zero_gzip_mtime :: "host \<Rightarrow> string \<Rightarrow> unit build_io" where
  "zero_gzip_mtime h p =
     then_io (read_bytes h p) (\<lambda>c.
     if length c < 4 then io_fail (Io p)
     else
       then_io (io_check (take 3 c = gzip_head) (NotGzip p)) (\<lambda>_.
       write_bytes h p (zero_mtime c)))"

definition prepare_initrd :: "host \<Rightarrow> string \<Rightarrow> string \<Rightarrow> string build_io" where
  "prepare_initrd h dir mkosi_initrd =
     (let normalized = path_join dir ''initrd.img'' in
      then_io (copy_file h mkosi_initrd normalized) (\<lambda>_.
      then_io (zero_gzip_mtime h normalized) (\<lambda>_.
      canonicalize h normalized)))"

definition inject_cloud_init :: "host \<Rightarrow> string \<Rightarrow> string \<Rightarrow> unit build_io" where
  "inject_cloud_init h user_data seed_dir =
     then_io (create_dir_all h seed_dir) (\<lambda>_.
     then_io (copy_file h user_data (path_join seed_dir ''user-data'')) (\<lambda>_.
     write_bytes h (path_join seed_dir ''meta-data'')
       (''instance-id: confos-sealed'' @ [CHR 0x0A] @ ''local-hostname: confos'' @ [CHR 0x0A])))"

definition image_kernel_inputs :: "kernel_manifest \<Rightarrow> image_kernel" where
  "image_kernel_inputs k =
     (let i = km_inputs k in
      \<lparr> ik_linux_version = km_linux_version k, ik_vmlinuz = km_vmlinuz_sha256 k, ik_required_config = fp_required_config i,
        ik_hardening_config = fp_hardening_config i, ik_extra_config = fp_extra_config i,
        ik_snapshot_config = fp_snapshot_config i, ik_module_signing_cert = fp_module_signing_cert i,
        ik_randstruct_seed = fp_randstruct_seed i, ik_trusted_dsdt = fp_trusted_dsdt i,
        ik_trusted_aml_patch = fp_trusted_aml_patch i, ik_snp_mr_patch = Some (fp_snp_mr_patch i) \<rparr>)"

section \<open>Arguments\<close>

record build_args =
  ba_name :: string
  ba_cloud_init :: "string option"
  ba_extra :: "string option"
  ba_packages :: "string list"
  ba_fragment :: "string option"
  ba_signing_cert :: "string option"
  ba_kernel_packages :: "string list"
  ba_script :: "string option"
  ba_platform :: build_platform
  ba_skip_igvm :: bool
  ba_firmware :: string
  ba_tdx_firmware :: string
  ba_memory :: string
  ba_smp :: "nat list"
  ba_profiles :: "string list"
  ba_profile_dirs :: "string list"
  ba_sync_inputs :: "sync_input list"

text \<open>What the build takes from outside: the codecs, the hash and the tools of the libraries, the lock, the user.\<close>

record build_env =
  be_igvm :: igvm_env
  be_manifest :: manifest_codec
  be_kernel :: json_codec
  be_tdx :: "bytes \<Rightarrow> bytes \<Rightarrow> bytes option \<Rightarrow> (cli_error fault + uki_measurement) option"
  be_lock_free :: "world \<Rightarrow> bool"
  be_user :: string

definition resolve_platform :: "build_args \<Rightarrow> build_error fault + build_platform" where
  "resolve_platform args =
     (if ba_skip_igvm args then (if ba_platform args = OnlySnp then bail IncoherentPlatform else Inr OnlyTdx)
      else Inr (ba_platform args))"

definition need_path :: "host \<Rightarrow> string \<Rightarrow> build_error \<Rightarrow> unit build_io" where
  "need_path h p e = then_io (io_get (path_exists h p)) (\<lambda>there. io_check there e)"

text \<open>The size of a file is only printed, but the file has to be there.\<close>

definition human_size :: "host \<Rightarrow> string \<Rightarrow> unit build_io" where
  "human_size h p = then_io (io_get (path_exists h p)) (\<lambda>there. if there then io_return () else io_fail (Io p))"

definition check_option :: "string option \<Rightarrow> (string \<Rightarrow> unit build_io) \<Rightarrow> unit build_io" where
  "check_option x f = (case x of None \<Rightarrow> io_return () | Some p \<Rightarrow> f p)"

text \<open>Everything that is checked before the repository is touched.\<close>

definition check_args :: "host \<Rightarrow> build_args \<Rightarrow> build_platform build_io" where
  "check_args h args =
     then_io (io_of (resolve_platform args)) (\<lambda>platform.
     then_io (if needs_snp platform then need_path h (ba_firmware args) (SnpFirmwareMissing (ba_firmware args))
              else io_return ()) (\<lambda>_.
     then_io (if needs_tdx platform then need_path h (ba_tdx_firmware args) (TdxFirmwareMissing (ba_tdx_firmware args))
              else io_return ()) (\<lambda>_.
     then_io (io_of (map_err FromQemu (validate_memory (ba_memory args)))) (\<lambda>_.
     then_io (check_option (ba_cloud_init args) (\<lambda>p. need_path h p (CloudInitMissing p))) (\<lambda>_.
     then_io (check_option (ba_extra args) (\<lambda>p.
       then_io (need_path h p (ExtraMissing p)) (\<lambda>_.
       then_io (io_get (path_is_dir h p)) (\<lambda>d. io_check d (ExtraNotDir p))))) (\<lambda>_.
     then_io (check_option (ba_script args) (\<lambda>p.
       then_io (need_path h p (ScriptMissing p)) (\<lambda>_.
       then_io (io_get (path_is_file h p)) (\<lambda>f. io_check f (ScriptNotFile p))))) (\<lambda>_.
     io_return platform)))))))"

definition BUILD_LOCK :: string where "BUILD_LOCK = ''.confos-build.lock''"

definition lock_checkout :: "host \<Rightarrow> build_env \<Rightarrow> unit build_io" where
  "lock_checkout h env =
     then_io (write_bytes h BUILD_LOCK []) (\<lambda>_.
     then_io (io_get (be_lock_free env)) (\<lambda>free. io_check free BuildRunning))"

text \<open>\<open>RemoveDirOnDrop\<close>: the directory goes whatever the outcome.\<close>

definition remove_on_drop :: "host \<Rightarrow> string \<Rightarrow> 'a build_io \<Rightarrow> 'a build_io" where
  "remove_on_drop h dir m = (\<lambda>w. case m w of (r, w') \<Rightarrow> (r, drop_guards h [dir] w'))"

section \<open>The output directory\<close>

text \<open>\<open>symlink_metadata\<close> of a path, its last component not followed.\<close>

definition link_node :: "host \<Rightarrow> string \<Rightarrow> world \<Rightarrow> node option" where
  "link_node h p w = (case file_name p of None \<Rightarrow> node_at h w p | Some n \<Rightarrow> entry_at h (parent_dir p) n w)"

definition prepare_output :: "host \<Rightarrow> string \<Rightarrow> string build_io" where
  "prepare_output h name =
     (let dir = path_join ''output'' name in
      then_io (io_get (\<lambda>w. denied h Look dir w)) (\<lambda>refused.
      if refused then io_fail (Io dir)
      else
        then_io (io_get (path_exists h dir)) (\<lambda>there.
        then_io
          (if \<not> there then io_return ()
           else
             then_io (io_get (link_node h dir)) (\<lambda>n.
             case n of
               Some (Link _) \<Rightarrow> io_of (bail (OutputIsSymlink name))
             | _ \<Rightarrow> remove_dir_all h dir)) (\<lambda>_.
        then_io (create_dir_all h dir) (\<lambda>_.
        canonicalize h dir)))))"

section \<open>The mkosi build\<close>

definition MKOSI_EXTRA :: string where "MKOSI_EXTRA = ''mkosi/base/mkosi.local/mkosi.extra''"

definition stage_kernel :: "host \<Rightarrow> kernel_artifact \<Rightarrow> unit build_io" where
  "stage_kernel h k =
     (let dir = path_join (MKOSI_EXTRA @ ''/usr/lib/modules'') (artifact_version k) in
      then_io (create_dir_all h dir) (\<lambda>_.
      copy_file h (vmlinuz_path k) (path_join dir ''vmlinuz'')))"

definition build_initrd :: "host \<Rightarrow> string \<Rightarrow> string build_io" where
  "build_initrd h output =
     then_io (need_path h ''mkosi/initrd'' InitrdConfigMissing) (\<lambda>_.
     then_io (run_mkosi h [''--directory'', ''mkosi/initrd'', ''--force'']) (\<lambda>_.
     then_io (canonicalize h ''mkosi/initrd/mkosi.output/image.cpio.gz'') (\<lambda>mkosi_initrd.
     then_io (prepare_initrd h output mkosi_initrd) (\<lambda>initrd_path.
     then_io (human_size h initrd_path) (\<lambda>_.
     io_return initrd_path)))))"

definition postinst_args :: "host \<Rightarrow> string option \<Rightarrow> string list build_io" where
  "postinst_args h path =
     (case path of
        None \<Rightarrow> io_return []
      | Some p \<Rightarrow> then_io (canonicalize h p) (\<lambda>c. io_return [''--postinst-script='' @ c, ''--with-network=yes'']))"

definition run_image_mkosi :: "host \<Rightarrow> build_args \<Rightarrow> string list \<Rightarrow> string \<Rightarrow> unit build_io" where
  "run_image_mkosi h args profiles initrd_path =
     then_io (need_path h ''mkosi/base'' MkosiConfigMissing) (\<lambda>_.
     then_io (create_dir_all h ''mkosi/base/mkosi.output'') (\<lambda>_.
     then_io (postinst_args h (ba_script args)) (\<lambda>postinst.
     run_mkosi h ([''--directory'', ''mkosi/base'', ''--force'', ''--initrd'', initrd_path]
       @ map (\<lambda>p. ''--package='' @ p) (ba_packages args) @ postinst
       @ map (\<lambda>p. ''--profile='' @ p) profiles))))"

definition valid_roothash :: "string \<Rightarrow> bool" where
  "valid_roothash r \<longleftrightarrow> length r \<in> {64, 96, 128} \<and> list_all is_ascii_hexdigit r"

text \<open>
  The root hash in lower case.  The Unicode mapping of the code makes no hexadecimal digit of another character, so
  the ASCII one accepts the same texts.
\<close>

definition take_artifacts :: "host \<Rightarrow> build_env \<Rightarrow> string \<Rightarrow> unit build_io" where
  "take_artifacts h env output =
     (let uki_path = ''mkosi/base/mkosi.output/image.efi''; roothash_path = ''mkosi/base/mkosi.output/image.roothash'' in
      then_io (need_path h uki_path UkiNotBuilt) (\<lambda>_.
      then_io (need_path h ''mkosi/base/mkosi.output/image.raw'' ImageNotBuilt) (\<lambda>_.
      then_io (sudo_mv h (be_user env) uki_path (path_join output ''uki.efi'')) (\<lambda>_.
      then_io (need_path h roothash_path RoothashNotBuilt) (\<lambda>_.
      then_io (sudo_chmod_readable h roothash_path) (\<lambda>_.
      then_io (read_to_string h roothash_path) (\<lambda>text.
      let roothash = to_ascii_lowercase (trim text) in
      then_io (io_check (valid_roothash roothash) (BadRoothash roothash)) (\<lambda>_.
      then_io (write_bytes h (path_join output ''roothash'') roothash) (\<lambda>_.
      human_size h (path_join output ''uki.efi''))))))))))"

section \<open>Measurements\<close>

definition read_firmware :: "host \<Rightarrow> bool \<Rightarrow> string \<Rightarrow> bytes option build_io" where
  "read_firmware h needed p =
     (if needed then then_io (read_bytes h p) (\<lambda>c. io_return (Some (as_bytes c))) else io_return None)"

definition build_variant ::
  "host \<Rightarrow> igvm_env \<Rightarrow> bytes \<Rightarrow> bytes \<Rightarrow> string \<Rightarrow> nat \<Rightarrow> snp_variant build_io" where
  "build_variant h env firmware uki output smp =
     (let igvm_path = path_join output (igvm_name smp) in
      then_io (io_of (map_err FromImage (build_snp env firmware uki smp))) (\<lambda>r.
      then_io (write_bytes h igvm_path (of_bytes (igvm_bytes r))) (\<lambda>_.
      then_io (human_size h igvm_path) (\<lambda>_.
      then_io (sha256_file h igvm_path) (\<lambda>sha.
      io_return (variant_of smp sha r))))))"

text \<open>The processor counts in order, each once.\<close>

fun build_variants :: "host \<Rightarrow> igvm_env \<Rightarrow> bytes \<Rightarrow> bytes \<Rightarrow> string \<Rightarrow> nat list \<Rightarrow> snp_variant list build_io" where
  "build_variants h env firmware uki output [] = io_return []"
| "build_variants h env firmware uki output (smp # smps) =
     then_io (io_check (smp \<noteq> 0) SmpZero) (\<lambda>_.
     then_io (build_variant h env firmware uki output smp) (\<lambda>v.
     then_io (build_variants h env firmware uki output smps) (\<lambda>vs.
     io_return (v # vs))))"

definition snp_variants_of ::
  "host \<Rightarrow> build_env \<Rightarrow> build_platform \<Rightarrow> bytes option \<Rightarrow> bytes \<Rightarrow> string \<Rightarrow> nat list \<Rightarrow> snp_variant list build_io" where
  "snp_variants_of h env platform firmware uki output smps =
     (if needs_snp platform then
        (case firmware of
           None \<Rightarrow> io_of (bail (SnpFirmwareMissing []))
         | Some firmware \<Rightarrow>
             let smps = remdups_adj (sort smps) in
             then_io (io_check (smps \<noteq> []) NoSmps) (\<lambda>_.
             build_variants h (be_igvm env) firmware uki output smps))
      else io_return [])"

definition measure_tdx :: "build_env \<Rightarrow> bytes \<Rightarrow> bytes \<Rightarrow> bytes \<Rightarrow> uki_measurement build_io" where
  "measure_tdx env firmware uki disk =
     (case be_tdx env firmware uki (Some disk) of
        None \<Rightarrow> io_of (bail Diverges)
      | Some r \<Rightarrow> io_of (map_err FromTdx r))"

definition tdx_block ::
  "host \<Rightarrow> build_env \<Rightarrow> build_args \<Rightarrow> build_platform \<Rightarrow> bytes option \<Rightarrow> bytes \<Rightarrow> string
    \<Rightarrow> tdx_measurement option build_io" where
  "tdx_block h env args platform firmware uki disk_path =
     (if needs_tdx platform then
        (case firmware of
           None \<Rightarrow> io_of (bail (TdxFirmwareMissing []))
         | Some firmware \<Rightarrow>
             then_io (read_bytes h disk_path) (\<lambda>disk.
             then_io (measure_tdx env firmware uki (as_bytes disk)) (\<lambda>m.
             then_io (sha256_file h (ba_tdx_firmware args)) (\<lambda>sha.
             io_return (Some \<lparr> tm_mrtd = mrtd_hex m, tm_rtmr1 = rtmr1_hex m, tm_rtmr2 = rtmr2_hex m,
               tm_firmware = Some \<lparr> fe_path = ''OVMF.tdx.fd'', fe_sha256 = sha \<rparr> \<rparr>)))))
      else io_return None)"

definition copy_firmware :: "host \<Rightarrow> bool \<Rightarrow> string \<Rightarrow> string \<Rightarrow> unit build_io" where
  "copy_firmware h needed firmware dst = (if needed then copy_file h firmware dst else io_return ())"

definition platform_tag :: "build_platform \<Rightarrow> string" where
  "platform_tag p = (case p of OnlySnp \<Rightarrow> ''snp'' | OnlyTdx \<Rightarrow> ''tdx'' | BothPlatforms \<Rightarrow> ''multi'')"

section \<open>The manifest\<close>

definition firmware_entry :: "host \<Rightarrow> build_platform \<Rightarrow> string \<Rightarrow> file_entry option build_io" where
  "firmware_entry h platform firmware =
     (if needs_snp platform then
        then_io (sha256_file h firmware) (\<lambda>sha. io_return (Some \<lparr> fe_path = ''OVMF.fd'', fe_sha256 = sha \<rparr>))
      else io_return None)"

definition write_image_manifest ::
  "host \<Rightarrow> build_env \<Rightarrow> build_args \<Rightarrow> build_platform \<Rightarrow> kernel_manifest \<Rightarrow> string \<Rightarrow> string \<Rightarrow> string
    \<Rightarrow> snp_variant list \<Rightarrow> tdx_measurement option \<Rightarrow> build_manifest build_io" where
  "write_image_manifest h env args platform kman output initrd_path base_abs variants tdx =
     then_io (read_bytes h ''mkosi/base/mkosi.output/image.SHA256SUMS'') (\<lambda>sums.
     then_io (io_of (checksum_for_file sums ''image.raw'')) (\<lambda>disk_checksum.
     then_io (sha256_file h initrd_path) (\<lambda>initrd_hash.
     then_io (sha256_file h (path_join output ''uki.efi'')) (\<lambda>uki_hash.
     then_io (io_of (basename_of initrd_path)) (\<lambda>initrd_name.
     then_io (firmware_entry h platform (ba_firmware args)) (\<lambda>firmware.
     then_io (io_of (basename_of base_abs)) (\<lambda>base_name.
     let m = \<lparr> bm_version = MANIFEST_VERSION,
       bm_build = \<lparr> ib_timestamp = now h, ib_memory = ba_memory args, ib_format = ''raw'', ib_platform = platform_tag platform \<rparr>,
       bm_inputs = \<lparr> ii_kernel = Some (image_kernel_inputs kman),
         ii_initrd = \<lparr> fe_path = initrd_name, fe_sha256 = initrd_hash \<rparr>, ii_firmware = firmware,
         ii_base_image = \<lparr> fe_path = base_name, fe_sha256 = disk_checksum \<rparr> \<rparr>,
       bm_outputs = \<lparr> io_disk = \<lparr> fe_path = ''disk.raw'', fe_sha256 = disk_checksum \<rparr>,
         io_uki = \<lparr> fe_path = ''uki.efi'', fe_sha256 = uki_hash \<rparr> \<rparr>,
       bm_variants = variants, bm_tdx = tdx \<rparr> in
     then_io (write_manifest h (be_manifest env) m (path_join output ''manifest.json'')) (\<lambda>_.
     io_return m))))))))"

definition measure_image ::
  "host \<Rightarrow> build_env \<Rightarrow> build_args \<Rightarrow> build_platform \<Rightarrow> kernel_manifest \<Rightarrow> string \<Rightarrow> string \<Rightarrow> build_manifest build_io" where
  "measure_image h env args platform kman output initrd_path =
     then_io (read_firmware h (needs_snp platform) (ba_firmware args)) (\<lambda>snp_fw.
     then_io (read_firmware h (needs_tdx platform) (ba_tdx_firmware args)) (\<lambda>tdx_fw.
     then_io (read_bytes h (path_join output ''uki.efi'')) (\<lambda>uki.
     then_io (snp_variants_of h env platform snp_fw (as_bytes uki) output (ba_smp args)) (\<lambda>variants.
     then_io (copy_firmware h (needs_snp platform) (ba_firmware args) (path_join output ''OVMF.fd'')) (\<lambda>_.
     then_io (copy_firmware h (needs_tdx platform) (ba_tdx_firmware args) (path_join output ''OVMF.tdx.fd'')) (\<lambda>_.
     then_io (canonicalize h ''mkosi/base/mkosi.output/image.raw'') (\<lambda>base_abs.
     then_io (sudo_mv h (be_user env) base_abs (path_join output ''disk.raw'')) (\<lambda>_.
     then_io (tdx_block h env args platform tdx_fw (as_bytes uki) (path_join output ''disk.raw'')) (\<lambda>tdx.
     write_image_manifest h env args platform kman output initrd_path base_abs variants tdx)))))))))"

section \<open>The command\<close>

definition build_steps ::
  "host \<Rightarrow> build_env \<Rightarrow> build_args \<Rightarrow> build_platform \<Rightarrow> string \<Rightarrow> string list \<Rightarrow> build_manifest build_io" where
  "build_steps h env args platform output profiles =
     then_io (map_io FromKernel (ensure_kernel h (be_kernel env) False (ba_fragment args) (ba_signing_cert args)
       (ba_kernel_packages args))) (\<lambda>kart.
     then_io (stage_kernel h kart) (\<lambda>_.
     then_io (build_initrd h output) (\<lambda>initrd_path.
     then_io (run_image_mkosi h args profiles initrd_path) (\<lambda>_.
     then_io (take_artifacts h env output) (\<lambda>_.
     measure_image h env args platform (artifact_manifest kart) output initrd_path)))))"

definition build_staged :: "host \<Rightarrow> build_env \<Rightarrow> build_args \<Rightarrow> build_platform \<Rightarrow> build_manifest build_io" where
  "build_staged h env args platform =
     then_io (create_dir_all h MKOSI_EXTRA) (\<lambda>_.
     then_io (check_option (ba_extra args) (\<lambda>e. copy_tree h e MKOSI_EXTRA)) (\<lambda>_.
     then_io (resolve_mkosi h) (\<lambda>_.
     then_io (prepare_output h (ba_name args)) (\<lambda>output.
     then_io (check_option (ba_cloud_init args) (\<lambda>ci.
       inject_cloud_init h ci (MKOSI_EXTRA @ ''/var/lib/cloud/seed/nocloud''))) (\<lambda>_.
     with_staged_profiles h ''mkosi/base/mkosi.profiles'' (ba_profile_dirs args) (ba_profiles args)
       (build_steps h env args platform output))))))"

text \<open>The command with the measurement of the library.\<close>

definition with_tdx :: "(bytes \<Rightarrow> digest) \<Rightarrow> ('dir, 'file) fat_driver \<Rightarrow> build_env \<Rightarrow> build_env" where
  "with_tdx sha fat env = env \<lparr> be_tdx := measure_uki_topology_invariant sha fat \<rparr>"

definition build_run :: "host \<Rightarrow> build_env \<Rightarrow> build_args \<Rightarrow> build_manifest build_io" where
  "build_run h env args =
     then_io (check_args h args) (\<lambda>platform.
     then_io (lock_checkout h env) (\<lambda>_.
     then_io (sweep_stale_staged_profiles h ''mkosi/base/mkosi.profiles'') (\<lambda>_.
     then_io (write_sync_inputs h ''mkosi/base/mkosi.local'' (ba_sync_inputs args)) (\<lambda>_.
     remove_on_drop h ''mkosi/base/mkosi.local'' (build_staged h env args platform)))))"

section \<open>Checksums\<close>

definition sums_of :: "string \<Rightarrow> string list \<Rightarrow> string list" where
  "sums_of filename lines = map fst (filter (\<lambda>(s, n). n = filename) (List.map_filter checksum_entry lines))"

lemma sums_of_Cons:
  "sums_of filename (line # lines) =
     (case checksum_entry line of
        None \<Rightarrow> sums_of filename lines
      | Some (s, n) \<Rightarrow> if n = filename then s # sums_of filename lines else sums_of filename lines)"
  by (simp add: sums_of_def List.map_filter_def split: option.splits)

lemma checksum_scan_Some:
  "checksum_scan filename lines (Some x) = Inr y \<longleftrightarrow> sums_of filename lines = [] \<and> y = Some x"
  by (induction lines) (auto simp: sums_of_Cons sums_of_def List.map_filter_def split: option.splits)

lemma checksum_scan_None:
  "checksum_scan filename lines None = Inr y \<longleftrightarrow>
     (case sums_of filename lines of
        [] \<Rightarrow> y = None
      | [s] \<Rightarrow> valid_sha256 s \<and> y = Some (to_ascii_lowercase s)
      | _ \<Rightarrow> False)"
proof (induction lines)
  case Nil
  then show ?case by (auto simp: sums_of_def List.map_filter_def)
next
  case (Cons line lines)
  then show ?case
    by (auto simp: sums_of_Cons checksum_scan_Some split: option.splits list.splits)
qed

text \<open>
  C40. The checksum of a file is accepted exactly when one line, and only one, names the file, and its sum is a SHA-256 in
  hexadecimal; the result is that sum in lower case.
\<close>

theorem checksum_for_file_iff:
  "checksum_for_file contents filename = Inr c \<longleftrightarrow>
     valid_str contents \<and>
     (\<exists>s. sums_of filename (str_lines contents) = [s] \<and> valid_sha256 s \<and> c = to_ascii_lowercase s)"
  by (auto simp: checksum_for_file_def checksum_scan_None split: list.splits)

section \<open>Reproducible initrds\<close>

lemma zero_mtime_eq:
  assumes "8 \<le> length c" "8 \<le> length d"
  shows "zero_mtime c = zero_mtime d \<longleftrightarrow> take 4 c = take 4 d \<and> drop 8 c = drop 8 d"
  using assms by (auto simp: zero_mtime_def)

lemma zero_gzip_mtime_Inr:
  "zero_gzip_mtime h p w = (Inr u, w') \<longleftrightarrow>
     (\<exists>c. \<not> denied h Fetch p w \<and> node_at h w p = Some (Regular c) \<and> 4 \<le> length c \<and> take 3 c = gzip_head
        \<and> \<not> denied h Store p w \<and> w' = bt_insert (canon h p) (Regular (zero_mtime c)) w)"
  by (auto simp: zero_gzip_mtime_def io_simps not_less split: if_splits)

text \<open>
  C39. Two builds of the initrd that differ in the time stamp of the compression only are measured as one: the prepared
  initrds are the same file exactly when the originals agree outside the four bytes of the stamp.
\<close>

theorem prepared_initrds_agree:
  assumes "prepare_initrd h dir p w = (Inr r, w')" and "prepare_initrd h dir' p' v = (Inr r', v')"
    and "node_at h w p = Some (Regular c)" and "node_at h v p' = Some (Regular d)" and "8 \<le> length c" and "8 \<le> length d"
  shows "node_at h w' (path_join dir ''initrd.img'') = node_at h v' (path_join dir' ''initrd.img'')
    \<longleftrightarrow> take 4 c = take 4 d \<and> drop 8 c = drop 8 d"
proof -
  have n: "node_at h y (path_join o' ''initrd.img'') = Some (Regular (zero_mtime e))"
    if "prepare_initrd h o' q x = (Inr t, y)" "node_at h x q = Some (Regular e)" for o' q x t y e
    using that by (auto simp: prepare_initrd_def Let_def io_simps zero_gzip_mtime_Inr copy_file_def)
  show ?thesis
    using n [OF assms(1,3)] n [OF assms(2,4)] zero_mtime_eq [OF assms(5,6)] by simp
qed

section \<open>What an image manifest says\<close>

text \<open>The files that a build leaves, and the paths that moving the disk image must not touch.\<close>

definition image_files :: "string set" where
  "image_files = {''uki.efi'', ''OVMF.fd'', ''OVMF.tdx.fd'', ''disk.raw'', ''manifest.json''} \<union> range igvm_name"

definition clear_output :: "host \<Rightarrow> string \<Rightarrow> string set \<Rightarrow> bool" where
  "clear_output h output sources \<longleftrightarrow>
     inj_on (\<lambda>n. canon h (path_join output n)) image_files
     \<and> (\<forall>s \<in> sources. \<forall>n \<in> image_files. canon h s \<noteq> canon h (path_join output n))"

definition mv_local :: "host \<Rightarrow> string \<Rightarrow> string set \<Rightarrow> bool" where
  "mv_local h output sources \<longleftrightarrow>
     (\<forall>a argv v p. argv \<in> {[''sudo'', ''mv'', a, path_join output ''disk.raw''], [''sudo'', ''chown'', a, path_join output ''disk.raw'']}
        \<longrightarrow> p \<in> sources \<union> path_join output ` (image_files - {''disk.raw''})
        \<longrightarrow> node_at h (snd (exec h argv v)) p = node_at h v p)"

lemma igvm_name_outputs [simp]:
  "igvm_name n \<in> image_files" "igvm_name n \<noteq> ''disk.raw''" "igvm_name n \<noteq> ''OVMF.tdx.fd''"
  by (simp_all add: image_files_def igvm_name_def)

lemma image_files_members [simp]:
  "''uki.efi'' \<in> image_files" "''OVMF.fd'' \<in> image_files" "''OVMF.tdx.fd'' \<in> image_files" "''disk.raw'' \<in> image_files"
  "''manifest.json'' \<in> image_files"
  by (simp_all add: image_files_def)

lemma clear_eq:
  assumes "clear_output h output sources" "a \<in> image_files" "b \<in> image_files"
  shows "canon h (path_join output a) = canon h (path_join output b) \<longleftrightarrow> a = b"
  using assms inj_on_eq_iff [of "\<lambda>n. canon h (path_join output n)" image_files a b] by (simp add: clear_output_def)

lemma clear_source:
  assumes "clear_output h output sources" "s \<in> sources" "b \<in> image_files"
  shows "canon h s \<noteq> canon h (path_join output b)"
  using assms by (simp add: clear_output_def)

lemma sudo_mv_keeps:
  assumes "(sudo_mv h user a (path_join output ''disk.raw'') :: unit build_io) w = (Inr u, w')" "mv_local h output sources"
    and "p \<in> sources \<union> path_join output ` (image_files - {''disk.raw''})"
  shows "node_at h w' p = node_at h w p"
proof -
  obtain r1 w1 r2 where e: "exec h [''sudo'', ''mv'', a, path_join output ''disk.raw''] w = (r1, w1)"
    "exec h [''sudo'', ''chown'', user, path_join output ''disk.raw''] w1 = (r2, w')"
    using assms(1) by (auto simp: sudo_mv_def run_command_streaming_def io_simps)
  have "node_at h (snd (exec h argv v)) p = node_at h v p"
    if "argv \<in> {[''sudo'', ''mv'', b, path_join output ''disk.raw''], [''sudo'', ''chown'', b, path_join output ''disk.raw'']}"
    for argv b v
    using assms(2,3) that unfolding mv_local_def by blast
  then have "node_at h (snd (exec h [''sudo'', ''mv'', a, path_join output ''disk.raw''] w)) p = node_at h w p"
    "node_at h (snd (exec h [''sudo'', ''chown'', user, path_join output ''disk.raw''] w1)) p = node_at h w1 p"
    by blast+
  then show ?thesis using e by simp
qed

lemma build_variant_Inr:
  assumes "build_variant h env firmware uki output smp w = (Inr v, w')"
  shows "sv_smp v = smp" "derived env firmware uki v" "variant_on_disk h output w' v"
    "\<exists>c. w' = bt_insert (canon h (path_join output (igvm_name smp))) (Regular c) w"
  using assms
  by (auto simp: build_variant_def human_size_def Let_def io_simps variant_of_def derived_def variant_on_disk_def node_at_def split: if_splits)

lemma build_variants_Inr:
  assumes "build_variants h env firmware uki output smps w = (Inr vs, w')" and "clear_output h output sources" and "distinct smps"
  shows "map sv_smp vs = smps \<and> list_all (derived env firmware uki) vs
    \<and> list_all (variant_on_disk h output w') vs
    \<and> (\<forall>p. (\<forall>s. canon h p \<noteq> canon h (path_join output (igvm_name s))) \<longrightarrow> node_at h w' p = node_at h w p)
    \<and> (\<forall>s. s \<notin> set smps \<longrightarrow> node_at h w' (path_join output (igvm_name s)) = node_at h w (path_join output (igvm_name s)))"
  using assms(1,3)
proof (induction smps arbitrary: w vs)
  case Nil
  then show ?case by (simp add: io_simps)
next
  case (Cons s smps)
  obtain v w1 vs' where v: "build_variant h env firmware uki output s w = (Inr v, w1)"
    "build_variants h env firmware uki output smps w1 = (Inr vs', w')" "vs = v # vs'"
    using Cons.prems(1) by (auto simp: io_simps)
  note m = build_variant_Inr [OF v(1)]
  obtain c where c: "w1 = bt_insert (canon h (path_join output (igvm_name s))) (Regular c) w" using m(4) by blast
  have d: "distinct smps" "s \<notin> set smps" using Cons.prems(2) by simp_all
  note IH = Cons.IH [OF v(2) d(1)]
  have "variant_on_disk h output w' v"
    using m(1,3) IH d(2) by (simp add: variant_on_disk_def)
  moreover have "node_at h w1 p = node_at h w p" if "canon h p \<noteq> canon h (path_join output (igvm_name s))" for p
    using that unfolding c by simp
  moreover have "canon h (path_join output (igvm_name t)) \<noteq> canon h (path_join output (igvm_name s))" if "t \<noteq> s" for t
    using that clear_eq [OF assms(2)] by simp
  ultimately show ?case using m(1,2) IH v(3) by auto
qed

definition snp_described ::
  "host \<Rightarrow> igvm_env \<Rightarrow> string \<Rightarrow> nat list \<Rightarrow> string \<Rightarrow> build_manifest \<Rightarrow> world \<Rightarrow> bool" where
  "snp_described h env output smps u m w \<longleftrightarrow>
     (\<exists>f. node_at h w (path_join output ''OVMF.fd'') = Some (Regular f)
        \<and> ii_firmware (bm_inputs m) = Some \<lparr> fe_path = ''OVMF.fd'', fe_sha256 = hex_sha256 h f \<rparr>
        \<and> map sv_smp (bm_variants m) = remdups_adj (sort smps)
        \<and> list_all (derived env (as_bytes f) (as_bytes u)) (bm_variants m)
        \<and> list_all (variant_on_disk h output w) (bm_variants m))"

definition tdx_described ::
  "host \<Rightarrow> (bytes \<Rightarrow> digest) \<Rightarrow> ('dir, 'file) fat_driver \<Rightarrow> string \<Rightarrow> string \<Rightarrow> build_manifest \<Rightarrow> world \<Rightarrow> bool" where
  "tdx_described h sha fat output u m w \<longleftrightarrow>
     (\<exists>t d r. node_at h w (path_join output ''OVMF.tdx.fd'') = Some (Regular t)
        \<and> node_at h w (path_join output ''disk.raw'') = Some (Regular d)
        \<and> measure_uki_topology_invariant sha fat (as_bytes t) (as_bytes u) (Some (as_bytes d)) = Some (Inr r)
        \<and> bm_tdx m = Some \<lparr> tm_mrtd = mrtd_hex r, tm_rtmr1 = rtmr1_hex r, tm_rtmr2 = rtmr2_hex r,
             tm_firmware = Some \<lparr> fe_path = ''OVMF.tdx.fd'', fe_sha256 = hex_sha256 h t \<rparr> \<rparr>)"

lemma remdups_adj_sorted_distinct: "sorted (xs :: nat list) \<Longrightarrow> distinct (remdups_adj xs)"
  by (induction xs rule: remdups_adj.induct) auto

lemma snp_variants_of_Inr:
  assumes "snp_variants_of h env platform firmware uki output smps w = (Inr vs, w')" and "clear_output h output sources"
  shows "(if needs_snp platform then \<exists>f. firmware = Some f \<and> map sv_smp vs = remdups_adj (sort smps)
        \<and> list_all (derived (be_igvm env) f uki) vs \<and> list_all (variant_on_disk h output w') vs else vs = [])
    \<and> (\<forall>p. (\<forall>s. canon h p \<noteq> canon h (path_join output (igvm_name s))) \<longrightarrow> node_at h w' p = node_at h w p)"
proof (cases "needs_snp platform")
  case True
  then obtain f where f: "firmware = Some f"
    "build_variants h (be_igvm env) f uki output (remdups_adj (sort smps)) w = (Inr vs, w')"
    using assms(1) by (auto simp: snp_variants_of_def Let_def io_simps split: option.splits)
  have "distinct (remdups_adj (sort smps))" by (simp add: remdups_adj_sorted_distinct)
  from build_variants_Inr [OF f(2) assms(2) this] show ?thesis using True f(1) by auto
next
  case False
  then show ?thesis using assms(1) by (simp add: snp_variants_of_def io_simps)
qed

lemma copy_firmware_Inr:
  "copy_firmware h needed src dst w = (Inr u, w') \<Longrightarrow>
    (if needed then \<exists>c. node_at h w src = Some (Regular c) \<and> w' = bt_insert (canon h dst) (Regular c) w else w' = w)"
  by (auto simp: copy_firmware_def copy_file_def io_simps split: if_splits)

lemma tdx_block_Inr:
  assumes "tdx_block h (with_tdx sha fat env) args platform firmware uki disk w = (Inr t, w')"
  shows "w' = w \<and> (if needs_tdx platform then
      \<exists>f d r s. firmware = Some f \<and> node_at h w disk = Some (Regular d)
        \<and> measure_uki_topology_invariant sha fat f uki (Some (as_bytes d)) = Some (Inr r)
        \<and> node_at h w (ba_tdx_firmware args) = Some (Regular s)
        \<and> t = Some \<lparr> tm_mrtd = mrtd_hex r, tm_rtmr1 = rtmr1_hex r, tm_rtmr2 = rtmr2_hex r,
             tm_firmware = Some \<lparr> fe_path = ''OVMF.tdx.fd'', fe_sha256 = hex_sha256 h s \<rparr> \<rparr>
      else t = None)"
proof (cases "needs_tdx platform")
  case True
  then obtain f d r s where "firmware = Some f" "node_at h w disk = Some (Regular d)"
    "measure_tdx (with_tdx sha fat env) f uki (as_bytes d) w = (Inr r, w)"
    "node_at h w (ba_tdx_firmware args) = Some (Regular s)" "w' = w"
    "t = Some \<lparr> tm_mrtd = mrtd_hex r, tm_rtmr1 = rtmr1_hex r, tm_rtmr2 = rtmr2_hex r,
             tm_firmware = Some \<lparr> fe_path = ''OVMF.tdx.fd'', fe_sha256 = hex_sha256 h s \<rparr> \<rparr>"
    using assms by (auto simp: tdx_block_def measure_tdx_def io_simps split: option.splits)
  then show ?thesis
    using True by (auto simp: measure_tdx_def with_tdx_def io_simps split: option.splits)
next
  case False
  then show ?thesis using assms by (simp add: tdx_block_def io_simps)
qed

lemma write_image_manifest_Inr:
  assumes "write_image_manifest h (with_tdx sha fat env) args platform k output initrd_path base variants tdx w = (Inr m, w')"
  obtains u where "w' = bt_insert (canon h (path_join output ''manifest.json'')) (Regular (print_manifest (be_manifest env) m)) w"
    "node_at h w (path_join output ''uki.efi'') = Some (Regular u)" "fe_sha256 (io_uki (bm_outputs m)) = hex_sha256 h u"
    "bm_variants m = variants" "bm_tdx m = tdx" "ib_platform (bm_build m) = platform_tag platform" "ib_format (bm_build m) = ''raw''"
    "ib_memory (bm_build m) = ba_memory args"
    "if needs_snp platform then \<exists>f. node_at h w (ba_firmware args) = Some (Regular f)
        \<and> ii_firmware (bm_inputs m) = Some \<lparr> fe_path = ''OVMF.fd'', fe_sha256 = hex_sha256 h f \<rparr>
     else ii_firmware (bm_inputs m) = None"
  using assms
  by (auto simp: write_image_manifest_def write_manifest_def firmware_entry_def with_tdx_def Let_def io_simps split: if_splits)

lemma measure_imageE:
  assumes "measure_image h env args platform k output initrd_path w = (Inr m, w')"
  obtains sf tf u vs w1 w2 w3 b w4 t w5 where
    "read_firmware h (needs_snp platform) (ba_firmware args) w = (Inr sf, w)"
    "read_firmware h (needs_tdx platform) (ba_tdx_firmware args) w = (Inr tf, w)"
    "node_at h w (path_join output ''uki.efi'') = Some (Regular u)"
    "snp_variants_of h env platform sf (as_bytes u) output (ba_smp args) w = (Inr vs, w1)"
    "copy_firmware h (needs_snp platform) (ba_firmware args) (path_join output ''OVMF.fd'') w1 = (Inr (), w2)"
    "copy_firmware h (needs_tdx platform) (ba_tdx_firmware args) (path_join output ''OVMF.tdx.fd'') w2 = (Inr (), w3)"
    "(sudo_mv h (be_user env) b (path_join output ''disk.raw'') :: unit build_io) w3 = (Inr (), w4)"
    "tdx_block h env args platform tf (as_bytes u) (path_join output ''disk.raw'') w4 = (Inr t, w5)"
    "write_image_manifest h env args platform k output initrd_path b vs t w5 = (Inr m, w')"
proof -
  have r: "reads_only (read_firmware h n p)" for n p unfolding read_firmware_def by (intro looks)
  obtain sf x1 tf x2 u x3 vs x4 y1 x5 y2 x6 b x7 y3 x8 t x9 where s:
    "read_firmware h (needs_snp platform) (ba_firmware args) w = (Inr sf, x1)"
    "read_firmware h (needs_tdx platform) (ba_tdx_firmware args) x1 = (Inr tf, x2)"
    "(read_bytes h (path_join output ''uki.efi'') :: string build_io) x2 = (Inr u, x3)"
    "snp_variants_of h env platform sf (as_bytes u) output (ba_smp args) x3 = (Inr vs, x4)"
    "copy_firmware h (needs_snp platform) (ba_firmware args) (path_join output ''OVMF.fd'') x4 = (Inr y1, x5)"
    "copy_firmware h (needs_tdx platform) (ba_tdx_firmware args) (path_join output ''OVMF.tdx.fd'') x5 = (Inr y2, x6)"
    "(canonicalize h ''mkosi/base/mkosi.output/image.raw'' :: string build_io) x6 = (Inr b, x7)"
    "(sudo_mv h (be_user env) b (path_join output ''disk.raw'') :: unit build_io) x7 = (Inr y3, x8)"
    "tdx_block h env args platform tf (as_bytes u) (path_join output ''disk.raw'') x8 = (Inr t, x9)"
    "write_image_manifest h env args platform k output initrd_path b vs t x9 = (Inr m, w')"
    using assms unfolding measure_image_def by (elim then_ioE) (rule that, assumption+)
  have x: "x1 = w" "x2 = x1" by (rule reads_onlyD [OF r s(1)], rule reads_onlyD [OF r s(2)])
  show ?thesis
    by (rule that [of sf tf u vs x4 x5 x6 b x8 t x9]) (use s x in \<open>auto simp: read_bytes_Inr canonicalize_Inr\<close>)
qed

text \<open>What the measurements leave: which file is which at the end, and what the manifest got from where.\<close>

lemma measured_trace:
  fixes fat :: "('dir, 'file) fat_driver"
  assumes "measure_image h (with_tdx sha fat env) args platform k output initrd_path w = (Inr m, w')"
    and clear: "clear_output h output {ba_firmware args, ba_tdx_firmware args}"
    and local: "mv_local h output {ba_firmware args, ba_tdx_firmware args}"
  obtains sf tf u w1 w4 where
    "if needs_snp platform then \<exists>f. node_at h w (ba_firmware args) = Some (Regular f) \<and> sf = Some (as_bytes f) else sf = None"
    "if needs_tdx platform then \<exists>f. node_at h w (ba_tdx_firmware args) = Some (Regular f) \<and> tf = Some (as_bytes f) else tf = None"
    "node_at h w' (path_join output ''manifest.json'') = Some (Regular (print_manifest (be_manifest env) m))"
    "node_at h w' (path_join output ''uki.efi'') = Some (Regular u)" "fe_sha256 (io_uki (bm_outputs m)) = hex_sha256 h u"
    "snp_variants_of h (with_tdx sha fat env) platform sf (as_bytes u) output (ba_smp args) w = (Inr (bm_variants m), w1)"
    "\<forall>x. variant_on_disk h output w1 x \<longrightarrow> variant_on_disk h output w' x"
    "needs_snp platform \<longrightarrow> node_at h w' (path_join output ''OVMF.fd'') = node_at h w (ba_firmware args)"
    "needs_tdx platform \<longrightarrow> node_at h w' (path_join output ''OVMF.tdx.fd'') = node_at h w (ba_tdx_firmware args)"
    "tdx_block h (with_tdx sha fat env) args platform tf (as_bytes u) (path_join output ''disk.raw'') w4 = (Inr (bm_tdx m), w4)"
    "node_at h w4 (path_join output ''disk.raw'') = node_at h w' (path_join output ''disk.raw'')"
    "node_at h w4 (ba_tdx_firmware args) = node_at h w (ba_tdx_firmware args)"
    "if needs_snp platform then \<exists>f. node_at h w (ba_firmware args) = Some (Regular f)
        \<and> ii_firmware (bm_inputs m) = Some \<lparr> fe_path = ''OVMF.fd'', fe_sha256 = hex_sha256 h f \<rparr>
     else ii_firmware (bm_inputs m) = None"
proof -
  let ?e = "with_tdx sha fat env" and ?S = "{ba_firmware args, ba_tdx_firmware args}"
  let ?o = "path_join output"
  obtain sf tf u vs w1 w2 w3 b w4 tb w5 where s:
    "read_firmware h (needs_snp platform) (ba_firmware args) w = (Inr sf, w)"
    "read_firmware h (needs_tdx platform) (ba_tdx_firmware args) w = (Inr tf, w)"
    "node_at h w (?o ''uki.efi'') = Some (Regular u)"
    "snp_variants_of h ?e platform sf (as_bytes u) output (ba_smp args) w = (Inr vs, w1)"
    "copy_firmware h (needs_snp platform) (ba_firmware args) (?o ''OVMF.fd'') w1 = (Inr (), w2)"
    "copy_firmware h (needs_tdx platform) (ba_tdx_firmware args) (?o ''OVMF.tdx.fd'') w2 = (Inr (), w3)"
    "(sudo_mv h (be_user ?e) b (?o ''disk.raw'') :: unit build_io) w3 = (Inr (), w4)"
    "tdx_block h ?e args platform tf (as_bytes u) (?o ''disk.raw'') w4 = (Inr tb, w5)"
    "write_image_manifest h ?e args platform k output initrd_path b vs tb w5 = (Inr m, w')"
    using assms(1) by (rule measure_imageE)
  have sf: "if needs_snp platform then \<exists>f. node_at h w (ba_firmware args) = Some (Regular f) \<and> sf = Some (as_bytes f) else sf = None"
    using s(1) by (auto simp: read_firmware_def io_simps split: if_splits)
  have tf: "if needs_tdx platform then \<exists>f. node_at h w (ba_tdx_firmware args) = Some (Regular f) \<and> tf = Some (as_bytes f) else tf = None"
    using s(2) by (auto simp: read_firmware_def io_simps split: if_splits)
  note v = snp_variants_of_Inr [OF s(4) clear]
  have out: "canon h (?o a) = canon h (?o b) \<longleftrightarrow> a = b" if "a \<in> image_files" "b \<in> image_files" for a b
    using clear_eq [OF clear that] .
  have src: "canon h p \<noteq> canon h (?o a)" if "p \<in> ?S" "a \<in> image_files" for p a
    using clear_source [OF clear that] .
  have k1: "node_at h w1 p = node_at h w p" if "p \<in> ?S \<or> p \<in> ?o ` {''uki.efi'', ''OVMF.fd'', ''OVMF.tdx.fd''}" for p
  proof -
    have "canon h p \<noteq> canon h (?o (igvm_name n))" for n using that src out by (auto simp: igvm_name_fixed [symmetric] igvm_name_outputs(2,3) [symmetric])
    then show ?thesis using v by simp
  qed
  note c1 = copy_firmware_Inr [OF s(5)] and c2 = copy_firmware_Inr [OF s(6)]
  have k3: "node_at h w3 p = node_at h w1 p" if "p \<in> ?S \<or> p \<in> ?o ` ({''uki.efi''} \<union> range igvm_name)" for p
  proof -
    have "canon h p \<noteq> canon h (?o ''OVMF.fd'')" "canon h p \<noteq> canon h (?o ''OVMF.tdx.fd'')"
      using that src out by (auto simp: igvm_name_fixed [symmetric] igvm_name_outputs(2,3) [symmetric])
    then show ?thesis using c1 c2 by (auto split: if_splits)
  qed
  have k4: "node_at h w4 p = node_at h w3 p" if "p \<in> ?S \<union> ?o ` (image_files - {''disk.raw''})" for p
    by (rule sudo_mv_keeps [OF s(7) local that])
  have t: "w5 = w4" using tdx_block_Inr [OF s(8)] by blast
  obtain u' where m: "w' = bt_insert (canon h (?o ''manifest.json'')) (Regular (print_manifest (be_manifest env) m)) w5"
    "node_at h w5 (?o ''uki.efi'') = Some (Regular u')" "fe_sha256 (io_uki (bm_outputs m)) = hex_sha256 h u'"
    "bm_variants m = vs" "bm_tdx m = tb"
    "if needs_snp platform then \<exists>f. node_at h w5 (ba_firmware args) = Some (Regular f)
        \<and> ii_firmware (bm_inputs m) = Some \<lparr> fe_path = ''OVMF.fd'', fe_sha256 = hex_sha256 h f \<rparr>
     else ii_firmware (bm_inputs m) = None"
    by (rule write_image_manifest_Inr [OF s(9)])
  have k5: "node_at h w' p = node_at h w4 p" if "p \<in> ?o ` (image_files - {''manifest.json''})" for p
    using that out unfolding m(1) t by auto
  have uki: "node_at h w' (?o ''uki.efi'') = Some (Regular u)" "u' = u"
    using m(2) s(3) t k1 [of "?o ''uki.efi''"] k3 [of "?o ''uki.efi''"] k4 [of "?o ''uki.efi''"] k5 [of "?o ''uki.efi''"]
    by simp_all
  have manifest: "node_at h w' (?o ''manifest.json'') = Some (Regular (print_manifest (be_manifest env) m))"
    unfolding m(1) by (simp add: with_tdx_def)
  have disk: "variant_on_disk h output w' x" if "variant_on_disk h output w1 x" for x
    using that k3 [of "?o (igvm_name (sv_smp x))"] k4 [of "?o (igvm_name (sv_smp x))"] k5 [of "?o (igvm_name (sv_smp x))"]
    by (simp add: variant_on_disk_def)
  have source: "node_at h w4 p = node_at h w p" "node_at h w3 p = node_at h w p" "node_at h w1 p = node_at h w p"
    if "p \<in> ?S" for p
    using that k1 [of p] k3 [of p] k4 [of p] by auto
  have fw: "node_at h w' (?o ''OVMF.fd'') = node_at h w (ba_firmware args)" if needs: "needs_snp platform"
  proof -
    have "node_at h w2 (?o ''OVMF.fd'') = node_at h w (ba_firmware args)" using c1 needs source by auto
    then have "node_at h w3 (?o ''OVMF.fd'') = node_at h w (ba_firmware args)" using c2 out by (auto split: if_splits)
    then show ?thesis using k4 [of "?o ''OVMF.fd''"] k5 [of "?o ''OVMF.fd''"] by simp
  qed
  have tfw: "node_at h w' (?o ''OVMF.tdx.fd'') = node_at h w (ba_tdx_firmware args)" if needs: "needs_tdx platform"
  proof -
    have "node_at h w2 (ba_tdx_firmware args) = node_at h w (ba_tdx_firmware args)"
      using c1 source src [of "ba_tdx_firmware args"] by (auto split: if_splits)
    then have "node_at h w3 (?o ''OVMF.tdx.fd'') = node_at h w (ba_tdx_firmware args)" using c2 needs by auto
    then show ?thesis using k4 [of "?o ''OVMF.tdx.fd''"] k5 [of "?o ''OVMF.tdx.fd''"] by simp
  qed
  show ?thesis
  proof (rule that [of sf tf u w1 w4])
    show "if needs_snp platform then \<exists>f. node_at h w (ba_firmware args) = Some (Regular f)
        \<and> ii_firmware (bm_inputs m) = Some \<lparr> fe_path = ''OVMF.fd'', fe_sha256 = hex_sha256 h f \<rparr>
     else ii_firmware (bm_inputs m) = None"
      using m(6) t source(1) [of "ba_firmware args"] by (auto split: if_splits)
    show "tdx_block h ?e args platform tf (as_bytes u) (?o ''disk.raw'') w4 = (Inr (bm_tdx m), w4)" using s(8) t m(5) by simp
  qed (use sf tf manifest uki m(3,4) s(4) disk fw tfw k5 source in simp_all)
qed

text \<open>
  A manifest that describes the files beside it: its UKI hash is that of \<open>uki.efi\<close>; for SNP there is one
  variant for each processor count asked for, in order, each what the library derives from \<open>OVMF.fd\<close> and that UKI, with
  its file and hash; for TDX the registers are those the library measures from \<open>OVMF.tdx.fd\<close>, that UKI and the disk; and
  a platform that was not asked for has no entry.
\<close>

definition image_described ::
  "host \<Rightarrow> build_env \<Rightarrow> (bytes \<Rightarrow> digest) \<Rightarrow> ('dir, 'file) fat_driver \<Rightarrow> build_args \<Rightarrow> build_platform \<Rightarrow> string
    \<Rightarrow> build_manifest \<Rightarrow> world \<Rightarrow> bool" where
  "image_described h env sha fat args platform output m w \<longleftrightarrow>
     (\<exists>u. node_at h w (path_join output ''manifest.json'') = Some (Regular (print_manifest (be_manifest env) m))
        \<and> node_at h w (path_join output ''uki.efi'') = Some (Regular u) \<and> fe_sha256 (io_uki (bm_outputs m)) = hex_sha256 h u
        \<and> (if needs_snp platform then snp_described h (be_igvm env) output (ba_smp args) u m w
           else bm_variants m = [] \<and> ii_firmware (bm_inputs m) = None)
        \<and> (if needs_tdx platform then tdx_described h sha fat output u m w else bm_tdx m = None))"

lemma measured_image_described:
  fixes fat :: "('dir, 'file) fat_driver"
  assumes "measure_image h (with_tdx sha fat env) args platform k output initrd_path w = (Inr m, w')"
    and clear: "clear_output h output {ba_firmware args, ba_tdx_firmware args}"
    and local: "mv_local h output {ba_firmware args, ba_tdx_firmware args}"
  shows "image_described h env sha fat args platform output m w'"
proof -
  obtain sf tf u w1 w4 where
    sf: "if needs_snp platform then \<exists>f. node_at h w (ba_firmware args) = Some (Regular f) \<and> sf = Some (as_bytes f) else sf = None"
    and tf: "if needs_tdx platform then \<exists>f. node_at h w (ba_tdx_firmware args) = Some (Regular f) \<and> tf = Some (as_bytes f) else tf = None"
    and m: "node_at h w' (path_join output ''manifest.json'') = Some (Regular (print_manifest (be_manifest env) m))"
      "node_at h w' (path_join output ''uki.efi'') = Some (Regular u)" "fe_sha256 (io_uki (bm_outputs m)) = hex_sha256 h u"
    and vs: "snp_variants_of h (with_tdx sha fat env) platform sf (as_bytes u) output (ba_smp args) w = (Inr (bm_variants m), w1)"
    and disk: "\<forall>x. variant_on_disk h output w1 x \<longrightarrow> variant_on_disk h output w' x"
    and fw: "needs_snp platform \<longrightarrow> node_at h w' (path_join output ''OVMF.fd'') = node_at h w (ba_firmware args)"
    and tfw: "needs_tdx platform \<longrightarrow> node_at h w' (path_join output ''OVMF.tdx.fd'') = node_at h w (ba_tdx_firmware args)"
    and tdx: "tdx_block h (with_tdx sha fat env) args platform tf (as_bytes u) (path_join output ''disk.raw'') w4
      = (Inr (bm_tdx m), w4)"
    and same: "node_at h w4 (path_join output ''disk.raw'') = node_at h w' (path_join output ''disk.raw'')"
      "node_at h w4 (ba_tdx_firmware args) = node_at h w (ba_tdx_firmware args)"
    and fe: "if needs_snp platform then \<exists>f. node_at h w (ba_firmware args) = Some (Regular f)
        \<and> ii_firmware (bm_inputs m) = Some \<lparr> fe_path = ''OVMF.fd'', fe_sha256 = hex_sha256 h f \<rparr>
     else ii_firmware (bm_inputs m) = None"
    by (rule measured_trace [OF assms])
  note v = snp_variants_of_Inr [OF vs clear] and t = tdx_block_Inr [OF tdx]
  have "snp_described h (be_igvm env) output (ba_smp args) u m w'" if "needs_snp platform"
    using that sf v disk fw fe by (auto simp: snp_described_def with_tdx_def list_all_iff)
  moreover have "tdx_described h sha fat output u m w'" if "needs_tdx platform"
    using that tf t same tfw by (auto simp: tdx_described_def)
  moreover have "\<not> needs_snp platform \<Longrightarrow> bm_variants m = [] \<and> ii_firmware (bm_inputs m) = None"
    "\<not> needs_tdx platform \<Longrightarrow> bm_tdx m = None"
    using v t fe by auto
  ultimately show ?thesis unfolding image_described_def using m by auto
qed

section \<open>From the command to the manifest\<close>

text \<open>What a build has to remove at its end: the overlay, and the copy of each profile directory.\<close>

definition guarded :: "build_args \<Rightarrow> string set" where
  "guarded args =
     insert ''mkosi/base/mkosi.local''
       {path_join ''mkosi/base/mkosi.profiles'' n | n d. d \<in> set (ba_profile_dirs args) \<and> external_profile_name d = Inr n}"

definition removable :: "host \<Rightarrow> bool" where
  "removable h \<longleftrightarrow> (\<forall>p w. \<not> denied h Look p w \<and> \<not> denied h Delete p w)"

lemma force_removed:
  assumes "removable h"
  shows "node_at h (snd ((force_remove_dir_all h g :: unit build_io) w)) p =
    (if node_at h w g = Some Directory \<and> below (canon h g) (canon h p) then None else node_at h w p)"
  using assms
  by (auto simp: removable_def force_remove_dir_all_def remove_dir_all_def path_exists_def node_at_def bt_get_filter)

lemma drop_guards_keeps:
  assumes "removable h"
  shows "\<forall>g \<in> set guards. \<not> below (canon h g) (canon h p) \<Longrightarrow> node_at h (drop_guards h guards w) p = node_at h w p"
  by (induction guards arbitrary: w) (simp_all add: drop_guards_def force_removed [OF assms])

lemma drop_guards_gone:
  assumes "removable h"
  shows "g \<in> set guards \<or> node_at h w g \<noteq> Some Directory \<Longrightarrow> node_at h (drop_guards h guards w) g \<noteq> Some Directory"
proof (induction guards arbitrary: w)
  case (Cons x guards)
  have "below (canon h g) (canon h g)" by (simp add: below_def)
  then have "g \<in> set guards \<or> node_at h (snd ((force_remove_dir_all h x :: unit build_io) w)) g \<noteq> Some Directory"
    using Cons.prems force_removed [OF assms, of x w g] by auto
  then show ?case using Cons.IH by (simp add: drop_guards_def)
qed (simp add: drop_guards_def)

lemma validate_profile_dir_name:
  "validate_profile_dir h root vs d w = (Inr n, w') \<Longrightarrow> external_profile_name d = Inr n"
  unfolding validate_profile_dir_def by (elim then_ioE) (auto simp: io_simps)

lemma validated_names:
  "validate_profile_dirs h root vs dirs w = (Inr vs', w') \<Longrightarrow>
    \<exists>us. vs' = vs @ us \<and> map snd us = dirs \<and> (\<forall>(n, d) \<in> set us. external_profile_name d = Inr n)"
proof (induction dirs arbitrary: vs w)
  case Nil
  then show ?case by (simp add: io_simps)
next
  case (Cons d dirs)
  then obtain n w1 where n: "validate_profile_dir h root vs d w = (Inr n, w1)"
    and r: "validate_profile_dirs h root (vs @ [(n, d)]) dirs w1 = (Inr vs', w')"
    by (auto simp: then_io_Inr)
  obtain us where "vs' = (vs @ [(n, d)]) @ us" "map snd us = dirs" "\<forall>(n, d) \<in> set us. external_profile_name d = Inr n"
    using Cons.IH [OF r] by blast
  then show ?case using validate_profile_dir_name [OF n] by (intro exI [of _ "(n, d) # us"]) auto
qed

lemma stage_each_guards:
  "stage_each h root vs ps guards w = (Inr ps', guards', w') \<Longrightarrow> guards' = guards @ map (\<lambda>(n, d). path_join root n) vs"
  by (induction h root vs ps guards w rule: stage_each.induct) (auto simp: Let_def split: prod.splits sum.splits)

lemma with_staged_profiles_Inr:
  assumes "with_staged_profiles h root dirs profiles rest w = (Inr x, w')"
  obtains ps guards w1 w2 where "rest ps w1 = (Inr x, w2)" "w' = drop_guards h guards w2"
    "set guards = {path_join root n | n d. d \<in> set dirs \<and> external_profile_name d = Inr n}"
proof -
  obtain vs w0 where v: "validate_profile_dirs h root [] dirs w = (Inr vs, w0)"
    and "(case stage_each h root vs profiles [] w0 of
       (Inl e, guards, w') \<Rightarrow> (Inl e, drop_guards h guards w')
     | (Inr profiles, guards, w') \<Rightarrow> (case rest profiles w' of (r, w'') \<Rightarrow> (r, drop_guards h guards w''))) = (Inr x, w')"
    using assms unfolding with_staged_profiles_def by (elim then_ioE)
  then obtain ps guards w1 w2 where s: "stage_each h root vs profiles [] w0 = (Inr ps, guards, w1)"
    "rest ps w1 = (Inr x, w2)" "w' = drop_guards h guards w2"
    by (auto split: prod.splits sum.splits)
  have "map snd vs = dirs" "\<forall>(n, d) \<in> set vs. external_profile_name d = Inr n" using validated_names [OF v] by auto
  then have "set (map (\<lambda>(n, d). path_join root n) vs) = {path_join root n | n d. d \<in> set dirs \<and> external_profile_name d = Inr n}"
    by (force simp: image_iff)
  then show thesis using that [OF s(2,3)] stage_each_guards [OF s(1)] by simp
qed

lemma build_run_steps:
  assumes "build_run h env args w = (Inr m, w')"
  obtains platform ps guards w0 w1 w2 where "check_args h args w = (Inr platform, w0)"
    "build_steps h env args platform (canon h (path_join ''output'' (ba_name args))) ps w1 = (Inr m, w2)"
    "w' = drop_guards h guards w2" "set guards = guarded args"
proof -
  obtain platform wa wb where c: "check_args h args w = (Inr platform, wa)"
    and r: "remove_on_drop h ''mkosi/base/mkosi.local'' (build_staged h env args platform) wb = (Inr m, w')"
    using assms unfolding build_run_def by (elim then_ioE) (rule that, assumption+)
  obtain wc where s: "build_staged h env args platform wb = (Inr m, wc)" "w' = drop_guards h [''mkosi/base/mkosi.local''] wc"
    using r by (auto simp: remove_on_drop_def split: prod.splits)
  obtain out wd we wf where p: "prepare_output h (ba_name args) we = (Inr out, wf)"
    and st: "with_staged_profiles h ''mkosi/base/mkosi.profiles'' (ba_profile_dirs args) (ba_profiles args)
       (build_steps h env args platform out) wd = (Inr m, wc)"
    using s(1) unfolding build_staged_def by (elim then_ioE) (rule that, assumption+)
  have out: "out = canon h (path_join ''output'' (ba_name args))"
    using p by (auto simp: prepare_output_def Let_def then_io_Inr canonicalize_Inr io_simps split: if_splits)
  obtain ps gs wg wh where b: "build_steps h env args platform out ps wg = (Inr m, wh)" "wc = drop_guards h gs wh"
    "set gs = {path_join ''mkosi/base/mkosi.profiles'' n | n d. d \<in> set (ba_profile_dirs args) \<and> external_profile_name d = Inr n}"
    by (rule with_staged_profiles_Inr [OF st])
  have "w' = drop_guards h (gs @ [''mkosi/base/mkosi.local'']) wh" using s(2) b(2) by (simp add: drop_guards_def)
  then show thesis using that [OF c b(1) [unfolded out]] b(3) by (simp add: guarded_def)
qed

lemma build_stepsE:
  assumes "build_steps h env args platform output ps w = (Inr m, w')"
  obtains kart initrd_path w1 w2 w3 w4 where
    "ensure_kernel h (be_kernel env) False (ba_fragment args) (ba_signing_cert args) (ba_kernel_packages args) w = (Inr kart, w1)"
    "stage_kernel h kart w1 = (Inr (), w2)" "build_initrd h output w2 = (Inr initrd_path, w3)"
    "measure_image h env args platform (artifact_manifest kart) output initrd_path w4 = (Inr m, w')"
proof -
  obtain kart :: kernel_artifact and initrd_path w1 w2 w3 w4 where
    "map_io FromKernel (ensure_kernel h (be_kernel env) False (ba_fragment args) (ba_signing_cert args)
       (ba_kernel_packages args)) w = (Inr kart, w1)"
    "stage_kernel h kart w1 = (Inr (), w2)" "build_initrd h output w2 = (Inr initrd_path, w3)"
    "measure_image h env args platform (artifact_manifest kart) output initrd_path w4 = (Inr m, w')"
    using assms unfolding build_steps_def by (elim then_ioE) (rule that, (simp; fail | assumption)+)
  then show thesis using that by (auto simp: map_io_Inr)
qed

lemma build_run_Inr:
  assumes "build_run h env args w = (Inr m, w')"
  obtains platform k initrd_path guards w0 w1 w2 where "check_args h args w = (Inr platform, w0)"
    "measure_image h env args platform k (canon h (path_join ''output'' (ba_name args))) initrd_path w1 = (Inr m, w2)"
    "w' = drop_guards h guards w2" "set guards = guarded args"
proof -
  obtain platform ps guards w0 w1 w2 where s: "check_args h args w = (Inr platform, w0)"
    "build_steps h env args platform (canon h (path_join ''output'' (ba_name args))) ps w1 = (Inr m, w2)"
    "w' = drop_guards h guards w2" "set guards = guarded args"
    by (rule build_run_steps [OF assms])
  show thesis by (rule build_stepsE [OF s(2)]) (rule that [OF s(1) _ s(3,4)])
qed

lemma check_args_platform: "check_args h args w = (Inr platform, w') \<Longrightarrow> resolve_platform args = Inr platform"
  unfolding check_args_def by (elim then_ioE) (auto simp: io_simps)

lemma image_described_cong:
  assumes "\<And>n. n \<in> image_files \<Longrightarrow> node_at h w' (path_join output n) = node_at h w (path_join output n)"
  shows "image_described h env sha fat args platform output m w' \<longleftrightarrow> image_described h env sha fat args platform output m w"
proof -
  have "variant_on_disk h output w' = variant_on_disk h output w"
    using assms by (auto simp: variant_on_disk_def fun_eq_iff)
  then show ?thesis using assms by (simp add: image_described_def snp_described_def tdx_described_def)
qed

text \<open>Removing what was staged touches no file of the output.\<close>

definition undisturbed :: "host \<Rightarrow> string \<Rightarrow> build_args \<Rightarrow> bool" where
  "undisturbed h output args \<longleftrightarrow>
     removable h \<and> (\<forall>g \<in> guarded args. \<forall>n \<in> image_files. \<not> below (canon h g) (canon h (path_join output n)))"


section \<open>The kernel in the image\<close>

lemma create_dir_all_keeps:
  "create_dir_all h p w = (Inr u, w') \<Longrightarrow> bt_get w q = Some n \<Longrightarrow> bt_get w' q = Some n"
proof -
  have "bt_get (foldl (\<lambda>w q. bt_or_insert q Directory w) w ps) q = Some n" if "bt_get w q = Some n" for ps w
    using that
  proof (induction ps arbitrary: w)
    case (Cons a ps)
    have "bt_get (bt_or_insert a Directory w) q = Some n" using Cons.prems by (cases "q = a") auto
    then show ?case using Cons.IH by simp
  qed simp
  then show "create_dir_all h p w = (Inr u, w') \<Longrightarrow> bt_get w q = Some n \<Longrightarrow> bt_get w' q = Some n"
    by (auto simp: create_dir_all_def split: if_splits)
qed

lemma stage_kernel_Inr:
  assumes "stage_kernel h k w = (Inr u, w')" and "content h w (vmlinuz_path k) = Some c"
  shows "node_at h w' (path_join (path_join (MKOSI_EXTRA @ ''/usr/lib/modules'') (artifact_version k)) ''vmlinuz'') = Some (Regular c)"
proof -
  let ?d = "path_join (MKOSI_EXTRA @ ''/usr/lib/modules'') (artifact_version k)"
  obtain w1 where s: "(create_dir_all h ?d :: unit build_io) w = (Inr (), w1)"
    "(copy_file h (vmlinuz_path k) (path_join ?d ''vmlinuz'') :: unit build_io) w1 = (Inr u, w')"
    using assms(1) by (auto simp: stage_kernel_def Let_def then_io_Inr)
  have "node_at h w (vmlinuz_path k) = Some (Regular c)" using assms(2) by (simp add: content_def split: option.splits node.splits)
  then have "node_at h w1 (vmlinuz_path k) = Some (Regular c)"
    using create_dir_all_keeps [OF s(1)] by (simp add: node_at_def)
  then show ?thesis using s(2) by (auto simp: copy_file_def io_simps node_at_def)
qed

section \<open>Fields of the manifest\<close>

lemma build_variants_counts:
  "build_variants h env firmware uki output smps w = (Inr vs, w') \<Longrightarrow> map sv_smp vs = smps \<and> 0 \<notin> set smps"
proof (induction smps arbitrary: w vs)
  case (Cons s smps)
  then obtain v w1 vs' where "s \<noteq> 0" "build_variant h env firmware uki output s w = (Inr v, w1)"
    "build_variants h env firmware uki output smps w1 = (Inr vs', w')" "vs = v # vs'"
    by (auto simp: io_simps)
  then show ?case using Cons.IH build_variant_Inr(1) by auto
qed (simp add: io_simps)

lemma write_image_manifest_build:
  "write_image_manifest h env args platform k output initrd_path base variants tdx w = (Inr m, w') \<Longrightarrow>
    bm_variants m = variants \<and> ib_platform (bm_build m) = platform_tag platform \<and> ib_format (bm_build m) = ''raw''
    \<and> ib_memory (bm_build m) = ba_memory args \<and> ii_kernel (bm_inputs m) = Some (image_kernel_inputs k)"
  by (auto simp: write_image_manifest_def Let_def io_simps)

lemma measured_fields:
  assumes "measure_image h env args platform k output initrd_path w = (Inr m, w')"
  shows "ib_platform (bm_build m) = platform_tag platform" "ib_format (bm_build m) = ''raw''"
    "ib_memory (bm_build m) = ba_memory args"
    "if needs_snp platform then set (map sv_smp (bm_variants m)) = set (ba_smp args) \<and> 0 \<notin> set (ba_smp args)
     else bm_variants m = []"
    "ii_kernel (bm_inputs m) = Some (image_kernel_inputs k)"
proof -
  obtain sf u vs w1 w2 b t w5 w6 where s:
    "snp_variants_of h env platform sf (as_bytes u) output (ba_smp args) w1 = (Inr vs, w2)"
    "write_image_manifest h env args platform k output initrd_path b vs t w5 = (Inr m, w6)"
    using measure_imageE [OF assms] by metis
  note f = write_image_manifest_build [OF s(2)]
  then show "ib_platform (bm_build m) = platform_tag platform" "ib_format (bm_build m) = ''raw''"
    "ib_memory (bm_build m) = ba_memory args" "ii_kernel (bm_inputs m) = Some (image_kernel_inputs k)"
    by simp_all
  show "if needs_snp platform then set (map sv_smp (bm_variants m)) = set (ba_smp args) \<and> 0 \<notin> set (ba_smp args)
     else bm_variants m = []"
  proof (cases "needs_snp platform")
    case True
    then obtain g where "build_variants h (be_igvm env) g (as_bytes u) output (remdups_adj (sort (ba_smp args))) w1 = (Inr vs, w2)"
      using s(1) by (auto simp: snp_variants_of_def Let_def io_simps split: option.splits)
    from build_variants_counts [OF this] show ?thesis using True f
      by (metis remdups_adj_set set_sort)
  next
    case False
    then show ?thesis using s(1) f by (auto simp: snp_variants_of_def io_simps)
  qed
qed

text \<open>
  What the image manifest records of a kernel: the kernel that lies in the tree mkosi builds from has the recorded hash
  and version, and the recorded inputs are the hashes of the files they name.
\<close>

definition records_kernel :: "host \<Rightarrow> build_args \<Rightarrow> build_manifest \<Rightarrow> world \<Rightarrow> bool" where
  "records_kernel h args m w \<longleftrightarrow>
     (\<exists>km c. ii_kernel (bm_inputs m) = Some (image_kernel_inputs km)
        \<and> node_at h w (path_join (path_join (MKOSI_EXTRA @ ''/usr/lib/modules'') (km_linux_version km)) ''vmlinuz'') = Some (Regular c)
        \<and> hex_sha256 h c = to_ascii_lowercase (km_vmlinuz_sha256 km)
        \<and> (\<exists>version cert snapshot v.
             compute_fingerprint h version (ba_fragment args) cert snapshot v = (Inr (km_inputs km), v)))"


end
