(* ===== verification/ImageWitness.thy ===== *)
theory ImageWitness
  imports ImageBuild
begin

text \<open>
  A small machine with the sample firmware, UKI and disk of the measurement library: what a build for TDX measures on it,
  and two initrds that differ in their time stamp.
\<close>

definition sample_sums :: string where
  "sample_sums = replicate 64 CHR ''a'' @ ''  image.raw'' @ [CHR 0x0A]"

definition move_exec :: "string list \<Rightarrow> world \<Rightarrow> cmd_result \<times> world" where
  "move_exec argv w =
     (sample_fetch,
      if argv ! 1 = ''mv'' then (case bt_get w (argv ! 2) of None \<Rightarrow> w | Some n \<Rightarrow> bt_insert (argv ! 3) n w) else w)"

definition tdx_args :: build_args where
  "tdx_args =
     \<lparr> ba_name = ''o'', ba_cloud_init = None, ba_extra = None, ba_packages = [], ba_fragment = None, ba_signing_cert = None,
       ba_kernel_packages = [], ba_script = None, ba_platform = OnlyTdx, ba_skip_igvm = False, ba_firmware = ''/g'',
       ba_tdx_firmware = ''/f'', ba_memory = ''4G'', ba_smp = [2], ba_profiles = [], ba_profile_dirs = [], ba_sync_inputs = [] \<rparr>"

definition plain_env :: build_env where
  "plain_env =
     \<lparr> be_igvm = sample_env, be_manifest = sample_manifest_codec,
       be_kernel = \<lparr> print_json = (\<lambda>_. []), parse_json = (\<lambda>_. None) \<rparr>, be_tdx = (\<lambda>_ _ _. None),
       be_lock_free = (\<lambda>_. True), be_user = ''1000'' \<rparr>"

abbreviation M :: host where "M \<equiv> sample_host move_exec"

lemma machine [simp]:
  "canon M p = p" "\<not> denied M a p w" "exec M argv w = move_exec argv w" "node_at M w p = bt_get w p"
  "path_exists M p w \<longleftrightarrow> bt_get w p \<noteq> None"
  by (simp_all add: sample_host_def path_exists_def node_at_def)

lemma as_bytes_of_bytes [simp]: "as_bytes (of_bytes bs) = bs"
proof -
  have "(of_char (char_of (unat x)) :: byte) = x" for x :: byte
    by (rule word_unat_eq_iff [THEN iffD2]) (simp add: unat_of_char_byte unat_byte_less)
  then show ?thesis by (simp add: as_bytes_def of_bytes_def comp_def)
qed

lemma built_world_measured:
  "\<exists>u. measure_uki_topology_invariant sha_0 sample_fat (sample_fw 7) (sample_pe 9 0 0 []) (Some (sample_disk 0 0)) = Some (Inr u)"
proof -
  have "\<exists>m. mrtd sha_0 \<lparr> fw = sample_fw 7, sections = [sample_section] \<rparr> = Inr m"
    using mrtd_input_eq [of "\<lparr> fw = sample_fw 7, sections = [sample_section] \<rparr>"] sample_fits
    by (auto simp: mrtd_def)
  moreover obtain e where "gpt_event (sample_disk 0 0) = Inr e" using sample_gpt_event by blast
  ultimately show ?thesis
    by (auto simp: measure_uki_topology_invariant_def sample_parse sample_pe_sections sample_bootloader compute_gpt_event_hash_def
        compute_rtmr1_uki_def disk_events_def authenticode_sha384_def sample_input
        compute_rtmr2_uki_def precompute_rtmr2_digests_def section_map_def UKI_MEASUREMENT_ORDER_def
        section_events_def loadopts_events_def initrd_events_def)
qed

lemma sample_checksum: "checksum_for_file sample_sums ''image.raw'' = Inr (replicate 64 CHR ''a'')"
  by code_simp

lemma joined: "path_join ''/o'' n = (if prefix ''/'' n then n else ''/o/'' @ n)"
proof -
  have "\<not> suffix ''/'' ''/o''" by code_simp
  then show ?thesis by (simp add: path_join_def)
qed

lemma machine_steps:
  "read_bytes M p w = (case bt_get w p of Some (Regular c) \<Rightarrow> (Inr c, w) | _ \<Rightarrow> (bail (Io p), w))"
  "sha256_file M p w = (case bt_get w p of Some (Regular c) \<Rightarrow> (Inr (hex_sha256 M c), w) | _ \<Rightarrow> (bail (Io p), w))"
  "write_bytes M p c w = (if bt_get w p = Some Directory then (bail (Io p), w) else (Inr (), bt_insert p (Regular c) w))"
  "canonicalize M p w = (if bt_get w p \<noteq> None then (Inr p, w) else (bail (Io p), w))"
  by (simp_all add: read_bytes_def sha256_file_def write_bytes_def canonicalize_def then_io_def io_return_def
      split: option.splits node.splits)

text \<open>Two initrds that differ in their time stamp.\<close>

definition stamped :: "char \<Rightarrow> string" where
  "stamped t = gzip_head @ [CHR 0x00] @ replicate 4 t @ ''body''"

lemma prepare_initrd_run:
  assumes "bt_get w ''/i'' = Some (Regular c)" "bt_get w ''/o/initrd.img'' = None" "4 \<le> length c" "take 3 c = gzip_head"
  shows "\<exists>w'. prepare_initrd M ''/o'' ''/i'' w = (Inr ''/o/initrd.img'', w')"
  using assms
  by (simp add: prepare_initrd_def Let_def then_io_def copy_file_def machine_steps zero_gzip_mtime_def io_check_def io_return_def joined)

lemma prepared_initrds_agree_witness:
  "\<exists>w' v'. node_at M w' ''/o/initrd.img'' = node_at M v' ''/o/initrd.img''
    \<and> fst (prepare_initrd M ''/o'' ''/i'' [(''/i'', Regular (stamped CHR ''a''))]) = Inr ''/o/initrd.img''
    \<and> take 4 (stamped CHR ''a'') = take 4 (stamped CHR ''b'')"
proof -
  have p: "\<exists>w'. prepare_initrd M ''/o'' ''/i'' [(''/i'', Regular (stamped t))] = (Inr ''/o/initrd.img'', w')" for t
    by (rule prepare_initrd_run [where c = "stamped t"]) (simp_all add: bt_get_def stamped_def gzip_head_def)
  obtain w' where w: "prepare_initrd M ''/o'' ''/i'' [(''/i'', Regular (stamped CHR ''a''))] = (Inr ''/o/initrd.img'', w')" using p by blast
  obtain v' where v: "prepare_initrd M ''/o'' ''/i'' [(''/i'', Regular (stamped CHR ''b''))] = (Inr ''/o/initrd.img'', v')" using p by blast
  have s: "take 4 (stamped CHR ''a'') = take 4 (stamped CHR ''b'')" "drop 8 (stamped CHR ''a'') = drop 8 (stamped CHR ''b'')"
    "8 \<le> length (stamped t)" for t
    by (simp_all add: stamped_def gzip_head_def)
  have "node_at M w' (path_join ''/o'' ''initrd.img'') = node_at M v' (path_join ''/o'' ''initrd.img'')"
    using prepared_initrds_agree [OF w v _ _ s(3) s(3)] s(1,2) by (simp add: bt_get_def)
  then show ?thesis using w s(1) by (intro exI [of _ w'] exI [of _ v']) (simp add: joined)
qed

end
