(* ===== verification/BuildSample.thy ===== *)
theory BuildSample
  imports ImageWitness KernelWitnesses
begin

text \<open>
  A whole \<open>confos build\<close> for TDX on a small machine, with a cached kernel.  A world \<open>at fs\<close> holds exactly the entries of
  \<open>fs\<close>, the first one of a path being valid; each step leaves such a world.
\<close>

definition at :: "(string \<times> node) list \<Rightarrow> world \<Rightarrow> bool" where
  "at fs w \<longleftrightarrow> (\<forall>p. bt_get w p = map_of fs p)"

text \<open>mkosi leaves the initrd or the image, \<open>mv\<close> a copy.\<close>

definition mkosi_products :: "string \<Rightarrow> (string \<times> node) list" where
  "mkosi_products dir =
     (if dir = ''mkosi/initrd'' then [(''mkosi/initrd/mkosi.output/image.cpio.gz'', Regular (stamped CHR ''a''))]
      else
        [(''mkosi/base/mkosi.output/image.efi'', Regular (of_bytes (sample_pe 9 0 0 []))),
         (''mkosi/base/mkosi.output/image.raw'', Regular (of_bytes (sample_disk 0 0))),
         (''mkosi/base/mkosi.output/image.roothash'', Regular sample_zeros),
         (''mkosi/base/mkosi.output/image.SHA256SUMS'', Regular sample_sums)])"

definition build_exec :: "string list \<Rightarrow> world \<Rightarrow> cmd_result \<times> world" where
  "build_exec argv w =
     (sample_fetch,
      if argv ! 1 = ''/bin/mkosi'' then foldr (\<lambda>(p, n) w. bt_insert p n w) (mkosi_products (argv ! 3)) w
      else if argv ! 1 = ''mv'' then (case bt_get w (argv ! 2) of None \<Rightarrow> w | Some n \<Rightarrow> bt_insert (argv ! 3) n w)
      else w)"

abbreviation B :: host where "B \<equiv> sample_host build_exec"

section \<open>Steps\<close>

lemma at_insert: "at fs w \<Longrightarrow> at ((p, n) # fs) (bt_insert p n w)"
  by (simp add: at_def)

lemma at_inserts: "at fs w \<Longrightarrow> at (gs @ fs) (foldr (\<lambda>(p, n) w. bt_insert p n w) gs w)"
  by (induction gs) (auto simp: at_insert)

lemma at_look:
  "map_of fs p = Some (Regular c) \<Longrightarrow> runs (at fs) (read_bytes B p) c (at fs)"
  "map_of fs p = Some (Regular c) \<Longrightarrow> valid_str c \<Longrightarrow> runs (at fs) (read_to_string B p) c (at fs)"
  "map_of fs p = Some (Regular c) \<Longrightarrow> runs (at fs) (sha256_file B p) sample_zeros (at fs)"
  "map_of fs p = Some n \<Longrightarrow> runs (at fs) (canonicalize B p) p (at fs)"
  by (simp_all add: runs_def at_def read_bytes_def read_to_string_def sha256_file_def canonicalize_def path_exists_def node_at_def
      sample_host_simps then_io_def io_return_def sample_hash)

lemma at_get: "(\<And>w. at fs w \<Longrightarrow> f w = v) \<Longrightarrow> runs (at fs) (io_get f) v (at fs)"
  by (simp add: runs_def io_get_def)

lemma at_there: "map_of fs p = Some n \<Longrightarrow> runs (at fs) (io_get (path_exists B p)) True (at fs)"
  "map_of fs p = None \<Longrightarrow> runs (at fs) (io_get (path_exists B p)) False (at fs)"
  by (rule at_get; simp add: at_def path_exists_def node_at_def sample_host_simps)+

lemma at_need: "map_of fs p = Some n \<Longrightarrow> runs (at fs) (need_path B p e) () (at fs)"
  "map_of fs p = Some n \<Longrightarrow> runs (at fs) (human_size B p) () (at fs)"
  unfolding need_path_def human_size_def
  by (rule runs_then, erule at_there, simp add: runs_simple)+

lemma at_write: "map_of fs p \<noteq> Some Directory \<Longrightarrow> runs (at fs) (write_bytes B p c) () (at ((p, Regular c) # fs))"
  by (auto simp: runs_def write_bytes_def node_at_def sample_host_simps at_insert) (simp add: at_def)

lemma at_copy:
  "map_of fs src = Some (Regular c) \<Longrightarrow> map_of fs dst \<noteq> Some Directory \<Longrightarrow>
    runs (at fs) (copy_file B src dst) () (at ((dst, Regular c) # fs))"
  unfolding copy_file_def by (rule runs_then, erule at_look(1), erule at_write)

lemma at_create:
  assumes "lineage p = ps" "list_all (\<lambda>q. map_of fs q \<in> {None, Some Directory}) ps"
  shows "runs (at fs) (create_dir_all B p) () (at (map (\<lambda>q. (q, Directory)) ps @ fs))"
proof -
  have "map_of (map (\<lambda>q. (q, Directory)) ps @ fs) q = (case map_of fs q of Some n \<Rightarrow> Some n | None \<Rightarrow> if q \<in> set ps then Some Directory else None)"
    for q
    using assms(2) by (induction ps) (auto simp: list_all_iff split: option.splits)
  then show ?thesis
    using assms by (auto simp: runs_def create_dir_all_def sample_host_simps at_def sample_create list_all_iff list_ex_iff)
qed

lemma at_command:
  "runs (at fs) (sudo_chmod_readable B p) () (at fs)"
  "runs (at fs) (resolve_mkosi B) ''/bin/mkosi'' (at fs)" if "map_of fs ''/bin/mkosi'' = Some (Regular [])"
  using that
  by (simp_all add: runs_def sudo_chmod_readable_def run_command_streaming_def run_command_def sample_host_simps build_exec_def
      sample_fetch_def then_io_def io_return_def resolve_mkosi_def require_tool_def canonicalize_def path_exists_def node_at_def at_def)

lemma at_mkosi:
  assumes "map_of fs ''/bin/mkosi'' = Some (Regular [])"
  shows "runs (at fs) (run_mkosi B (a # dir # args)) () (at (mkosi_products dir @ fs))"
proof -
  have h: "tee_scan (cmd_stdout sample_fetch) = []" "tee_scan (cmd_stderr sample_fetch) = []" by code_simp+
  have x: "exit_ok sample_fetch" by (simp add: sample_fetch_def)
  show ?thesis
    unfolding run_mkosi_def
    apply (rule runs_then, rule at_command(2), rule assms)
    apply (rule runs_then [where v = sample_fetch and Q = "at (mkosi_products dir @ fs)"])
     apply (simp add: runs_def run_command_def sample_host_simps build_exec_def x at_inserts)
    apply (simp add: h Let_def runs_simple)
    done
qed

lemma at_mv:
  assumes "map_of fs a = Some n"
  shows "runs (at fs) (sudo_mv B user a b) () (at ((b, n) # fs))"
  using assms
  by (auto simp: runs_def sudo_mv_def run_command_streaming_def run_command_def sample_host_simps build_exec_def sample_fetch_def
      then_io_def io_return_def at_def)

lemma at_create_there:
  assumes "lineage p = ps" "list_all (\<lambda>q. map_of fs q = Some Directory) ps"
  shows "runs (at fs) (create_dir_all B p) () (at fs)"
proof (rule runs_post [OF at_create [OF assms(1)]])
  show "list_all (\<lambda>q. map_of fs q \<in> {None, Some Directory}) ps" using assms(2) by (auto simp: list_all_iff)
  have "map_of (map (\<lambda>q. (q, Directory)) ps @ fs) q = map_of fs q" for q
    using assms(2) by (induction ps) auto
  then show "at (map (\<lambda>q. (q, Directory)) ps @ fs) w \<Longrightarrow> at fs w" for w by (simp add: at_def)
qed

lemma runs_map_io: "runs P m v Q \<Longrightarrow> runs P (map_io f m) v Q"
  unfolding runs_def by (metis map_io_run)

section \<open>The cached kernel\<close>

definition kernel_files :: "(string \<times> node) list" where
  "kernel_files = sample_files @
     [(SNAPSHOT_PATH, Regular []), (''output/kernel/manifest.json'', Regular (print_json sample_codec sample_manifest)),
      (''output/kernel/vmlinuz'', Regular ''kernel''), (''output'', Directory), (''output/kernel'', Directory)]"

definition kernel_there :: "(string \<times> node) list \<Rightarrow> bool" where
  "kernel_there fs \<longleftrightarrow> list_all (\<lambda>(p, n). map_of fs p = Some n) kernel_files
     \<and> list_all (\<lambda>(p, n). child_name TOOLS_TREE_SANDBOX p = None) fs"

lemma kernel_lookups:
  assumes "kernel_there fs"
  shows "map_of fs VERSION_PATH = Some (Regular sample_pin)" "map_of fs AML_PATCH = Some (Regular sample_patch)"
    "map_of fs SNP_MR_PATCH = Some (Regular sample_patch)" "map_of fs DEFAULT_SIGNING_CERT = Some (Regular sample_cert)"
    "map_of fs SNAPSHOT_PATH = Some (Regular [])" "map_of fs ''output'' = Some Directory"
    "map_of fs ''output/kernel'' = Some Directory" "map_of fs ''output/kernel/vmlinuz'' = Some (Regular ''kernel'')"
    "map_of fs ''output/kernel/manifest.json'' = Some (Regular (print_json sample_codec sample_manifest))"
    "map_of fs ''/bin/mkosi'' = Some (Regular [])"
  using assms by (simp_all add: kernel_there_def kernel_files_def sample_files_def)

definition cached_args :: kernel_args where
  "cached_args = \<lparr> ka_ensure_tools = False, ka_force = False, ka_output = KERNEL_OUT_DIR,
     ka_fragment = None, ka_signing_cert = None, ka_packages = [] \<rparr>"

lemma at_admit:
  assumes "kernel_there fs"
  shows "runs (at fs) (admit_inputs B cached_args) (sample_version, DEFAULT_SIGNING_CERT, SNAPSHOT_PATH) (at fs)"
proof (rule runs_same)
  fix w assume w: "at fs w"
  have "bt_get w VERSION_PATH = Some (Regular sample_pin)" "bt_get w AML_PATCH = Some (Regular sample_patch)"
    "bt_get w SNP_MR_PATCH = Some (Regular sample_patch)" "bt_get w DEFAULT_SIGNING_CERT = Some (Regular sample_cert)"
    using w kernel_lookups [OF assms] by (simp_all add: at_def)
  then show "admit_inputs B cached_args w = (Inr (sample_version, DEFAULT_SIGNING_CERT, SNAPSHOT_PATH), w)"
    by (simp add: admit_inputs_def pinned_version_def kernel_version_read_def verify_version_def PATCHES_def
        verify_signing_cert_def snapshot_path_def cached_args_def io_eval sample_texts Let_def)
qed

lemma at_fingerprint:
  assumes "kernel_there fs"
  shows "runs (at fs) (compute_fingerprint B sample_version None DEFAULT_SIGNING_CERT SNAPSHOT_PATH) sample_fp (at fs)"
proof (rule runs_same)
  fix w assume w: "at fs w"
  have g: "list_all (\<lambda>(p, n). bt_get w p = Some n) kernel_files" using w assms by (simp add: at_def kernel_there_def)
  show "compute_fingerprint B sample_version None DEFAULT_SIGNING_CERT SNAPSHOT_PATH w = (Inr sample_fp, w)"
  proof (rule sample_fingerprint)
    show "list_all (is_regular w) [REQUIRED_FRAGMENT, HARDENING_FRAGMENT, CVM_FRAGMENT,
      DEFAULT_SIGNING_CERT, RANDSTRUCT_SEED, DSDT_SOURCE, AML_PATCH, SNP_MR_PATCH, TOOLS_TREE_CONF]"
      "bt_get w TOOLS_TREE_SANDBOX = Some Directory" "is_regular w SNAPSHOT_PATH"
      using g by (simp_all add: kernel_files_def sample_files_def is_regular_def)
    have "child_name TOOLS_TREE_SANDBOX p = None" if "p \<in> set (map fst w)" for p
    proof -
      have "map_of w p \<noteq> None" using that by (simp add: map_of_eq_None_iff)
      then have "map_of fs p \<noteq> None" using w by (simp add: at_def bt_get_def)
      then have "p \<in> fst ` set fs" by (simp add: map_of_eq_None_iff)
      then show ?thesis using assms by (auto simp: kernel_there_def list_all_iff)
    qed
    then show "no_children w TOOLS_TREE_SANDBOX" by (simp add: no_children_def)
  qed
qed

definition cached_kernel :: kernel_artifact where
  "cached_kernel = \<lparr> vmlinuz_path = ''output/kernel/vmlinuz'', artifact_version = ''6'', artifact_manifest = sample_manifest \<rparr>"

lemma at_manifest:
  assumes "kernel_there fs"
  shows "runs (at fs) (read_kernel_manifest B sample_codec ''output/kernel/manifest.json'') sample_manifest (at fs)"
  unfolding read_kernel_manifest_def
  by (rule runs_then, rule at_look(2), rule kernel_lookups(9) [OF assms], rule sample_manifest_text)
    (simp add: sample_codec_reads runs_simple)

lemma at_cache:
  assumes "kernel_there fs"
  shows "runs (at fs) (cache_lookup B sample_codec False ''output/kernel/manifest.json'' ''output/kernel/vmlinuz'' sample_fp)
    True (at fs)"
proof -
  note l = kernel_lookups [OF assms]
  have t: "runs (at fs) (io_get (\<lambda>w. \<not> False \<and> path_exists B ''output/kernel/manifest.json'' w
      \<and> path_exists B ''output/kernel/vmlinuz'' w)) True (at fs)"
    by (rule at_get) (simp add: at_def path_exists_def node_at_def sample_host_simps l)
  have tried: "runs P (io_try m) (Some v) Q" if "runs P m v Q" for P Q v and m :: "kernel_manifest kernel_io"
    using that unfolding runs_def by (metis io_try_Inr(1))
  have f: "km_inputs sample_manifest = sample_fp" "km_vmlinuz_sha256 sample_manifest = sample_zeros"
    by (simp_all add: sample_manifest_def)
  show ?thesis
    unfolding cache_lookup_def
    apply (rule runs_then, rule t)
    apply (simp only: not_True_eq_False if_False)
    apply (rule runs_then, rule tried, rule at_manifest [OF assms])
    apply (simp add: f)
    apply (rule runs_then, rule at_look(3), rule l(8))
    apply (simp add: eq_ignore_ascii_case_def)
    apply (rule runs_then, rule runs_simple, rule runs_simple)
    done
qed

lemma at_kernel:
  assumes "kernel_there fs"
  shows "runs (at fs) (map_io FromKernel (ensure_kernel B sample_codec False None None [])) cached_kernel (at fs)"
proof -
  have p: "path_join ''output/kernel'' ''vmlinuz'' = ''output/kernel/vmlinuz''"
    "path_join ''output/kernel'' ''manifest.json'' = ''output/kernel/manifest.json''"
    by (simp_all add: sample_joins)
  have l: "lineage ''output/kernel'' = [''output'', ''output/kernel'']" by code_simp
  have a: "ka_force cached_args = False" "ka_fragment cached_args = None" "ka_output cached_args = ''output/kernel''"
    "ka_ensure_tools cached_args = False"
    by (simp_all add: cached_args_def KERNEL_OUT_DIR_def)
  have run: "runs (at fs) (kernel_run B sample_codec cached_args) () (at fs)"
    unfolding kernel_run_def run_with_tools_def a
    apply (rule runs_then, rule at_admit [OF assms])
    apply (simp only: prod.case)
    apply (rule runs_then, rule at_create_there [OF l], simp add: kernel_lookups [OF assms])
    apply (rule runs_then, rule at_look(4), rule kernel_lookups(7) [OF assms])
    apply (rule runs_then, rule at_fingerprint [OF assms])
    apply (simp only: p)
    apply (rule runs_then, rule at_cache [OF assms])
    apply (simp add: io_when_def runs_simple)
    done
  have k: "\<lparr> vmlinuz_path = ''output/kernel/vmlinuz'', artifact_version = km_linux_version sample_manifest,
     artifact_manifest = sample_manifest \<rparr> = cached_kernel"
    by (simp add: cached_kernel_def sample_manifest_def)
  show ?thesis
    unfolding ensure_kernel_def KERNEL_OUT_DIR_def p
    apply (rule runs_map_io)
    apply (rule runs_then)
     apply (rule run [unfolded cached_args_def KERNEL_OUT_DIR_def])
    apply (rule runs_then, rule at_manifest [OF assms])
    apply (simp only: k runs_simple)
    done
qed

section \<open>The build\<close>

definition cached_env :: build_env where
  "cached_env = plain_env \<lparr> be_kernel := sample_codec \<rparr>"

definition build_files :: "(string \<times> node) list" where
  "build_files = kernel_files @
     [(''/f'', Regular (of_bytes (sample_fw 7))), (''mkosi'', Directory), (''mkosi/initrd'', Directory),
      (''mkosi/base'', Directory)]"

definition build_world :: world where
  "build_world = foldr (\<lambda>(p, n) w. bt_insert p n w) build_files []"

lemma at_build_world: "at build_files build_world"
  using at_inserts [of "[]" "[]" build_files] by (simp add: build_world_def at_def bt_get_def)

lemma build_kernel_there:
  assumes "list_all (\<lambda>(p, n). p \<notin> fst ` set kernel_files \<or> map_of kernel_files p = Some n) gs" "list_all (\<lambda>(p, n). child_name TOOLS_TREE_SANDBOX p = None) gs"
  shows "kernel_there (gs @ build_files)"
proof -
  have d: "distinct (map fst kernel_files)" 
    by (simp add: kernel_files_def sample_files_def sample_paths SNAPSHOT_PATH_def)
  have "map_of (gs @ build_files) p = Some n" if "(p, n) \<in> set kernel_files" for p n
  proof -
    have k: "map_of kernel_files p = Some n" "p \<in> fst ` set kernel_files"
      using map_of_is_SomeI [OF d that] that by force+
    then have "map_of build_files p = Some n" by (simp add: build_files_def map_add_def)
    moreover have "map_of gs p = None \<or> map_of gs p = Some n"
    proof (cases "map_of gs p")
      case (Some n')
      then have "(p, n') \<in> set gs" by (rule map_of_SomeD)
      then show ?thesis using assms(1) k Some unfolding list_all_iff by fastforce
    qed simp
    ultimately show ?thesis by (auto simp: map_add_def)
  qed
  moreover have "list_all (\<lambda>(p, n). child_name TOOLS_TREE_SANDBOX p = None) build_files"
    by (simp add: build_files_def kernel_files_def sample_files_def sample_paths SNAPSHOT_PATH_def child_name_def strip_prefix_def)
  ultimately show ?thesis using assms(2) by (auto simp: kernel_there_def list_all_iff)
qed

lemma build_get:
  "map_of build_files p = (if p \<in> fst ` set kernel_files then map_of kernel_files p
     else if p = ''/f'' then Some (Regular (of_bytes (sample_fw 7)))
     else if p \<in> {''mkosi'', ''mkosi/initrd'', ''mkosi/base''} then Some Directory else None)"
proof (cases "map_of kernel_files p")
  case None
  then have "p \<notin> fst ` set kernel_files" by (simp add: map_of_eq_None_iff)
  then show ?thesis using None by (simp add: build_files_def map_add_def)
next
  case (Some n)
  then have "p \<in> fst ` set kernel_files" by (force dest: map_of_SomeD)
  then show ?thesis using Some by (simp add: build_files_def map_add_def)
qed

section \<open>The steps of the build\<close>

abbreviation E :: build_env where "E \<equiv> with_tdx sha_0 sample_fat cached_env"

lemma out_join: "path_join ''output/o'' n = (if prefix ''/'' n then n else ''output/o/'' @ n)"
proof -
  have "\<not> suffix ''/'' ''output/o''" by code_simp
  then show ?thesis by (simp add: path_join_def)
qed

lemma at_zero_gzip:
  assumes "map_of fs p = Some (Regular c)" "4 \<le> length c" "take 3 c = gzip_head"
  shows "runs (at fs) (zero_gzip_mtime B p) () (at ((p, Regular (zero_mtime c)) # fs))"
  unfolding zero_gzip_mtime_def
  apply (rule runs_then, rule at_look(1), rule assms(1))
  apply (subst if_not_P, use assms(2) in linarith)
  apply (simp only: assms(3) simp_thms)
  apply (rule runs_then, rule runs_simple)
  apply (rule at_write)
  apply (simp add: assms(1))
  done

lemma at_initrd:
  assumes "map_of fs ''/bin/mkosi'' = Some (Regular [])" "map_of fs ''mkosi/initrd'' = Some Directory"
    and "map_of fs ''output/o/initrd.img'' = None"
  shows "\<exists>c. runs (at fs) (build_initrd B ''output/o'') ''output/o/initrd.img''
    (at ([(''output/o/initrd.img'', Regular c), (''output/o/initrd.img'', Regular (stamped CHR ''a''))] @ mkosi_products ''mkosi/initrd'' @ fs))"
proof (rule exI)
  have g: "4 \<le> length (stamped t)" "take 3 (stamped t) = gzip_head" for t by (simp_all add: stamped_def gzip_head_def)
  have p: "mkosi_products ''mkosi/initrd'' = [(''mkosi/initrd/mkosi.output/image.cpio.gz'', Regular (stamped CHR ''a''))]"
    by (simp add: mkosi_products_def)
  show "runs (at fs) (build_initrd B ''output/o'') ''output/o/initrd.img''
    (at ([(''output/o/initrd.img'', Regular (zero_mtime (stamped CHR ''a''))), (''output/o/initrd.img'', Regular (stamped CHR ''a''))]
      @ mkosi_products ''mkosi/initrd'' @ fs))"
    unfolding build_initrd_def prepare_initrd_def Let_def out_join p
    apply (simp only: prefix_code char.inject simp_thms if_False)
    apply (rule runs_then, rule at_need(1), rule assms(2))
    apply (rule runs_then, rule at_mkosi, rule assms(1))
    apply (simp only: p)
    apply (rule runs_then, rule at_look(4), simp)
    apply (rule runs_then)
     apply (rule runs_then, rule at_copy, simp, simp add: assms(3))
     apply (rule runs_then, rule at_zero_gzip, simp, rule g(1), rule g(2))
     apply (rule at_look(4), simp)
    apply (rule runs_then, rule at_need(2), simp)
    apply (simp add: runs_simple)
    done
qed

lemma sample_roothash:
  "valid_str sample_zeros" "to_ascii_lowercase (trim sample_zeros) = sample_zeros" "valid_roothash sample_zeros"
  by code_simp+

lemma at_image:
  assumes "map_of fs ''/bin/mkosi'' = Some (Regular [])" "map_of fs ''mkosi'' = Some Directory" "map_of fs ''mkosi/base'' = Some Directory"
    and "map_of fs ''mkosi/base/mkosi.output'' = None"
  shows "runs (at fs) (run_image_mkosi B tdx_args [] ''output/o/initrd.img'') ()
    (at (mkosi_products ''mkosi/base'' @ [(''mkosi'', Directory), (''mkosi/base'', Directory), (''mkosi/base/mkosi.output'', Directory)] @ fs))"
proof -
  have l: "lineage ''mkosi/base/mkosi.output'' = [''mkosi'', ''mkosi/base'', ''mkosi/base/mkosi.output'']" by code_simp
  have a: "ba_script tdx_args = None" "ba_packages tdx_args = []" by (simp_all add: tdx_args_def)
  show ?thesis
    unfolding run_image_mkosi_def a
    apply (rule runs_then, rule at_need(1), rule assms(3))
    apply (rule runs_then, rule at_create [OF l], simp add: assms)
    apply (simp only: list.map append.simps)
    apply (rule runs_then [where v = "[]"], simp only: postinst_args_def option.case, rule runs_simple)
    apply (simp only: append.simps)
    apply (rule at_mkosi, simp add: assms(1))
    done
qed

lemma at_artifacts:
  assumes "map_of fs ''mkosi/base/mkosi.output/image.efi'' = Some (Regular u)"
    "map_of fs ''mkosi/base/mkosi.output/image.raw'' = Some n"
    "map_of fs ''mkosi/base/mkosi.output/image.roothash'' = Some (Regular sample_zeros)"
    "map_of fs ''output/o/roothash'' = None" "map_of fs ''/bin/mkosi'' = Some (Regular [])"
  shows "runs (at fs) (take_artifacts B E ''output/o'') ()
    (at ([(''output/o/roothash'', Regular sample_zeros), (''output/o/uki.efi'', Regular u)] @ fs))"
  unfolding take_artifacts_def Let_def out_join
  apply (simp only: prefix_code char.inject simp_thms if_False append.simps)
  apply (rule runs_then, rule at_need(1), rule assms(1))
  apply (rule runs_then, rule at_need(1), rule assms(2))
  apply (rule runs_then, rule at_mv, rule assms(1))
  apply (rule runs_then, rule at_need(1), simp add: assms(3))
  apply (rule runs_then, rule at_command(1), simp add: assms(5))
  apply (rule runs_then, rule at_look(2), simp add: assms(3), rule sample_roothash(1))
  apply (simp only: sample_roothash)
  apply (rule runs_then, rule runs_simple)
  apply (rule runs_then, rule at_write, simp add: assms(4))
  apply (rule at_need(2), simp)
  done

lemma at_measured:
  assumes "map_of fs ''/f'' = Some (Regular (of_bytes (sample_fw 7)))"
    "map_of fs ''output/o/uki.efi'' = Some (Regular (of_bytes (sample_pe 9 0 0 [])))"
    "map_of fs ''output/o/initrd.img'' = Some (Regular i)"
    "map_of fs ''mkosi/base/mkosi.output/image.raw'' = Some (Regular (of_bytes (sample_disk 0 0)))"
    "map_of fs ''mkosi/base/mkosi.output/image.SHA256SUMS'' = Some (Regular sample_sums)"
    "map_of fs ''output/o/OVMF.tdx.fd'' = None" "map_of fs ''output/o/manifest.json'' = None"
  shows "\<exists>m. runs (at fs) (measure_image B E tdx_args OnlyTdx k ''output/o'' ''output/o/initrd.img'') m (\<lambda>_. True)"
proof -
  obtain r where r: "measure_uki_topology_invariant sha_0 sample_fat (sample_fw 7) (sample_pe 9 0 0 []) (Some (sample_disk 0 0))
      = Some (Inr r)"
    using built_world_measured by blast
  have n: "basename_of ''output/o/initrd.img'' = (Inr ''initrd.img'' :: build_error fault + string)"
    "basename_of ''mkosi/base/mkosi.output/image.raw'' = (Inr ''image.raw'' :: build_error fault + string)"
    by code_simp+
  have p: "needs_snp OnlyTdx \<longleftrightarrow> False" "needs_tdx OnlyTdx \<longleftrightarrow> True" "ba_tdx_firmware tdx_args = ''/f''"
    by (simp_all add: needs_snp_def needs_tdx_def tdx_args_def)
  have t: "runs (at fs) (measure_tdx E (sample_fw 7) (sample_pe 9 0 0 []) (as_bytes (of_bytes (sample_disk 0 0)))) r (at fs)" for fs
    by (simp add: measure_tdx_def with_tdx_def r runs_simple)
  have fw: "runs (at fs) (read_firmware B False q) None (at fs)"
    "runs (at fs) (read_firmware B True ''/f'') (Some (sample_fw 7)) (at fs)" for q
    unfolding read_firmware_def
     apply (simp add: runs_simple)
    apply (simp only: if_True)
    apply (rule runs_then, rule at_look(1), rule assms(1))
    apply (simp add: runs_simple)
    done
  show ?thesis
    unfolding measure_image_def write_image_manifest_def write_manifest_def firmware_entry_def tdx_block_def snp_variants_of_def copy_firmware_def
      Let_def p out_join
    apply (simp only: prefix_code char.inject simp_thms if_False if_True append.simps)
    apply (rule exI)
    apply (rule runs_then, rule fw(1))
    apply (rule runs_then, rule fw(2))
    apply (rule runs_then, rule at_look(1), rule assms(2))
    apply (rule runs_then, rule runs_simple)
    apply (rule runs_then, rule runs_simple)
    apply (rule runs_then, rule at_copy, rule assms(1), simp add: assms(6))
    apply (rule runs_then, rule at_look(4), simp add: assms(4))
    apply (rule runs_then, rule at_mv, simp add: assms(4))
    apply (simp only: option.case as_bytes_of_bytes)
    apply (rule runs_then)
     apply (rule runs_then, rule at_look(1), simp)
     apply (rule runs_then, rule t)
     apply (rule runs_then, rule at_look(3), simp add: assms(1))
     apply (rule runs_simple)
    apply (rule runs_then, rule at_look(1), simp add: assms(5))
    apply (simp only: sample_checksum)
    apply (rule runs_then, rule runs_simple)
    apply (rule runs_then, rule at_look(3), simp add: assms(3))
    apply (rule runs_then, rule at_look(3), simp add: assms(2))
    apply (simp only: n)
    apply (rule runs_then, rule runs_simple)
    apply (rule runs_then, rule runs_simple)
    apply (rule runs_then, rule runs_simple)
    apply (rule runs_then, rule at_write, simp add: assms(7))
    apply (rule runs_post, rule runs_simple, rule TrueI)
    done
qed

section \<open>The command\<close>

lemma runs_staged: "runs P (rest ps) v Q \<Longrightarrow> runs P (with_staged_profiles h root [] ps rest) v Q"
  by (simp add: runs_def with_staged_profiles_def drop_guards_def split: prod.splits)

lemma runs_guarded: "runs P m v Q \<Longrightarrow> runs P (remove_on_drop h d m) v (\<lambda>_. True)"
  unfolding runs_def remove_on_drop_def by fastforce

lemma sample_build_args:
  "ba_firmware tdx_args = ''/g''" "resolve_platform tdx_args = Inr OnlyTdx" "needs_snp OnlyTdx \<longleftrightarrow> False" "needs_tdx OnlyTdx \<longleftrightarrow> True"
  "ba_tdx_firmware tdx_args = ''/f''" "ba_memory tdx_args = ''4G''" "ba_cloud_init tdx_args = None" "ba_extra tdx_args = None"
  "ba_script tdx_args = None" "ba_name tdx_args = ''o''" "ba_sync_inputs tdx_args = []" "ba_profile_dirs tdx_args = []"
  "ba_profiles tdx_args = []" "ba_fragment tdx_args = None" "ba_signing_cert tdx_args = None" "ba_kernel_packages tdx_args = []"
  by (simp_all add: resolve_platform_def tdx_args_def needs_snp_def needs_tdx_def)

lemma at_checked: "runs (at build_files) (check_args B tdx_args) OnlyTdx (at build_files)"
proof -
  have v: "validate_memory ''4G'' = Inr ()" by code_simp
  have f: "map_of build_files ''/f'' = Some (Regular (of_bytes (sample_fw 7)))"
    unfolding build_get by (simp add: kernel_files_def sample_files_def sample_paths SNAPSHOT_PATH_def)
  have none: "check_option None g = io_return ()" for g by (simp add: check_option_def)
  show ?thesis
    unfolding check_args_def sample_build_args none v map_err_simps
    apply (rule runs_then, rule runs_simple)
    unfolding sample_build_args if_True if_False
    apply (rule runs_then, rule runs_simple)
    apply (rule runs_then, rule at_need(1), rule f)
    apply (rule runs_then, rule runs_simple)+
    apply (rule runs_simple)
    done
qed

lemma fresh_get:
  "map_of build_files ''.confos-build.lock'' = None" "map_of build_files ''mkosi/base/mkosi.profiles'' = None"
  "map_of build_files ''mkosi/base/mkosi.local/.confos-sync-inputs'' = None" "map_of build_files ''mkosi/base/mkosi.output'' = None"
  "map_of build_files ''output/o'' = None" "map_of build_files ''output/o/initrd.img'' = None"
  "map_of build_files ''output/o/roothash'' = None" "map_of build_files ''output/o/OVMF.tdx.fd'' = None"
  "map_of build_files ''output/o/manifest.json'' = None" "map_of build_files ''mkosi/base/mkosi.local'' = None"
  "map_of build_files (''mkosi/base/mkosi.local/mkosi.extra'') = None"
  "map_of build_files (''mkosi/base/mkosi.local/mkosi.extra/usr'') = None"
  "map_of build_files (''mkosi/base/mkosi.local/mkosi.extra/usr/lib'') = None"
  "map_of build_files (''mkosi/base/mkosi.local/mkosi.extra/usr/lib/modules'') = None"
  "map_of build_files (''mkosi/base/mkosi.local/mkosi.extra/usr/lib/modules/6'') = None"
  "map_of build_files (''mkosi/base/mkosi.local/mkosi.extra/usr/lib/modules/6/vmlinuz'') = None"
  "map_of build_files ''/f'' = Some (Regular (of_bytes (sample_fw 7)))" "map_of build_files ''mkosi'' = Some Directory"
  "map_of build_files ''mkosi/base'' = Some Directory" "map_of build_files ''mkosi/initrd'' = Some Directory"
  by (simp_all add: build_get kernel_files_def sample_files_def sample_paths SNAPSHOT_PATH_def)

lemma fresh_kernel: "map_of build_files ''output'' = Some Directory" "map_of build_files ''/bin/mkosi'' = Some (Regular [])"
    "map_of build_files ''output/kernel/vmlinuz'' = Some (Regular ''kernel'')"
  using kernel_lookups [OF build_kernel_there [of "[]"]] by simp_all

abbreviation extra_dirs :: "(string \<times> node) list" where
  "extra_dirs \<equiv> map (\<lambda>q. (q, Directory)) [''mkosi'', ''mkosi/base'', ''mkosi/base/mkosi.local'', ''mkosi/base/mkosi.local/mkosi.extra'']"

abbreviation staged_files :: "(string \<times> node) list" where
  "staged_files \<equiv> map (\<lambda>q. (q, Directory)) [''output'', ''output/o''] @ extra_dirs @ (''.confos-build.lock'', Regular []) # build_files"

abbreviation modules_dirs :: "(string \<times> node) list" where
  "modules_dirs \<equiv> extra_dirs @ map (\<lambda>q. (q, Directory)) [''mkosi/base/mkosi.local/mkosi.extra/usr'',
     ''mkosi/base/mkosi.local/mkosi.extra/usr/lib'', ''mkosi/base/mkosi.local/mkosi.extra/usr/lib/modules'',
     ''mkosi/base/mkosi.local/mkosi.extra/usr/lib/modules/6'']"

lemma at_staged:
  "runs (at build_files) (lock_checkout B E) () (at ((''.confos-build.lock'', Regular []) # build_files))"
  "runs (at ((''.confos-build.lock'', Regular []) # build_files)) (sweep_stale_staged_profiles B ''mkosi/base/mkosi.profiles'') ()
     (at ((''.confos-build.lock'', Regular []) # build_files))"
  "runs (at ((''.confos-build.lock'', Regular []) # build_files)) (write_sync_inputs B ''mkosi/base/mkosi.local'' []) ()
     (at ((''.confos-build.lock'', Regular []) # build_files))"
  "runs (at ((''.confos-build.lock'', Regular []) # build_files)) (create_dir_all B MKOSI_EXTRA) ()
     (at (extra_dirs @ (''.confos-build.lock'', Regular []) # build_files))"
  "runs (at (extra_dirs @ (''.confos-build.lock'', Regular []) # build_files)) (prepare_output B ''o'') ''output/o'' (at staged_files)"
proof -
  show "runs (at build_files) (lock_checkout B E) () (at ((''.confos-build.lock'', Regular []) # build_files))"
    unfolding lock_checkout_def BUILD_LOCK_def
    apply (rule runs_then, rule at_write, simp add: fresh_get)
    apply (rule runs_then [where v = True], rule at_get)
     apply (simp add: with_tdx_def cached_env_def plain_env_def)
    apply (rule runs_simple)
    done
  show "runs (at ((''.confos-build.lock'', Regular []) # build_files)) (sweep_stale_staged_profiles B ''mkosi/base/mkosi.profiles'') ()
     (at ((''.confos-build.lock'', Regular []) # build_files))"
    by (rule runs_same) (simp add: sweep_stale_staged_profiles_def node_at_def sample_host_simps at_def fresh_get)
  have j: "path_join ''mkosi/base/mkosi.local'' SYNC_INPUT_DIR = ''mkosi/base/mkosi.local/.confos-sync-inputs''" by code_simp
  show "runs (at ((''.confos-build.lock'', Regular []) # build_files)) (write_sync_inputs B ''mkosi/base/mkosi.local'' []) ()
     (at ((''.confos-build.lock'', Regular []) # build_files))"
    unfolding write_sync_inputs_def Let_def
    apply (rule runs_then [where v = False], rule at_get)
     apply (simp add: entry_exists_def entry_at_def entry_path_def sample_host_simps j at_def fresh_get)
    apply (simp add: io_when_def)
    apply (rule runs_then, rule runs_simple)
    apply (simp add: runs_simple)
    done
  have l: "lineage MKOSI_EXTRA = [''mkosi'', ''mkosi/base'', ''mkosi/base/mkosi.local'', ''mkosi/base/mkosi.local/mkosi.extra'']"
    by code_simp
  show "runs (at ((''.confos-build.lock'', Regular []) # build_files)) (create_dir_all B MKOSI_EXTRA) ()
     (at (extra_dirs @ (''.confos-build.lock'', Regular []) # build_files))"
    by (rule at_create [OF l]) (simp add: fresh_get)
  have o: "path_join ''output'' ''o'' = ''output/o''" "lineage ''output/o'' = [''output'', ''output/o'']" by code_simp+
  show "runs (at (extra_dirs @ (''.confos-build.lock'', Regular []) # build_files)) (prepare_output B ''o'') ''output/o'' (at staged_files)"
    unfolding prepare_output_def Let_def o
    apply (rule runs_then [where v = False], rule at_get, simp add: sample_host_simps)
    apply (simp only: if_False)
    apply (rule runs_then, rule at_there(2), simp add: fresh_get)
    apply (simp only: not_False_eq_True if_True)
    apply (rule runs_then, rule runs_simple)
    apply (rule runs_then, rule at_create [OF o(2)], simp add: fresh_get fresh_kernel)
    apply (rule at_look(4), simp)
    done
qed

lemma at_modules:
  "runs (at staged_files) (stage_kernel B cached_kernel) ()
     (at ((''mkosi/base/mkosi.local/mkosi.extra/usr/lib/modules/6/vmlinuz'', Regular ''kernel'') # modules_dirs @ staged_files))"
proof -
  have d: "path_join (MKOSI_EXTRA @ ''/usr/lib/modules'') ''6'' = ''mkosi/base/mkosi.local/mkosi.extra/usr/lib/modules/6''"
    "path_join ''mkosi/base/mkosi.local/mkosi.extra/usr/lib/modules/6'' ''vmlinuz''
      = ''mkosi/base/mkosi.local/mkosi.extra/usr/lib/modules/6/vmlinuz''"
    "lineage ''mkosi/base/mkosi.local/mkosi.extra/usr/lib/modules/6'' = map fst modules_dirs"
    by code_simp+
  have m: "map (\<lambda>q. (q, Directory)) (map fst modules_dirs) = modules_dirs" by simp
  have c: "artifact_version cached_kernel = ''6''" "vmlinuz_path cached_kernel = ''output/kernel/vmlinuz''"
    by (simp_all add: cached_kernel_def)
  show ?thesis
    unfolding stage_kernel_def Let_def c d(1,2)
    apply (rule runs_then, rule at_create [OF d(3)], simp add: fresh_get)
    apply (simp only: m)
    apply (rule at_copy, simp add: fresh_kernel, simp add: fresh_get)
    done
qed

text \<open>The whole run.\<close>

lemma sample_confos_build: "\<exists>m w'. build_run B E tdx_args build_world = (Inr m, w')"
proof -
  let ?f5 = "(''mkosi/base/mkosi.local/mkosi.extra/usr/lib/modules/6/vmlinuz'', Regular ''kernel'') # modules_dirs @ staged_files"
  have f5: "map_of ?f5 ''/bin/mkosi'' = Some (Regular [])" "map_of ?f5 ''mkosi/initrd'' = Some Directory"
    "map_of ?f5 ''output/o/initrd.img'' = None"
    by (simp_all add: fresh_get fresh_kernel)
  obtain c where i: "runs (at ?f5) (build_initrd B ''output/o'') ''output/o/initrd.img''
    (at ([(''output/o/initrd.img'', Regular c), (''output/o/initrd.img'', Regular (stamped CHR ''a''))]
      @ mkosi_products ''mkosi/initrd'' @ ?f5))" (is "runs _ _ _ (at ?f6)")
    using at_initrd [OF f5] by blast
  have p: "mkosi_products ''mkosi/initrd'' = [(''mkosi/initrd/mkosi.output/image.cpio.gz'', Regular (stamped CHR ''a''))]"
    "mkosi_products ''mkosi/base'' =
        [(''mkosi/base/mkosi.output/image.efi'', Regular (of_bytes (sample_pe 9 0 0 []))),
         (''mkosi/base/mkosi.output/image.raw'', Regular (of_bytes (sample_disk 0 0))),
         (''mkosi/base/mkosi.output/image.roothash'', Regular sample_zeros),
         (''mkosi/base/mkosi.output/image.SHA256SUMS'', Regular sample_sums)]"
    by (simp_all add: mkosi_products_def)
  let ?f7 = "mkosi_products ''mkosi/base'' @ [(''mkosi'', Directory), (''mkosi/base'', Directory), (''mkosi/base/mkosi.output'', Directory)] @ ?f6"
  have m: "runs (at ?f6) (run_image_mkosi B tdx_args [] ''output/o/initrd.img'') () (at ?f7)"
    by (rule at_image) (simp_all add: p fresh_get fresh_kernel)
  let ?f8 = "[(''output/o/roothash'', Regular sample_zeros), (''output/o/uki.efi'', Regular (of_bytes (sample_pe 9 0 0 [])))] @ ?f7"
  have a: "runs (at ?f7) (take_artifacts B E ''output/o'') () (at ?f8)"
    by (rule at_artifacts) (simp_all add: p fresh_get fresh_kernel)
  have "\<exists>x. runs (at ?f8) (measure_image B E tdx_args OnlyTdx (artifact_manifest cached_kernel) ''output/o'' ''output/o/initrd.img'') x (\<lambda>_. True)"
    by (rule at_measured [where i = c]) (simp_all add: p fresh_get)
  then obtain x where x: "runs (at ?f8) (measure_image B E tdx_args OnlyTdx (artifact_manifest cached_kernel) ''output/o''
      ''output/o/initrd.img'') x (\<lambda>_. True)" ..
  have k: "kernel_there staged_files"
  proof -
    have o: "map_of kernel_files ''output'' = Some Directory"
      by (simp add: kernel_files_def sample_files_def sample_paths SNAPSHOT_PATH_def)
    have n: "p \<notin> fst ` set kernel_files" if "p \<in> {''output/o'', ''mkosi'', ''mkosi/base'', ''mkosi/base/mkosi.local'',
        ''mkosi/base/mkosi.local/mkosi.extra'', ''.confos-build.lock''}" for p
      using that by (auto simp: kernel_files_def sample_files_def sample_paths SNAPSHOT_PATH_def)
    have "kernel_there ((map (\<lambda>q. (q, Directory)) [''output'', ''output/o''] @ extra_dirs
        @ [(''.confos-build.lock'', Regular [])]) @ build_files)"
      by (rule build_kernel_there) (use o n in \<open>simp_all add: child_name_def strip_prefix_def TOOLS_TREE_SANDBOX_def\<close>)
    then show ?thesis by simp
  qed
  have e: "be_kernel E = sample_codec" by (simp add: with_tdx_def cached_env_def)
  have v: "artifact_manifest cached_kernel = sample_manifest" by (simp add: cached_kernel_def)
  have s: "runs (at staged_files) (build_steps B E tdx_args OnlyTdx ''output/o'' []) x (\<lambda>_. True)"
    unfolding build_steps_def sample_build_args e
    by (rule runs_then, rule at_kernel [OF k], rule runs_then, rule at_modules, rule runs_then, rule i,
        rule runs_then, rule m, rule runs_then, rule a, rule x)
  have none: "check_option None g = io_return ()" for g by (simp add: check_option_def)
  have b: "map_of (extra_dirs @ (''.confos-build.lock'', Regular []) # build_files) ''/bin/mkosi'' = Some (Regular [])"
    by (simp add: fresh_kernel)
  have "runs (at ((''.confos-build.lock'', Regular []) # build_files)) (build_staged B E tdx_args OnlyTdx) x (\<lambda>_. True)"
    unfolding build_staged_def sample_build_args none
    by (rule runs_then, rule at_staged(4), rule runs_then, rule runs_simple, rule runs_then, rule at_command(2), rule b,
        rule runs_then, rule at_staged(5), rule runs_then, rule runs_simple, rule runs_staged, rule s)
  from runs_guarded [OF this]
  have "runs (at build_files) (build_run B E tdx_args) x (\<lambda>_. True)"
    unfolding build_run_def sample_build_args
    by - (rule runs_then, rule at_checked, rule runs_then, rule at_staged(1), rule runs_then, rule at_staged(2),
        rule runs_then, rule at_staged(3))
  then show ?thesis using at_build_world unfolding runs_def by blast
qed

section \<open>The hypotheses hold\<close>

lemma build_clear: "clear_output B ''output/o'' {''/g'', ''/f''}"
proof -
  have "\<not> prefix ''/'' n" if "n \<in> image_files" for n using that by (auto simp: image_files_def igvm_name_def)
  then show ?thesis by (auto simp: clear_output_def out_join sample_host_simps intro!: inj_onI)
qed

lemma build_local: "mv_local B ''output/o'' {''/g'', ''/f''}"
proof -
  have j: "\<not> prefix ''/'' n" if "n \<in> image_files" for n using that by (auto simp: image_files_def igvm_name_def)
  have "p \<noteq> ''output/o/disk.raw''" if "p \<in> {''/g'', ''/f''} \<union> path_join ''output/o'' ` (image_files - {''disk.raw''})" for p
    using that j by (auto simp: out_join)
  then show ?thesis by (auto simp: mv_local_def build_exec_def out_join sample_host_simps node_at_def split: option.splits)
qed

lemma build_undisturbed: "undisturbed B ''output/o'' tdx_args"
proof -
  have j: "\<not> prefix ''/'' n" if "n \<in> image_files" for n using that by (auto simp: image_files_def igvm_name_def)
  have "guarded tdx_args = {''mkosi/base/mkosi.local''}" by (simp add: guarded_def sample_build_args)
  then show ?thesis using j by (auto simp: undisturbed_def removable_def sample_host_simps below_def out_join)
qed



end
