(* ===== verification/RunVm.thy ===== *)
theory RunVm
  imports ImageManifest Qemu FileTree
begin

text \<open>
  \<open>src/commands/run.rs\<close>, and the parser of \<open>--host-data\<close> in \<open>src/lib.rs\<close>: which QEMU command line boots an image.
  The manifest comes from a file; its fields are checked before they become arguments.
\<close>

datatype run_error =
    InQemu qemu_error
  | InImage manifest_error
  | NoDirectory string
  | NoManifest string
  | UnsupportedFormat string
  | UnsupportedPlatform string
  | BadVariantSmp nat
  | NoSuchVariant nat "nat list"
  | NoVariants string
  | IgvmMissing string
  | HostDataTier
  | NoUkiFile string
  | NoFirmwareFile string
  | NoFirmwareAvailable
  | NoDisk string
  | BadPortForward string
  | BadPort string

type_synonym 'a run_io = "(run_error, 'a) io"

section \<open>Arguments\<close>

definition is_ascii_uppercase :: "char \<Rightarrow> bool" where
  "is_ascii_uppercase c \<longleftrightarrow> 65 \<le> (of_char c :: nat) \<and> (of_char c :: nat) \<le> 90"

text \<open>\<open>hex::decode_to_slice\<close> into 32 bytes takes 64 digits of either case.\<close>

definition parse_host_data :: "string \<Rightarrow> bytes option" where
  "parse_host_data s =
     (if list_ex is_ascii_uppercase s \<or> length s \<noteq> 64 then None else hex_decode s)"

record run_args =
  ra_dir :: string
  ra_port_forward :: "string list"
  ra_qemu_bin :: string
  ra_firmware :: "string option"
  ra_host_data :: "bytes option"
  ra_cdroms :: "string list"
  ra_smp :: "nat option"
  ra_scratch :: "string option"

definition parse_u16 :: "string \<Rightarrow> nat option" where
  "parse_u16 s = (case parse_u64 s of None \<Rightarrow> None | Some n \<Rightarrow> if n < 65536 then Some n else None)"

definition parse_port_forward :: "string \<Rightarrow> run_error fault + nat \<times> nat" where
  "parse_port_forward s =
     and_then (ok_or (Err (BadPortForward s)) (split_once CHR '':'' s)) (\<lambda>(host_str, guest_str).
     and_then (ok_or (Err (BadPort host_str)) (parse_u16 host_str)) (\<lambda>host.
     and_then (ok_or (Err (BadPort guest_str)) (parse_u16 guest_str)) (\<lambda>guest.
     Inr (host, guest))))"

fun parse_port_forwards :: "string list \<Rightarrow> run_error fault + (nat \<times> nat) list" where
  "parse_port_forwards [] = Inr []"
| "parse_port_forwards (s # ss) =
     and_then (parse_port_forward s) (\<lambda>p. and_then (parse_port_forwards ss) (\<lambda>ps. Inr (p # ps)))"

section \<open>Checks of the manifest\<close>

definition ALLOWED_DISK_FORMATS :: "string list" where
  "ALLOWED_DISK_FORMATS = [''raw'', ''qcow2'']"

definition ALLOWED_PLATFORMS :: "string list" where
  "ALLOWED_PLATFORMS = [''snp'', ''tdx'', ''multi'', ''generic'']"

fun check_variant_smps :: "snp_variant list \<Rightarrow> run_error fault + unit" where
  "check_variant_smps [] = Inr ()"
| "check_variant_smps (v # vs) =
     (if sv_smp v = 0 \<or> 1024 < sv_smp v then bail (BadVariantSmp (sv_smp v)) else check_variant_smps vs)"

definition validate_manifest_fields :: "build_manifest \<Rightarrow> run_error fault + unit" where
  "validate_manifest_fields m =
     and_then (ensure (ib_format (bm_build m) \<in> set ALLOWED_DISK_FORMATS) (Err (UnsupportedFormat (ib_format (bm_build m))))) (\<lambda>_.
     and_then (ensure (ib_platform (bm_build m) \<in> set ALLOWED_PLATFORMS)
       (Err (UnsupportedPlatform (ib_platform (bm_build m))))) (\<lambda>_.
     and_then (map_err InQemu (validate_memory (ib_memory (bm_build m)))) (\<lambda>_.
     check_variant_smps (bm_variants m))))"

text \<open>No variant at all is \<open>None\<close>; variants of other processor counts only are an error.\<close>

definition select_variant :: "snp_variant list \<Rightarrow> nat option \<Rightarrow> run_error fault + snp_variant option" where
  "select_variant variants smp =
     (case smp of
        None \<Rightarrow> Inr (case variants of [] \<Rightarrow> None | v # _ \<Rightarrow> Some v)
      | Some n \<Rightarrow>
          if variants = [] then Inr None
          else case find (\<lambda>v. sv_smp v = n) variants of
                 Some v \<Rightarrow> Inr (Some v)
               | None \<Rightarrow> bail (NoSuchVariant n (map sv_smp variants)))"

section \<open>Booting\<close>

record boot_config =
  bc_igvm :: "string option"
  bc_uki :: "string option"
  bc_firmware :: "string option"
  bc_smp :: nat
  bc_digest :: "string option"

definition need_file :: "host \<Rightarrow> string \<Rightarrow> run_error \<Rightarrow> unit run_io" where
  "need_file h p e = then_io (io_get (path_exists h p)) (\<lambda>there. io_check there e)"

definition snp_boot :: "host \<Rightarrow> run_args \<Rightarrow> build_manifest \<Rightarrow> boot_config run_io" where
  "snp_boot h args m =
     then_io (io_of (select_variant (bm_variants m) (ra_smp args))) (\<lambda>chosen.
     then_io (io_of (ok_or (Err (NoVariants (ra_dir args))) chosen)) (\<lambda>v.
     let path = path_join (ra_dir args) (fe_path (sv_igvm v)) in
     then_io (need_file h path (IgvmMissing path)) (\<lambda>_.
     io_return \<lparr> bc_igvm = Some path, bc_uki = None, bc_firmware = None, bc_smp = sv_smp v,
                 bc_digest = Some (me_digest (sv_measurement v)) \<rparr>)))"

text \<open>The firmware of the command line comes before that of the image.\<close>

definition plain_firmware :: "host \<Rightarrow> run_args \<Rightarrow> build_manifest \<Rightarrow> string run_io" where
  "plain_firmware h args m =
     (case ra_firmware args of
        Some fw \<Rightarrow> then_io (need_file h fw (NoFirmwareFile fw)) (\<lambda>_. io_return fw)
      | None \<Rightarrow>
          if ii_firmware (bm_inputs m) \<noteq> None then
            (let fw = path_join (ra_dir args) ''OVMF.fd'' in
             then_io (need_file h fw (NoFirmwareFile fw)) (\<lambda>_. io_return fw))
          else io_of (bail NoFirmwareAvailable))"

definition plain_boot :: "host \<Rightarrow> run_args \<Rightarrow> build_manifest \<Rightarrow> boot_config run_io" where
  "plain_boot h args m =
     then_io (io_check (ra_host_data args = None) HostDataTier) (\<lambda>_.
     let uki = path_join (ra_dir args) ''uki.efi'' in
     then_io (need_file h uki (NoUkiFile (ra_dir args))) (\<lambda>_.
     then_io (plain_firmware h args m) (\<lambda>fw.
     io_return \<lparr> bc_igvm = None, bc_uki = Some uki, bc_firmware = Some fw,
       bc_smp = (case ra_smp args of Some n \<Rightarrow> n | None \<Rightarrow> (case bm_variants m of [] \<Rightarrow> 2 | v # _ \<Rightarrow> sv_smp v)),
       bc_digest = None \<rparr>)))"

definition resolve_boot_config :: "host \<Rightarrow> run_args \<Rightarrow> build_manifest \<Rightarrow> qemu_tier \<Rightarrow> boot_config run_io" where
  "resolve_boot_config h args m tier = (case tier of SevSnp \<Rightarrow> snp_boot h args m | _ \<Rightarrow> plain_boot h args m)"

text \<open>A fresh sparse file of the size asked for.\<close>

definition make_scratch :: "host \<Rightarrow> run_args \<Rightarrow> string option run_io" where
  "make_scratch h args =
     (case ra_scratch args of
        None \<Rightarrow> io_return None
      | Some text \<Rightarrow>
          then_io (io_of (map_err InQemu (parse_size_to_bytes text))) (\<lambda>n.
          let path = path_join (ra_dir args) ''scratch.raw'' in
          then_io (write_bytes h path []) (\<lambda>_.
          then_io (write_bytes h path (replicate n (CHR 0x00))) (\<lambda>_.
          io_return (Some path)))))"

definition launch_args ::
  "run_args \<Rightarrow> build_manifest \<Rightarrow> qemu_tier \<Rightarrow> boot_config \<Rightarrow> (nat \<times> nat) list \<Rightarrow> string option \<Rightarrow> qemu_args" where
  "launch_args args m tier boot forwards scratch =
     \<lparr> qa_tier = tier, qa_bin = ra_qemu_bin args, qa_igvm = bc_igvm boot, qa_uki = bc_uki boot,
       qa_firmware = bc_firmware boot, qa_disk = path_join (ra_dir args) (''disk.'' @ ib_format (bm_build m)),
       qa_disk_format = ib_format (bm_build m), qa_smp = bc_smp boot, qa_memory = ib_memory (bm_build m),
       qa_host_data = ra_host_data args, qa_cdroms = ra_cdroms args, qa_port_forwards = forwards, qa_scratch = scratch \<rparr>"

definition run_manifest :: "host \<Rightarrow> manifest_codec \<Rightarrow> run_args \<Rightarrow> build_manifest run_io" where
  "run_manifest h j args =
     (let manifest_path = path_join (ra_dir args) ''manifest.json'' in
      then_io (need_file h (ra_dir args) (NoDirectory (ra_dir args))) (\<lambda>_.
      then_io (need_file h manifest_path (NoManifest (ra_dir args))) (\<lambda>_.
      then_io (map_io InImage (read_manifest h j manifest_path)) (\<lambda>m.
      then_io (io_of (validate_manifest_fields m)) (\<lambda>_.
      io_return m)))))"

definition run_vm :: "host \<Rightarrow> (bytes \<Rightarrow> string) \<Rightarrow> manifest_codec \<Rightarrow> run_args \<Rightarrow> string list run_io" where
  "run_vm h base64 j args =
     then_io (map_io InQemu (validate_cdroms h (ra_cdroms args))) (\<lambda>_.
     then_io (run_manifest h j args) (\<lambda>m.
     then_io (detect_tier_for h (ra_qemu_bin args)) (\<lambda>tier.
     then_io (resolve_boot_config h args m tier) (\<lambda>boot.
     let disk_path = path_join (ra_dir args) (''disk.'' @ ib_format (bm_build m)) in
     then_io (need_file h disk_path (NoDisk disk_path)) (\<lambda>_.
     then_io (io_of (parse_port_forwards (ra_port_forward args))) (\<lambda>forwards.
     then_io (make_scratch h args) (\<lambda>scratch.
     map_io InQemu (launch h base64 (launch_args args m tier boot forwards scratch)))))))))"

section \<open>Host data\<close>

lemma hex_digit_lower: "n < 16 \<Longrightarrow> \<not> is_ascii_uppercase (hex_digit n)"
proof -
  have "list_all (\<lambda>n. \<not> is_ascii_uppercase (hex_digit n)) [0..<16]" by code_simp
  then show "n < 16 \<Longrightarrow> ?thesis" by (simp add: list_all_iff del: upt_Suc)
qed

lemma hex_digit_code: "n < 16 \<Longrightarrow> (of_char (hex_digit n) :: nat) = (if n < 10 then 48 + n else 87 + n)"
proof -
  have "list_all (\<lambda>n. (of_char (hex_digit n) :: nat) = (if n < 10 then 48 + n else 87 + n)) [0..<16]" by code_simp
  then show "n < 16 \<Longrightarrow> ?thesis" by (simp add: list_all_iff del: upt_Suc)
qed

lemma hex_val_lower:
  assumes "hex_val c = Some n" "\<not> is_ascii_uppercase c"
  shows "n < 16 \<and> hex_digit n = c"
proof -
  have n: "n < 16" "(of_char c :: nat) = (if n < 10 then 48 + n else 87 + n)"
    using assms by (auto simp: hex_val_def is_ascii_uppercase_def Let_def split: if_splits)
  then have "(of_char (hex_digit n) :: nat) = of_char c" by (simp add: hex_digit_code)
  then show ?thesis using n(1) by (metis char_of_char)
qed

lemma hex_encode_lower_case: "\<not> list_ex is_ascii_uppercase (hex_encode bs)"
proof (induction bs)
  case (Cons b bs)
  have b: "unat b div 16 < 16" "unat b mod 16 < 16" using unat_byte_less [of b] by (simp_all add: less_mult_imp_div_less)
  then show ?case using Cons hex_digit_lower by (simp add: hex_encode_def)
qed (simp add: hex_encode_def)

lemma hex_decode_canonical:
  "hex_decode s = Some bs \<Longrightarrow> \<not> list_ex is_ascii_uppercase s \<Longrightarrow> s = hex_encode bs"
proof (induction s arbitrary: bs rule: hex_decode.induct)
  case (3 c d s)
  then obtain x y t where t: "hex_val c = Some x" "hex_val d = Some y" "hex_decode s = Some t" "bs = of_nat (16 * x + y) # t"
    by (auto split: option.splits)
  have v: "x < 16" "hex_digit x = c" "y < 16" "hex_digit y = d"
    using hex_val_lower [OF t(1)] hex_val_lower [OF t(2)] 3(3) by auto
  have "unat (of_nat k :: byte) = k" if "k < 256" for k using that by (simp add: unat_of_nat)
  then have "unat (of_nat (16 * x + y) :: byte) = 16 * x + y" using v(1,3) by (simp del: of_nat_add of_nat_mult)
  then have "hex_encode bs = c # d # hex_encode t" using v by (simp add: t(4) hex_encode_def)
  moreover have "s = hex_encode t" using 3(1) 3(3) t by simp
  ultimately show ?case by simp
qed (simp_all add: hex_encode_def)

text \<open>
  \<open>--host-data\<close> accepts exactly the lower-case hexadecimal text of 32 bytes, and gives those bytes.
\<close>

theorem parse_host_data_exact: "parse_host_data s = Some bs \<longleftrightarrow> length bs = 32 \<and> s = hex_encode bs"
proof
  assume "parse_host_data s = Some bs"
  then have *: "hex_decode s = Some bs" "\<not> list_ex is_ascii_uppercase s" "length s = 64"
    by (auto simp: parse_host_data_def split: if_splits)
  then have "s = hex_encode bs" using hex_decode_canonical by blast
  then show "length bs = 32 \<and> s = hex_encode bs" using *(3) by simp
next
  assume "length bs = 32 \<and> s = hex_encode bs"
  then show "parse_host_data s = Some bs" using hex_decode_encode hex_encode_lower_case by (simp add: parse_host_data_def)
qed

section \<open>A run\<close>

lemma select_variant_Inr:
  "select_variant vs smp = Inr (Some v) \<Longrightarrow> v \<in> set vs \<and> (case smp of None \<Rightarrow> v = hd vs | Some n \<Rightarrow> sv_smp v = n)"
  by (auto simp: select_variant_def find_Some_iff split: option.splits list.splits if_splits)

lemma check_variant_smps_Inr:
  "check_variant_smps vs = Inr u \<longleftrightarrow> list_all (\<lambda>v. 1 \<le> sv_smp v \<and> sv_smp v \<le> 1024) vs"
  by (induction vs) auto

lemma launch_Inr:
  assumes "launch h base64 q w = (Inr argv, w')"
  obtains bin cmd w1 where "to_args h base64 q w1 = (Inr cmd, w')" "argv = (if qa_tier q = SevSnp then [''sudo''] else []) @ bin # cmd"
    "w1 = w"
proof -
  have r: "reads_only (resolve_qemu h b :: (qemu_error, string) io)" for b
    unfolding resolve_qemu_def by (intro looks)
  obtain bin w1 cmd w2 where *: "(resolve_qemu h (qa_bin q) :: (qemu_error, string) io) w = (Inr bin, w1)"
    "to_args h base64 q w1 = (Inr cmd, w2)"
    "(case qa_tier q of
       SevSnp \<Rightarrow> then_io (io_of (ok_or (Err NoIgvm) (qa_igvm q))) (\<lambda>_. io_return (''sudo'' # bin # cmd))
     | _ \<Rightarrow>
         then_io (io_of (ok_or (Err NoUki) (qa_uki q))) (\<lambda>_.
         then_io (io_of (ok_or (Err NoFirmware) (qa_firmware q))) (\<lambda>_.
         io_return (bin # cmd)))) w2 = (Inr argv, w')"
    using assms unfolding launch_def by (elim then_ioE) blast
  have "w1 = w" by (rule reads_onlyD [OF r *(1)])
  moreover have "argv = (if qa_tier q = SevSnp then [''sudo''] else []) @ bin # cmd" "w2 = w'"
    using *(3) by (cases "qa_tier q"; auto simp: io_simps)+
  ultimately show ?thesis using that *(2) by blast
qed

text \<open>The boot of an SNP guest: the variant that was asked for, or the first.\<close>

definition snp_choice :: "run_args \<Rightarrow> build_manifest \<Rightarrow> boot_config \<Rightarrow> bool" where
  "snp_choice args m boot \<longleftrightarrow>
     (\<exists>v \<in> set (bm_variants m). bc_igvm boot = Some (path_join (ra_dir args) (fe_path (sv_igvm v)))
        \<and> bc_smp boot = sv_smp v \<and> 1 \<le> sv_smp v \<and> sv_smp v \<le> 1024 \<and> bc_digest boot = Some (me_digest (sv_measurement v))
        \<and> (case ra_smp args of None \<Rightarrow> v = hd (bm_variants m) | Some n \<Rightarrow> sv_smp v = n))"

lemma snp_boot_Inr:
  assumes "snp_boot h args m w = (Inr boot, w')" "validate_manifest_fields m = Inr ()"
  shows "snp_choice args m boot"
proof -
  obtain v where "select_variant (bm_variants m) (ra_smp args) = Inr (Some v)"
    "boot = \<lparr> bc_igvm = Some (path_join (ra_dir args) (fe_path (sv_igvm v))), bc_uki = None, bc_firmware = None,
       bc_smp = sv_smp v, bc_digest = Some (me_digest (sv_measurement v)) \<rparr>"
    using assms(1) unfolding snp_boot_def Let_def by (elim then_ioE) (auto simp: io_simps)
  moreover have "list_all (\<lambda>v. 1 \<le> sv_smp v \<and> sv_smp v \<le> 1024) (bm_variants m)"
    using assms(2) by (auto simp: validate_manifest_fields_def check_variant_smps_Inr)
  ultimately show ?thesis
    using select_variant_Inr unfolding snp_choice_def by (fastforce simp: list_all_iff)
qed

lemma plain_boot_Inr: "plain_boot h args m w = (Inr boot, w') \<Longrightarrow> ra_host_data args = None"
  by (auto simp: plain_boot_def io_simps)

text \<open>
  C9. What \<open>confos run\<close> executes: QEMU reads from every argument exactly the properties that the program means, so no
  field of the manifest, no path and no host data can add or end one; a confidential guest boots the variant of the
  manifest that was asked for, with its number of processors, and host data never reaches a guest that is not
  confidential.
\<close>

theorem run_vm_injects_nothing:
  assumes "run_vm h base64 j args w = (Inr argv, w')" and "\<And>d. CHR '','' \<notin> set (base64 d)"
  shows "\<exists>m tier boot forwards scratch bin cmd.
    (\<exists>w0. run_manifest h j args w0 = (Inr m, w0)) \<and> validate_manifest_fields m = Inr ()
    \<and> (\<exists>w1 w2. (detect_tier_for h (ra_qemu_bin args) :: qemu_tier run_io) w1 = (Inr tier, w2))
    \<and> argv = (if tier = SevSnp then [''sudo''] else []) @ bin # cmd
    \<and> map (split_char CHR '','') cmd = qemu_properties base64 (launch_args args m tier boot forwards scratch)
    \<and> (if tier = SevSnp then snp_choice args m boot else ra_host_data args = None)"
proof -
  obtain u w1 m w2 tier w3 boot w4 u2 w5 forwards w6 scratch w7 where *:
    "map_io InQemu (validate_cdroms h (ra_cdroms args)) w = (Inr u, w1)"
    "run_manifest h j args w1 = (Inr m, w2)"
    "(detect_tier_for h (ra_qemu_bin args) :: qemu_tier run_io) w2 = (Inr tier, w3)"
    "resolve_boot_config h args m tier w3 = (Inr boot, w4)"
    "map_io InQemu (launch h base64 (launch_args args m tier boot forwards scratch)) w7 = (Inr argv, w')"
    using assms(1) unfolding run_vm_def Let_def by (elim then_ioE) (rule that, assumption+)
  have r: "reads_only (run_manifest h j args)"
    unfolding run_manifest_def need_file_def read_manifest_def Let_def by (intro looks)
  have w: "w2 = w1" by (rule reads_onlyD [OF r *(2)])
  have v: "validate_manifest_fields m = Inr ()"
    using *(2) unfolding run_manifest_def Let_def by (elim then_ioE) (auto simp: io_simps)
  let ?q = "launch_args args m tier boot forwards scratch"
  have l: "launch h base64 ?q w7 = (Inr argv, w')" using *(5) by (simp add: map_io_Inr)
  obtain bin cmd w8 where c: "to_args h base64 ?q w8 = (Inr cmd, w')"
    "argv = (if qa_tier ?q = SevSnp then [''sudo''] else []) @ bin # cmd"
    by (rule launch_Inr [OF l])
  have "valid_memory (qa_memory ?q)"
    using v by (auto simp: validate_manifest_fields_def launch_args_def validate_memory_def)
  then have "map (split_char CHR '','') cmd = qemu_properties base64 ?q"
    by (intro qemu_properties_split [OF c(1)] valid_memory_chars assms(2))
  moreover have "if tier = SevSnp then snp_choice args m boot else ra_host_data args = None"
    using *(4) snp_boot_Inr [OF _ v] plain_boot_Inr by (cases tier) (auto simp: resolve_boot_config_def)
  ultimately show ?thesis
    using *(2,3) w v c(2) by (intro exI [of _ m] exI [of _ tier] exI [of _ boot] exI [of _ forwards] exI [of _ scratch]
      exI [of _ bin] exI [of _ cmd] conjI) (auto simp: launch_args_def)
qed

text \<open>A machine with SEV-SNP, and the sample image with a disk.\<close>

definition snp_host :: host where
  "snp_host = sample_host (\<lambda>_ w. (\<lparr> exit_ok = True, cmd_stdout = ''sev-snp-guest igvm-cfg'', cmd_stderr = [] \<rparr>, w))"

definition run_world :: world where
  "run_world = bt_insert ''/dev/kvm'' (Regular []) (bt_insert ''/o/disk.raw'' (Regular []) sample_image)"

definition sample_run_args :: run_args where
  "sample_run_args =
     \<lparr> ra_dir = ''/o'', ra_port_forward = [''8:9''], ra_qemu_bin = ''qemu'', ra_firmware = None, ra_host_data = None,
       ra_cdroms = [], ra_smp = Some 2, ra_scratch = None \<rparr>"

lemma snp_host_simps:
  "which snp_host t = Some (''/bin/'' @ t)"
  "exec snp_host a w = (\<lparr> exit_ok = True, cmd_stdout = ''sev-snp-guest igvm-cfg'', cmd_stderr = [] \<rparr>, w)"
  by (simp_all add: snp_host_def sample_host_def)

lemma run_world_get:
  "node_at snp_host run_world p = bt_get run_world p" "path_exists snp_host p run_world \<longleftrightarrow> bt_get run_world p \<noteq> None"
  "bt_get run_world p = (if p = ''/dev/kvm'' \<or> p = ''/o/disk.raw'' then Some (Regular []) else bt_get sample_image p)"
  by (simp_all add: path_exists_def node_at_def snp_host_def sample_host_def run_world_def)

lemma run_world_read:
  "bt_get run_world p = Some (Regular c) \<Longrightarrow> read_bytes snp_host p run_world = (Inr c, run_world)"
  by (simp add: read_bytes_def node_at_def snp_host_def sample_host_def)

lemma run_vm_injects_nothing_witness:
  "\<exists>m tier boot forwards scratch bin cmd.
    fst (run_vm snp_host (\<lambda>_. []) sample_manifest_codec sample_run_args run_world)
      = Inr ((if tier = SevSnp then [''sudo''] else []) @ bin # cmd)
    \<and> map (split_char CHR '','') cmd = qemu_properties (\<lambda>_. []) (launch_args sample_run_args m tier boot forwards scratch)
    \<and> (if tier = SevSnp then snp_choice sample_run_args m boot else ra_host_data sample_run_args = None)"
proof -
  have n: "bt_get sample_image ''qemu'' = None" by (simp add: sample_image_def bt_get_def)
  let ?boot = "\<lparr> bc_igvm = Some ''/o/guest-smp2.igvm'', bc_uki = None, bc_firmware = None, bc_smp = 2,
    bc_digest = Some (replicate 96 CHR ''0'') \<rparr>"
  let ?q = "launch_args sample_run_args sample_manifest SevSnp ?boot [(8, 9)] None"
  have valid: "validate_manifest_fields sample_manifest = Inr ()" by code_simp
  have utf8: "valid_str ''{}''" by code_simp
  have m: "run_manifest snp_host sample_manifest_codec sample_run_args run_world = (Inr sample_manifest, run_world)"
    using valid utf8
    by (simp add: run_manifest_def need_file_def Let_def then_io_run map_io_run io_steps run_world_get sample_image_nodes n sample_run_args_def
        sample_joined read_manifest_def read_to_string_def run_world_read decode_manifest_def sample_manifest_codec_def
        MANIFEST_VERSION_def)
  have tier: "select_tier ''sev-snp-guest igvm-cfg'' True = SevSnp" by code_simp
  have t: "(detect_tier_for snp_host ''qemu'' :: qemu_tier run_io) run_world = (Inr SevSnp, run_world)"
    by (simp add: detect_tier_for_def resolve_qemu_def then_io_run io_steps run_world_get sample_image_nodes n run_command_def
        require_tool_def snp_host_simps tier)
  have chosen: "select_variant (bm_variants sample_manifest) (Some 2) = Inr (Some (hd (bm_variants sample_manifest)))"
    by (simp add: select_variant_def sample_manifest_def)
  have b: "resolve_boot_config snp_host sample_run_args sample_manifest SevSnp run_world = (Inr ?boot, run_world)"
    by (simp add: resolve_boot_config_def snp_boot_def need_file_def Let_def then_io_run io_steps run_world_get sample_image_nodes n
        sample_run_args_def chosen sample_joined)
      (simp add: sample_manifest_def sample_entry_def sample_igvm_name sample_joined then_io_run io_steps run_world_get sample_image_nodes n)
  have p: "parse_port_forward ''8:9'' = Inr (8, 9)"
    by (simp add: parse_port_forward_def parse_u16_def exec_simps u64_limit_def)
  have q: "\<exists>cmd. to_args snp_host (\<lambda>_. []) ?q run_world = (Inr cmd, run_world)"
    by (simp add: to_args_def validate_cdroms_def then_io_run io_steps reject_comma_in_path_def reject_comma_opt_def
        launch_args_def sample_run_args_def sample_manifest_def sample_joined tier_args_def ensure_def)
  obtain cmd where q: "to_args snp_host (\<lambda>_. []) ?q run_world = (Inr cmd, run_world)" using q by blast
  have f: "qa_bin ?q = ''qemu''" "qa_tier ?q = SevSnp" "qa_igvm ?q = Some ''/o/guest-smp2.igvm''"
    by (simp_all add: launch_args_def sample_run_args_def)
  have l: "launch snp_host (\<lambda>_. []) ?q run_world = (Inr (''sudo'' # ''/bin/qemu'' # cmd), run_world)"
    by (simp add: launch_def resolve_qemu_def then_io_run io_steps run_world_get sample_image_nodes n q f snp_host_simps
        require_tool_def)
  have a: "ra_cdroms sample_run_args = []" "ra_qemu_bin sample_run_args = ''qemu''" "ra_scratch sample_run_args = None"
    "ra_port_forward sample_run_args = [''8:9'']" "ra_dir sample_run_args = ''/o''"
    "ib_format (bm_build sample_manifest) = ''raw''" "path_join ''/o'' ''disk.raw'' = ''/o/disk.raw''"
    by (simp_all add: sample_run_args_def sample_manifest_def sample_joined)
  have c: "(validate_cdroms snp_host [] :: (qemu_error, unit) io) run_world = (Inr (), run_world)"
    by (simp add: validate_cdroms_def io_steps)
  have d: "need_file snp_host ''/o/disk.raw'' e run_world = (Inr (), run_world)" for e
    by (simp add: need_file_def io_steps run_world_get)
  have run: "run_vm snp_host (\<lambda>_. []) sample_manifest_codec sample_run_args run_world
      = (Inr (''sudo'' # ''/bin/qemu'' # cmd), run_world)"
    by (simp add: run_vm_def Let_def then_io_run map_io_run io_steps m t b l p a d c make_scratch_def)
  from run_vm_injects_nothing [OF run] obtain m tier boot forwards scratch bin c where
    "''sudo'' # ''/bin/qemu'' # cmd = (if tier = SevSnp then [''sudo''] else []) @ bin # c"
    "map (split_char CHR '','') c = qemu_properties (\<lambda>_. []) (launch_args sample_run_args m tier boot forwards scratch)"
    "if tier = SevSnp then snp_choice sample_run_args m boot else ra_host_data sample_run_args = None"
    by auto
  moreover note run
  ultimately show ?thesis by (metis fst_conv)
qed

section \<open>Platforms\<close>

text \<open>
  C35. An image with TDX measurements is refused by \<open>confos run\<close> once \<open>confos igvm\<close> has written its manifest: the
  platform that the one writes is not among those that the other knows.
\<close>

theorem run_refuses_derived:
  assumes "bm_tdx m \<noteq> None" and "ib_format (bm_build m) \<in> set ALLOWED_DISK_FORMATS"
  shows "validate_manifest_fields (updated_manifest m vs) = bail (UnsupportedPlatform ''both'')"
  using assms by (simp add: validate_manifest_fields_def updated_manifest_def ensure_def ALLOWED_PLATFORMS_def)

lemma run_refuses_derived_witness:
  "\<exists>m vs. bm_tdx m \<noteq> None \<and> validate_manifest_fields (updated_manifest m vs) = bail (UnsupportedPlatform ''both'')"
proof -
  let ?m = "sample_manifest \<lparr> bm_tdx := Some \<lparr> tm_mrtd = [], tm_rtmr1 = [], tm_rtmr2 = [], tm_firmware = None \<rparr> \<rparr>"
  have "ib_format (bm_build ?m) \<in> set ALLOWED_DISK_FORMATS" by (simp add: sample_manifest_def ALLOWED_DISK_FORMATS_def)
  then show ?thesis using run_refuses_derived [of ?m "[]"] by (intro exI [of _ ?m] exI [of _ "[]"]) simp
qed

end
