(* ===== verification/BuiltRuns.thy ===== *)
theory BuiltRuns
  imports BuildSample RunVm
begin

text \<open>What \<open>confos build\<close> and \<open>confos run\<close> agree on.\<close>

lemma measured_image_admitted:
  assumes "check_args h args v = (Inr platform, v')"
    and "measure_image h env args platform k output initrd_path w = (Inr m, w')"
  shows "validate_manifest_fields m = Inr () \<longleftrightarrow> (\<not> needs_snp platform \<or> list_all (\<lambda>s. s \<le> 1024) (ba_smp args))"
proof -
  have c: "valid_memory (ba_memory args)"
    using assms(1) by (auto simp: check_args_def io_simps validate_memory_def)
  note f = measured_fields [OF assms(2)]
  have "platform_tag platform \<in> set ALLOWED_PLATFORMS"
    by (cases platform) (simp_all add: platform_tag_def ALLOWED_PLATFORMS_def)
  then have "validate_manifest_fields m = Inr () \<longleftrightarrow> list_all (\<lambda>v. 1 \<le> sv_smp v \<and> sv_smp v \<le> 1024) (bm_variants m)"
    using f(1-3) c
    by (auto simp: validate_manifest_fields_def ALLOWED_DISK_FORMATS_def validate_memory_def check_variant_smps_Inr)
  also have "\<dots> \<longleftrightarrow> (\<forall>s \<in> set (map sv_smp (bm_variants m)). 1 \<le> s \<and> s \<le> 1024)" by (auto simp: list_all_iff)
  also have "\<dots> \<longleftrightarrow> (\<not> needs_snp platform \<or> list_all (\<lambda>s. s \<le> 1024) (ba_smp args))"
  proof (cases "needs_snp platform")
    case True
    then have "set (map sv_smp (bm_variants m)) = set (ba_smp args)" "0 \<notin> set (ba_smp args)" using f(4) by simp_all
    moreover have "1 \<le> s" if "s \<in> set (ba_smp args)" for s using that calculation(2) by (metis One_nat_def Suc_leI neq0_conv)
    ultimately show ?thesis using True by (auto simp: list_all_iff)
  next
    case False
    then show ?thesis using f(4) by simp
  qed
  finally show ?thesis .
qed

text \<open>
  C17. \<open>confos run\<close> admits the manifest of every build that succeeds, with one exception: a build for SNP with more than
  1024 processors.  The platform tag, the disk format and the memory text that a build writes are among those that a
  run knows.
\<close>

theorem built_image_is_admitted:
  assumes "build_run h env args w = (Inr m, w')"
  shows "\<exists>platform. resolve_platform args = Inr platform
    \<and> (validate_manifest_fields m = Inr () \<longleftrightarrow> (\<not> needs_snp platform \<or> list_all (\<lambda>s. s \<le> 1024) (ba_smp args)))"
proof -
  obtain platform k initrd_path guards w0 w1 w2 where c: "check_args h args w = (Inr platform, w0)"
    and m: "measure_image h env args platform k (canon h (path_join ''output'' (ba_name args))) initrd_path w1 = (Inr m, w2)"
    by (rule build_run_Inr [OF assms])
  show ?thesis using check_args_platform [OF c] measured_image_admitted [OF c m] by blast
qed

lemma built_image_is_admitted_witness:
  "\<exists>m w'. build_run B E tdx_args build_world = (Inr m, w') \<and> validate_manifest_fields m = Inr ()"
proof -
  obtain m w' where m: "build_run B E tdx_args build_world = (Inr m, w')" using sample_confos_build by blast
  from built_image_is_admitted [OF m] show ?thesis using m by (auto simp: sample_build_args)
qed

end
