(* ===== verification/Spec2Isabelle.thy ===== *)
theory Spec2Isabelle
  imports Prelude Bytes RustStr HashChain Pe Esp Rtmr Rtmr3Hook Ccel Tdvf TdxMeasure IgvmCli KConfig KernelWitnesses
    Registry BuiltRuns
begin

text \<open>
  A verification library of confidential-os-builder.  The program builds an operating system image for confidential
  virtual machines and predicts what the hardware will attest of it.  It has four parts.

    \<^item> \<open>crates/tdx-measure\<close> computes the measurement registers of Intel TDX from a firmware, a unified kernel image
      (UKI) and a disk, reads the event log of a guest, and compares the two.
    \<^item> \<open>crates/igvm-tools\<close> writes the IGVM file that AMD SEV-SNP launches, and computes its launch digest.
    \<^item> \<open>crates/rtmr3-hook\<close> is the hook of the guest that measures the image of each container.
    \<^item> \<open>src/\<close>, the command \<open>confos\<close>, builds the kernel and the image with external tools (mkosi, sudo, a container),
      calls the two libraries on the result, writes the manifest that a verifier reads, and runs, pushes and pulls images.

  \<^bold>\<open>Foundations.\<close>  \<open>Prelude\<close> holds outcomes (\<open>'e fault + 'a\<close>: a value, an error of the code, or a panic), their
  combinators, checked arithmetic, slices and the collections \<open>exec_simps\<close> and \<open>outcome_simps\<close>.  \<open>Bytes\<close> has the
  little-endian fields of all binary formats, \<open>RustStr\<close> what the program uses of \<open>str\<close> (a string is its UTF-8 bytes),
  \<open>OrdMap\<close> the maps of the standard library behind the interface \<open>rust_map\<close>, with \<open>BTreeMap\<close> and \<open>HashMap\<close> as its
  interpretations.  \<open>HashChain\<close> is the interface of a measurement register, a chain of hashes; the runtime registers
  of TDX and the SNP launch digest are interpretations of it, and its lemma that equal registers mean equal events, or a
  break of the hash function that the two chains exhibit, carries all the security properties.  \<open>World\<close> is the machine of
  the builder: a file system, steps that read and change it and can fail, and a record \<open>host\<close> with all that the program
  cannot decide.  \<open>FileTree\<close> adds directories.

  \<^bold>\<open>tdx-measure.\<close>  \<open>Pe\<close> (\<open>pe.rs\<close>): sections and Authenticode hash of a PE image.  \<open>Esp\<close> (\<open>esp.rs\<close>): the system
  partition of a disk and a file in it.  \<open>Rtmr\<close> (\<open>rtmr.rs\<close>): the registers RTMR[1], RTMR[2] and RTMR[3].  \<open>Ccel\<close>
  (\<open>ccel.rs\<close>): the event log.  \<open>Tdvf\<close> (\<open>tdvf.rs\<close>): the metadata of a firmware, MRTD and RTMR[0].  \<open>TdxMeasure\<close>
  (\<open>main.rs\<close>, \<open>lib.rs\<close>): the commands and the entry point of the library.  The lemmas show that equal registers bind
  the firmware, the boot chain and the sections of the UKI, what a log that was verified says, the round trip of the
  log parser, where parsers panic, and exactly when the search of the firmware table does not end.

  \<^bold>\<open>rtmr3-hook.\<close>  \<open>Rtmr3Hook\<close> (\<open>main.rs\<close>): the hook; what it extends is what the verifier predicts, and it
  refuses a container whose digest it cannot find.

  \<^bold>\<open>igvm-tools.\<close>  \<open>X86Regs\<close> (\<open>x86regs.rs\<close>), \<open>OvmfMeta\<close> (\<open>ovmfmeta.rs\<close>), \<open>Hob\<close> (\<open>hob.rs\<close>), \<open>Builder\<close>
  (\<open>builder.rs\<close>), \<open>SnpMeasure\<close> (\<open>measure.rs\<close>, \<open>hypervisor.rs\<close>), \<open>IgvmBuild\<close> (\<open>build.rs\<close>) and \<open>IgvmCli\<close>
  (\<open>main.rs\<close>, \<open>manifest.rs\<close>) follow the files.  \<open>IgvmCorrect\<close> has the main results: the batched measurement equals the
  chain over single pages, every page of the kernel is measured, two builds with one digest place the same pages, and
  a build succeeds under exactly three conditions.

  \<^bold>\<open>confos: the kernel.\<close>  \<open>Tools\<close> (\<open>tools.rs\<close>): commands, and the watched mkosi run.  \<open>KConfig\<close> (\<open>kernel/config.rs\<close>,
  \<open>kernel/aml.rs\<close>): the checks of the resolved configuration, with the scan of the fragments refined from a
  specification by the last request for each symbol.  \<open>KernelSource\<close> (\<open>kernel/version.rs\<close>, \<open>fetch.rs\<close>, \<open>compile.rs\<close>,
  the phases of \<open>config.rs\<close>), \<open>KernelTools\<close> (\<open>commands/kernel/tools_tree.rs\<close>), \<open>KernelBuild\<close> (\<open>commands/kernel.rs\<close>,
  \<open>kernel/manifest.rs\<close>, \<open>kernel_cache.rs\<close>): the kernel that an image gets has the hash that its manifest names, cached
  or built, and equal fingerprints mean equal inputs.

  \<^bold>\<open>confos: the image.\<close>  \<open>ImageManifest\<close> (\<open>manifest.rs\<close>, \<open>commands/igvm.rs\<close>, \<open>igvm/invoke.rs\<close>): the manifest and
  the derivation of SNP variants.  \<open>Profiles\<close> and \<open>ImageBuild\<close> (\<open>commands/build.rs\<close>): staging, and the build from its
  checks to the manifest.  \<open>Qemu\<close> (\<open>qemu.rs\<close>) and \<open>RunVm\<close> (\<open>commands/run.rs\<close>): the command line of a guest.
  \<open>Registry\<close> (\<open>commands/push.rs\<close>, \<open>commands/pull.rs\<close>).  \<open>BuiltRuns\<close>: what a build and a run agree on.  The lemmas show
  that the manifest of a build that succeeds describes the files beside it and records the kernel that the image got,
  that nothing staged is left, that a derivation keeps this so, that no field of a manifest injects a property into the
  command line, that a profile means the same where it is staged, and what the sweep removes.  The argument types are those of \<open>src/lib.rs\<close>.

  \<^bold>\<open>Witnesses.\<close>  \<open>KernelWitness\<close>, \<open>KernelSample\<close> and \<open>KernelWitnesses\<close> run a kernel build, \<open>ImageWitness\<close> and
  \<open>BuildSample\<close> a whole \<open>confos build\<close>, on a small machine whose commands leave the files that the next steps need; the other witnesses stand beside
  their theorems.

  \<^bold>\<open>Conventions.\<close>  A size that the code checks is a \<open>nat\<close> with the check written out (\<open>add_u64\<close>, \<open>sub_u64\<close>); a field
  of a binary format is a word or its value.  A panic is a value, so that theorems can say where it happens.  A sorted
  result is \<open>sort_key\<close>, which is stable as the sort of the code is.  \<open>Tdvf::parse\<close> can loop for ever: it is a
  \<open>partial_function\<close>, and \<open>None\<close> is a run that does not end; a build that calls it ends in \<open>Diverges\<close>.  Recursions over
  directories end since Linux refuses paths of \<open>PATH_MAX\<close> bytes, and each level makes the path longer.  An \<open>exec\<close>
  that replaces the process is the argument vector it returns; a command that runs in a directory has this directory
  in front of its arguments; the entries of a directory are visited by name.

  \<^bold>\<open>Parameters.\<close>  SHA-384 and SHA-256; the FAT driver behind the reader of the ESP; the IGVM container format, its
  validation, and the layout of the VMSA page (\<open>igvm\<close>, \<open>sev\<close>); \<open>ukify\<close>; the JSON texts of the manifests, each a
  printer with its parser; base64, tar and gzip; the clock, the user, the lock of the checkout; the resolution of
  paths, the refusals of the system, and the effect of each external command.  No theorem assumes that a hash function
  is injective.

  \<^bold>\<open>Not modelled.\<close>  Argument parsing (clap) and the dispatch in \<open>main.rs\<close>; printed text that no code reads, and
  logging; file modes and owners; the processes and streams behind a command, of which only the result counts; another
  process that changes files between two steps; \<open>to_canonical_json\<close>, which only tests call.  Outside the Rust code: the
  configuration of mkosi with its scripts and units, the kernel fragments and patches, the firmware binary, the shell
  scripts of \<open>bin/\<close>, the tool that dumps ACPI tables, examples, tests and workflows.
\<close>

end
